(* ===== verification/Heim_Prelude.thy ===== *)
theory Heim_Prelude
  imports Main "HOL-Library.Word"
begin

text \<open>
  Shared vocabulary of the development.

  \<^item> The machine integers of the sources as words, with the arithmetic a Rust build really
    performs: an overflow panics when the build has overflow checks, and wraps otherwise.
  \<^item> The type \<open>outcome\<close> of everything a call can do: return \<open>Ok\<close>, return \<open>Err\<close>, or panic.
    Its combinators carry the names of the Rust methods they stand for.
  \<^item> The collections of rewrite rules the component theories share, and generic lemmas on
    lists and options.
\<close>

named_theorems outcome_simps \<open>computation rules of the outcome combinators\<close>
named_theorems str_simps \<open>computation rules of the string routines\<close>

type_synonym u8 = "8 word"
type_synonym u32 = "32 word"
type_synonym u64 = "64 word"
type_synonym i32 = "32 word"
type_synonym i64 = "64 word"

text \<open>Outcomes. \<open>Panic\<close> is a Rust panic: it never reaches the caller as a value.\<close>

datatype ('a, 'e) outcome = Ok 'a | Err 'e | Panic

fun and_then :: "('a, 'e) outcome \<Rightarrow> ('a \<Rightarrow> ('b, 'e) outcome) \<Rightarrow> ('b, 'e) outcome" where
  "and_then (Ok x) f = f x"
| "and_then (Err e) f = Err e"
| "and_then Panic f = Panic"

fun or_else :: "('a, 'e) outcome \<Rightarrow> ('e \<Rightarrow> ('a, 'f) outcome) \<Rightarrow> ('a, 'f) outcome" where
  "or_else (Ok x) f = Ok x"
| "or_else (Err e) f = f e"
| "or_else Panic f = Panic"

fun map_ok :: "('a \<Rightarrow> 'b) \<Rightarrow> ('a, 'e) outcome \<Rightarrow> ('b, 'e) outcome" where
  "map_ok f (Ok x) = Ok (f x)"
| "map_ok f (Err e) = Err e"
| "map_ok f Panic = Panic"

fun map_err :: "('e \<Rightarrow> 'f) \<Rightarrow> ('a, 'e) outcome \<Rightarrow> ('a, 'f) outcome" where
  "map_err f (Ok x) = Ok x"
| "map_err f (Err e) = Err (f e)"
| "map_err f Panic = Panic"

fun ok_opt :: "('a, 'e) outcome \<Rightarrow> ('a option, 'f) outcome" where
  "ok_opt (Ok x) = Ok (Some x)"
| "ok_opt (Err e) = Ok None"
| "ok_opt Panic = Panic"

fun ok_or :: "'a option \<Rightarrow> 'e \<Rightarrow> ('a, 'e) outcome" where
  "ok_or (Some x) e = Ok x"
| "ok_or None e = Err e"

fun expect :: "'a option \<Rightarrow> ('a, 'e) outcome" where
  "expect (Some x) = Ok x"
| "expect None = Panic"

fun is_ok :: "('a, 'e) outcome \<Rightarrow> bool" where
  "is_ok (Ok x) = True"
| "is_ok (Err e) = False"
| "is_ok Panic = False"

lemmas [outcome_simps] =
  and_then.simps or_else.simps map_ok.simps map_err.simps ok_opt.simps ok_or.simps expect.simps

lemma and_then_eq_Ok [simp]: "and_then r f = Ok y \<longleftrightarrow> (\<exists>x. r = Ok x \<and> f x = Ok y)"
  by (cases r) auto

lemma and_then_eq_Panic: "and_then r f = Panic \<longleftrightarrow> r = Panic \<or> (\<exists>x. r = Ok x \<and> f x = Panic)"
  by (cases r) auto

lemma and_then_eq_Err: "and_then r f = Err e \<longleftrightarrow> r = Err e \<or> (\<exists>x. r = Ok x \<and> f x = Err e)"
  by (cases r) auto

lemma and_then_assoc: "and_then (and_then r f) g = and_then r (\<lambda>x. and_then (f x) g)"
  by (cases r) auto

lemma map_ok_eq_Ok [simp]: "map_ok f r = Ok y \<longleftrightarrow> (\<exists>x. r = Ok x \<and> y = f x)"
  by (cases r) auto

lemma map_ok_eq_Err [simp]: "map_ok f r = Err e \<longleftrightarrow> r = Err e"
  by (cases r) auto

lemma map_ok_eq_Panic [simp]: "map_ok f r = Panic \<longleftrightarrow> r = Panic"
  by (cases r) auto

lemma map_err_eq_Ok [simp]: "map_err f r = Ok y \<longleftrightarrow> r = Ok y"
  by (cases r) auto

lemma map_err_eq_Err [simp]: "map_err f r = Err e \<longleftrightarrow> (\<exists>d. r = Err d \<and> e = f d)"
  by (cases r) auto

lemma map_err_eq_Panic [simp]: "map_err f r = Panic \<longleftrightarrow> r = Panic"
  by (cases r) auto

lemma or_else_eq_Ok: "or_else r f = Ok y \<longleftrightarrow> r = Ok y \<or> (\<exists>e. r = Err e \<and> f e = Ok y)"
  by (cases r) auto

lemma ok_opt_eq_Ok_Some [simp]: "ok_opt r = Ok (Some x) \<longleftrightarrow> r = Ok x"
  by (cases r) auto

lemma ok_or_eq_Ok [simp]: "ok_or r e = Ok x \<longleftrightarrow> r = Some x"
  by (cases r) auto

lemma ok_or_not_Panic [simp]: "ok_or r e \<noteq> Panic"
  by (cases r) auto

lemma is_ok_iff: "is_ok r \<longleftrightarrow> (\<exists>x. r = Ok x)"
  by (cases r) auto

text \<open>
  Unsigned 64-bit arithmetic of a build. The flag \<open>oc\<close> is the build's \<open>overflow-checks\<close>
  setting (on in debug builds, off in release builds).
\<close>

definition u64_add :: "bool \<Rightarrow> u64 \<Rightarrow> u64 \<Rightarrow> (u64, 'e) outcome" where
  "u64_add oc a b = (if oc \<and> \<not> unat a + unat b < 2 ^ 64 then Panic else Ok (a + b))"

definition u64_sub :: "bool \<Rightarrow> u64 \<Rightarrow> u64 \<Rightarrow> (u64, 'e) outcome" where
  "u64_sub oc a b = (if oc \<and> a < b then Panic else Ok (a - b))"

definition u64_mul :: "bool \<Rightarrow> u64 \<Rightarrow> u64 \<Rightarrow> (u64, 'e) outcome" where
  "u64_mul oc a b = (if oc \<and> \<not> unat a * unat b < 2 ^ 64 then Panic else Ok (a * b))"

definition u64_div :: "u64 \<Rightarrow> u64 \<Rightarrow> (u64, 'e) outcome" where
  "u64_div a b = (if b = 0 then Panic else Ok (a div b))"

lemma u64_add_exact: "unat a + unat b < 2 ^ 64 \<Longrightarrow> u64_add oc a b = Ok (a + b)"
  by (simp add: u64_add_def)

lemma u64_sub_exact: "b \<le> a \<Longrightarrow> u64_sub oc a b = Ok (a - b)"
  by (simp add: u64_sub_def not_less)

lemma u64_mul_exact: "unat a * unat b < 2 ^ 64 \<Longrightarrow> u64_mul oc a b = Ok (a * b)"
  by (simp add: u64_mul_def)

lemma u64_arith_not_Err [simp]:
  "u64_add oc a b \<noteq> Err e" "u64_sub oc a b \<noteq> Err e" "u64_mul oc a b \<noteq> Err e"
  "u64_div a b \<noteq> Err e"
  by (simp_all add: u64_add_def u64_sub_def u64_mul_def u64_div_def)

lemma unat_u64_add: "unat (a :: u64) + unat b < 2 ^ 64 \<Longrightarrow> unat (a + b) = unat a + unat b"
  by (simp add: unat_word_ariths)

lemma unat_u64_mul: "unat (a :: u64) * unat b < 2 ^ 64 \<Longrightarrow> unat (a * b) = unat a * unat b"
  by (simp add: unat_word_ariths)

text \<open>Traversing a list with a fallible function, stopping at the first failure.\<close>

fun map_outcome :: "('a \<Rightarrow> ('b, 'e) outcome) \<Rightarrow> 'a list \<Rightarrow> ('b list, 'e) outcome" where
  "map_outcome f [] = Ok []"
| "map_outcome f (x # xs) = and_then (f x) (\<lambda>y. map_ok (Cons y) (map_outcome f xs))"

lemma map_outcome_Ok:
  "map_outcome f xs = Ok ys \<longleftrightarrow> map f xs = map Ok ys"
proof (induction xs arbitrary: ys)
  case Nil
  then show ?case by auto
next
  case (Cons x xs)
  then show ?case by (cases ys) auto
qed

lemma takeWhile_neq_append:
  "c \<notin> set p \<Longrightarrow> takeWhile (\<lambda>x. x \<noteq> c) (p @ c # r) = p"
  by (induction p) auto

lemma dropWhile_neq_append:
  "c \<notin> set p \<Longrightarrow> dropWhile (\<lambda>x. x \<noteq> c) (p @ c # r) = c # r"
  by (induction p) auto

lemma takeWhile_neq_all: "c \<notin> set p \<Longrightarrow> takeWhile (\<lambda>x. x \<noteq> c) p = p"
  by (induction p) auto

lemma dropWhile_neq_all: "c \<notin> set p \<Longrightarrow> dropWhile (\<lambda>x. x \<noteq> c) p = []"
  by (induction p) auto

text \<open>
  \<open>try_join\<close> of the \<open>futures\<close> crate: both results, or the error of a future that fails; \<open>race\<close> says which
  error it is when both fail.
\<close>

fun try_join :: "bool \<Rightarrow> ('a, 'e) outcome \<Rightarrow> ('b, 'e) outcome \<Rightarrow> ('a \<times> 'b, 'e) outcome" where
  "try_join race (Ok x) (Ok y) = Ok (x, y)"
| "try_join race Panic b = Panic"
| "try_join race a Panic = Panic"
| "try_join race (Err e) (Err f) = Err (if race then e else f)"
| "try_join race (Err e) b = Err e"
| "try_join race a (Err f) = Err f"

end
