(* ===== verification/Rust_Str.thy ===== *)
theory Rust_Str
  imports Heim_Prelude "HOL-Library.Sublist"
begin

text \<open>
  The routines of Rust's \<open>str\<close>, \<open>u8\<close> slices and \<open>FromStr\<close> that the sources call, on strings
  as lists of UTF-8 bytes (\<open>char\<close> is a byte here). Byte offsets, lengths and slices are
  therefore the ones of the program. Every delimiter the sources split on is ASCII, and an
  ASCII byte never occurs inside a multi-byte character, so splitting bytes is splitting
  characters; Unicode white space is recognised by its encoded bytes.

  The lemmas are the round trips and side conditions the parsers of the components rest on:
  splitting a text joined with a separator, reading back a printed number.
\<close>

type_synonym bytes = string

definition byte :: "char \<Rightarrow> nat" where
  "byte c = of_char c"

abbreviation NL :: char where "NL \<equiv> CHR 0x0A"
abbreviation CR :: char where "CR \<equiv> CHR 0x0D"
abbreviation TAB :: char where "TAB \<equiv> CHR 0x09"
abbreviation NUL :: char where "NUL \<equiv> CHR 0x00"
abbreviation SP :: char where "SP \<equiv> CHR 0x20"

section \<open>Splitting\<close>

text \<open>\<open>str::split\<close> by a predicate on (ASCII) characters: always at least one piece.\<close>

fun split_by :: "(char \<Rightarrow> bool) \<Rightarrow> string \<Rightarrow> string list" where
  "split_by P [] = [[]]"
| "split_by P (x # xs) =
     (if P x then [] # split_by P xs
      else (case split_by P xs of [] \<Rightarrow> [[x]] | p # ps \<Rightarrow> (x # p) # ps))"

definition split_char :: "char \<Rightarrow> string \<Rightarrow> string list" where
  "split_char c = split_by (\<lambda>x. x = c)"

text \<open>\<open>memchr\<close> and \<open>str::rfind\<close>: the offset of the first and of the last occurrence.\<close>

definition memchr :: "char \<Rightarrow> bytes \<Rightarrow> nat option" where
  "memchr c s = (let n = length (takeWhile (\<lambda>x. x \<noteq> c) s) in if n < length s then Some n else None)"

definition rfind :: "char \<Rightarrow> string \<Rightarrow> nat option" where
  "rfind c s = (case memchr c (rev s) of None \<Rightarrow> None | Some k \<Rightarrow> Some (length s - 1 - k))"

text \<open>\<open>str::splitn\<close> with a count, by one character.\<close>

fun splitn :: "nat \<Rightarrow> char \<Rightarrow> string \<Rightarrow> string list" where
  "splitn 0 c s = []"
| "splitn (Suc 0) c s = [s]"
| "splitn (Suc (Suc n)) c s =
     (case memchr c s of
        None \<Rightarrow> [s]
      | Some k \<Rightarrow> take k s # splitn (Suc n) c (drop (Suc k) s))"

text \<open>
  White space: the number of bytes of the white space character at the head, 0 if there is
  none. The multi-byte cases are U+0085, U+00A0, U+1680, U+2000 to U+200A, U+2028, U+2029,
  U+202F, U+205F and U+3000.
\<close>

definition ascii_ws1 :: "nat \<Rightarrow> bool" where
  "ascii_ws1 n \<longleftrightarrow> (9 \<le> n \<and> n \<le> 13) \<or> n = 32"

definition ws2 :: "nat \<Rightarrow> nat \<Rightarrow> bool" where
  "ws2 a b \<longleftrightarrow> a = 0xC2 \<and> (b = 0x85 \<or> b = 0xA0)"

definition ws3 :: "nat \<Rightarrow> nat \<Rightarrow> nat \<Rightarrow> bool" where
  "ws3 a b c \<longleftrightarrow>
     (a = 0xE1 \<and> b = 0x9A \<and> c = 0x80) \<or>
     (a = 0xE2 \<and> b = 0x80 \<and> ((0x80 \<le> c \<and> c \<le> 0x8A) \<or> c = 0xA8 \<or> c = 0xA9 \<or> c = 0xAF)) \<or>
     (a = 0xE2 \<and> b = 0x81 \<and> c = 0x9F) \<or>
     (a = 0xE3 \<and> b = 0x80 \<and> c = 0x80)"

definition ws_len :: "string \<Rightarrow> nat" where
  "ws_len s =
     (case s of [] \<Rightarrow> 0
      | a # t \<Rightarrow> if ascii_ws1 (byte a) then 1
          else (case t of [] \<Rightarrow> 0
            | b # u \<Rightarrow> if ws2 (byte a) (byte b) then 2
                else (case u of [] \<Rightarrow> 0
                  | c # _ \<Rightarrow> if ws3 (byte a) (byte b) (byte c) then 3 else 0)))"

function split_ws_aux :: "string \<Rightarrow> string \<Rightarrow> string list" where
  "split_ws_aux acc [] = (if acc = [] then [] else [rev acc])"
| "split_ws_aux acc (x # xs) =
     (if ws_len (x # xs) = 0 then split_ws_aux (x # acc) xs
      else (if acc = [] then [] else [rev acc]) @ split_ws_aux [] (drop (ws_len (x # xs) - 1) xs))"
  by pat_completeness auto
termination
  by (relation "measure (\<lambda>(acc, s). length s)") auto

text \<open>\<open>str::split_whitespace\<close> and \<open>str::split_ascii_whitespace\<close>.\<close>

definition split_whitespace :: "string \<Rightarrow> string list" where
  "split_whitespace s = split_ws_aux [] s"

definition is_ascii_ws :: "char \<Rightarrow> bool" where
  "is_ascii_ws c \<longleftrightarrow> byte c \<in> {0x09, 0x0A, 0x0C, 0x0D, 0x20}"

definition split_ascii_whitespace :: "string \<Rightarrow> string list" where
  "split_ascii_whitespace s = filter (\<lambda>p. p \<noteq> []) (split_by is_ascii_ws s)"

text \<open>\<open>str::trim_start\<close>, \<open>str::trim_end\<close>, \<open>str::trim\<close>, \<open>str::trim_end_matches\<close>.\<close>

function trim_start :: "string \<Rightarrow> string" where
  "trim_start [] = []"
| "trim_start (x # xs) =
     (if ws_len (x # xs) = 0 then x # xs else trim_start (drop (ws_len (x # xs) - 1) xs))"
  by pat_completeness auto
termination
  by (relation "measure length") auto

fun trim_end :: "string \<Rightarrow> string" where
  "trim_end [] = []"
| "trim_end (x # xs) = (if trim_start (x # xs) = [] then [] else x # trim_end xs)"

definition trim :: "string \<Rightarrow> string" where
  "trim s = trim_end (trim_start s)"

definition trim_end_matches :: "char \<Rightarrow> string \<Rightarrow> string" where
  "trim_end_matches c s = rev (dropWhile (\<lambda>x. x = c) (rev s))"

text \<open>\<open>starts_with\<close>, \<open>ends_with\<close>, \<open>contains\<close>.\<close>

definition starts_with :: "string \<Rightarrow> string \<Rightarrow> bool" where
  "starts_with s p \<longleftrightarrow> take (length p) s = p"

definition ends_with :: "string \<Rightarrow> string \<Rightarrow> bool" where
  "ends_with s p \<longleftrightarrow> starts_with (rev s) (rev p)"

fun contains :: "string \<Rightarrow> string \<Rightarrow> bool" where
  "contains [] p = (p = [])"
| "contains (x # xs) p = (starts_with (x # xs) p \<or> contains xs p)"

text \<open>\<open>str::lines\<close> and \<open>BufRead::lines\<close>: a final line ending is optional.\<close>

definition strip_cr :: "string \<Rightarrow> string" where
  "strip_cr l = (if l \<noteq> [] \<and> last l = CR then butlast l else l)"

definition str_lines :: "string \<Rightarrow> string list" where
  "str_lines s =
     (let ps = split_char NL s
      in map strip_cr (butlast ps) @ (if last ps = [] then [] else [last ps]))"

text \<open>\<open>eq_ignore_ascii_case\<close>.\<close>

definition to_ascii_lowercase :: "char \<Rightarrow> char" where
  "to_ascii_lowercase c = (if 65 \<le> byte c \<and> byte c \<le> 90 then char_of (byte c + 32) else c)"

definition eq_ignore_ascii_case :: "string \<Rightarrow> string \<Rightarrow> bool" where
  "eq_ignore_ascii_case a b \<longleftrightarrow> map to_ascii_lowercase a = map to_ascii_lowercase b"

text \<open>
  A byte offset is a character boundary unless it points at a continuation byte. Slicing a
  \<open>str\<close> elsewhere, or out of range, panics.
\<close>

definition is_char_boundary :: "string \<Rightarrow> nat \<Rightarrow> bool" where
  "is_char_boundary s i \<longleftrightarrow>
     i = 0 \<or> i = length s \<or> (i < length s \<and> \<not> (0x80 \<le> byte (s ! i) \<and> byte (s ! i) \<le> 0xBF))"

definition str_slice :: "string \<Rightarrow> nat \<Rightarrow> nat \<Rightarrow> (string, 'e) outcome" where
  "str_slice s i j =
     (if i \<le> j \<and> j \<le> length s \<and> is_char_boundary s i \<and> is_char_boundary s j
      then Ok (take (j - i) (drop i s)) else Panic)"

definition str_slice_from :: "string \<Rightarrow> nat \<Rightarrow> (string, 'e) outcome" where
  "str_slice_from s i =
     (if i \<le> length s \<and> is_char_boundary s i then Ok (drop i s) else Panic)"

text \<open>Slicing a byte slice: only the range matters.\<close>

definition byte_slice :: "bytes \<Rightarrow> nat \<Rightarrow> nat \<Rightarrow> (bytes, 'e) outcome" where
  "byte_slice s i j = (if i \<le> j \<and> j \<le> length s then Ok (take (j - i) (drop i s)) else Panic)"

definition byte_slice_from :: "bytes \<Rightarrow> nat \<Rightarrow> (bytes, 'e) outcome" where
  "byte_slice_from s i = (if i \<le> length s then Ok (drop i s) else Panic)"

text \<open>The well-formedness check of \<open>String::from_utf8\<close>.\<close>

definition cont_byte :: "nat \<Rightarrow> bool" where
  "cont_byte n \<longleftrightarrow> 0x80 \<le> n \<and> n \<le> 0xBF"

fun utf8_valid :: "bytes \<Rightarrow> bool" where
  "utf8_valid [] = True"
| "utf8_valid (a # r) =
     (let x = byte a in
      if x < 0x80 then utf8_valid r
      else if 0xC2 \<le> x \<and> x \<le> 0xDF then
        (case r of b # r' \<Rightarrow> cont_byte (byte b) \<and> utf8_valid r' | _ \<Rightarrow> False)
      else if 0xE0 \<le> x \<and> x \<le> 0xEF then
        (case r of b # c # r' \<Rightarrow>
             cont_byte (byte b) \<and> (x = 0xE0 \<longrightarrow> 0xA0 \<le> byte b) \<and> (x = 0xED \<longrightarrow> byte b \<le> 0x9F)
             \<and> cont_byte (byte c) \<and> utf8_valid r'
         | _ \<Rightarrow> False)
      else if 0xF0 \<le> x \<and> x \<le> 0xF4 then
        (case r of b # c # d # r' \<Rightarrow>
             cont_byte (byte b) \<and> (x = 0xF0 \<longrightarrow> 0x90 \<le> byte b) \<and> (x = 0xF4 \<longrightarrow> byte b \<le> 0x8F)
             \<and> cont_byte (byte c) \<and> cont_byte (byte d) \<and> utf8_valid r'
         | _ \<Rightarrow> False)
      else False)"

text \<open>
  \<open>String::from_utf8_lossy\<close>: every maximal ill-formed sequence becomes the replacement
  character U+FFFD.
\<close>

abbreviation REPLACEMENT :: string where
  "REPLACEMENT \<equiv> [CHR 0xEF, CHR 0xBF, CHR 0xBD]"

definition second_ok :: "nat \<Rightarrow> nat \<Rightarrow> bool" where
  "second_ok x b \<longleftrightarrow> cont_byte b \<and> (x = 0xE0 \<longrightarrow> 0xA0 \<le> b) \<and> (x = 0xED \<longrightarrow> b \<le> 0x9F)
     \<and> (x = 0xF0 \<longrightarrow> 0x90 \<le> b) \<and> (x = 0xF4 \<longrightarrow> b \<le> 0x8F)"

fun utf8_lossy :: "bytes \<Rightarrow> string" where
  "utf8_lossy [] = []"
| "utf8_lossy (a # r) =
     (let x = byte a in
      if x < 0x80 then a # utf8_lossy r
      else if 0xC2 \<le> x \<and> x \<le> 0xDF then
        (case r of [] \<Rightarrow> REPLACEMENT
         | b # r1 \<Rightarrow> if cont_byte (byte b) then a # b # utf8_lossy r1 else REPLACEMENT @ utf8_lossy r)
      else if 0xE0 \<le> x \<and> x \<le> 0xF4 then
        (case r of [] \<Rightarrow> REPLACEMENT
         | b # r1 \<Rightarrow>
             if \<not> second_ok x (byte b) then REPLACEMENT @ utf8_lossy r
             else (case r1 of [] \<Rightarrow> REPLACEMENT
               | c # r2 \<Rightarrow>
                   if \<not> cont_byte (byte c) then REPLACEMENT @ utf8_lossy r1
                   else if x \<le> 0xEF then a # b # c # utf8_lossy r2
                   else (case r2 of [] \<Rightarrow> REPLACEMENT
                     | d # r3 \<Rightarrow>
                         if cont_byte (byte d) then a # b # c # d # utf8_lossy r3
                         else REPLACEMENT @ utf8_lossy r2)))
      else REPLACEMENT @ utf8_lossy r)"

section \<open>Reading and printing integers\<close>

datatype int_error_kind = Empty | InvalidDigit | PosOverflow | NegOverflow

definition digit_of :: "char \<Rightarrow> int option" where
  "digit_of c = (if 48 \<le> byte c \<and> byte c \<le> 57 then Some (int (byte c) - 48) else None)"

fun parse_digits :: "bool \<Rightarrow> int \<Rightarrow> int \<Rightarrow> int \<Rightarrow> string \<Rightarrow> (int, int_error_kind) outcome" where
  "parse_digits pos lo hi acc [] = Ok acc"
| "parse_digits pos lo hi acc (c # cs) =
     (case digit_of c of
        None \<Rightarrow> Err InvalidDigit
      | Some d \<Rightarrow>
          (let m = acc * 10; r = (if pos then m + d else m - d)
           in if m < lo \<or> hi < m \<or> r < lo \<or> hi < r
              then Err (if pos then PosOverflow else NegOverflow)
              else parse_digits pos lo hi r cs))"

text \<open>\<open>from_str\<close> of an integer type with the range \<open>lo\<close> to \<open>hi\<close>; it is signed when \<open>lo\<close> is negative.\<close>

definition parse_int :: "int \<Rightarrow> int \<Rightarrow> string \<Rightarrow> (int, int_error_kind) outcome" where
  "parse_int lo hi s =
     (case s of
        [] \<Rightarrow> Err Empty
      | c # cs \<Rightarrow>
          if (c = CHR ''+'' \<or> c = CHR ''-'') \<and> cs = [] then Err InvalidDigit
          else if c = CHR ''+'' then parse_digits True lo hi 0 cs
          else if c = CHR ''-'' \<and> lo < 0 then parse_digits False lo hi 0 cs
          else parse_digits True lo hi 0 s)"

definition parse_u64 :: "string \<Rightarrow> (u64, int_error_kind) outcome" where
  "parse_u64 s = map_ok word_of_int (parse_int 0 18446744073709551615 s)"

definition parse_u32 :: "string \<Rightarrow> (u32, int_error_kind) outcome" where
  "parse_u32 s = map_ok word_of_int (parse_int 0 4294967295 s)"

definition parse_i64 :: "string \<Rightarrow> (i64, int_error_kind) outcome" where
  "parse_i64 s = map_ok word_of_int (parse_int (-9223372036854775808) 9223372036854775807 s)"

definition parse_i32 :: "string \<Rightarrow> (i32, int_error_kind) outcome" where
  "parse_i32 s = map_ok word_of_int (parse_int (-2147483648) 2147483647 s)"

definition digit_char :: "nat \<Rightarrow> char" where
  "digit_char d = char_of (48 + d)"

fun show_nat :: "nat \<Rightarrow> string" where
  "show_nat n = (if n < 10 then [digit_char n] else show_nat (n div 10) @ [digit_char (n mod 10)])"

declare show_nat.simps [simp del]

definition show_int :: "int \<Rightarrow> string" where
  "show_int i = (if i < 0 then CHR ''-'' # show_nat (nat (- i)) else show_nat (nat i))"

definition show_u64 :: "u64 \<Rightarrow> string" where
  "show_u64 w = show_nat (unat w)"

definition show_i32 :: "i32 \<Rightarrow> string" where
  "show_i32 w = show_int (sint w)"

text \<open>Joining with a separator (\<open>join\<close> of a slice of strings).\<close>

fun join_with :: "string \<Rightarrow> string list \<Rightarrow> string" where
  "join_with sep [] = []"
| "join_with sep [p] = p"
| "join_with sep (p # q # ps) = p @ sep @ join_with sep (q # ps)"

section \<open>Lemmas on splitting\<close>

lemma split_by_ne [simp]: "split_by P s \<noteq> []"
  by (cases s) (auto split: list.splits)

lemma split_by_none: "\<forall>x\<in>set p. \<not> P x \<Longrightarrow> split_by P p = [p]"
  by (induction p) auto

lemma split_by_append: "\<forall>x\<in>set p. \<not> P x \<Longrightarrow> P c \<Longrightarrow> split_by P (p @ c # r) = p # split_by P r"
  by (induction p) auto

lemma split_char_none [simp]: "c \<notin> set p \<Longrightarrow> split_char c p = [p]"
  unfolding split_char_def by (rule split_by_none) auto

lemma split_char_append [simp]: "c \<notin> set p \<Longrightarrow> split_char c (p @ c # r) = p # split_char c r"
  unfolding split_char_def by (rule split_by_append) auto

lemma split_char_ne [simp]: "split_char c s \<noteq> []"
  by (simp add: split_char_def)

lemma split_char_join:
  "ps \<noteq> [] \<Longrightarrow> \<forall>p\<in>set ps. c \<notin> set p \<Longrightarrow> split_char c (join_with [c] ps) = ps"
  by (induction "[c]" ps rule: join_with.induct) auto

lemma split_by_pieces: "p \<in> set (split_by P s) \<Longrightarrow> x \<in> set p \<Longrightarrow> \<not> P x"
  by (induction s arbitrary: p) (fastforce split: if_splits list.splits)+

lemma length_split_char: "length (split_char c s) = Suc (count_list s c)"
proof -
  have "length (split_by (\<lambda>x. x = c) s) = Suc (count_list s c)"
    by (induction s) (auto split: list.splits)
  then show ?thesis by (simp add: split_char_def)
qed

lemma memchr_append [simp]: "c \<notin> set p \<Longrightarrow> memchr c (p @ c # r) = Some (length p)"
  by (simp add: memchr_def takeWhile_neq_append)

lemma memchr_None [simp]: "c \<notin> set p \<Longrightarrow> memchr c p = None"
  by (simp add: memchr_def takeWhile_neq_all)

lemma memchr_Nil [simp]: "memchr c [] = None"
  by (simp add: memchr_def)

lemma length_takeWhile_neq: "length (takeWhile (\<lambda>x. x \<noteq> c) s) < length s \<longleftrightarrow> c \<in> set s"
proof
  assume "length (takeWhile (\<lambda>x. x \<noteq> c) s) < length s"
  then show "c \<in> set s" using takeWhile_neq_all [of c s] by fastforce
next
  assume "c \<in> set s"
  then obtain p r where "s = p @ c # r" "c \<notin> set p" by (meson split_list_first)
  then show "length (takeWhile (\<lambda>x. x \<noteq> c) s) < length s" by (simp add: takeWhile_neq_append)
qed

lemma memchr_None_iff: "memchr c s = None \<longleftrightarrow> c \<notin> set s"
  by (simp add: memchr_def length_takeWhile_neq)

lemma memchr_SomeD:
  assumes "memchr c s = Some k"
  shows "s = take k s @ c # drop (Suc k) s" "c \<notin> set (take k s)" "k < length s"
proof -
  have "c \<in> set s"
    using assms memchr_None_iff [of c s] by (cases "c \<in> set s") auto
  then obtain p r where s: "s = p @ c # r" "c \<notin> set p" by (meson split_list_first)
  then have "k = length p" using assms by simp
  with s show "s = take k s @ c # drop (Suc k) s" "c \<notin> set (take k s)" "k < length s"
    by simp_all
qed

lemma rfind_append: "c \<notin> set r \<Longrightarrow> rfind c (p @ c # r) = Some (length p)"
  by (simp add: rfind_def)

lemma rfind_None_iff: "rfind c s = None \<longleftrightarrow> c \<notin> set s"
  using memchr_None_iff [of c "rev s"] by (auto simp: rfind_def split: option.splits)

lemma rfind_SomeD:
  assumes "rfind c s = Some k"
  shows "s = take k s @ c # drop (Suc k) s" "c \<notin> set (drop (Suc k) s)" "k < length s"
proof -
  have "c \<in> set s"
    using assms rfind_None_iff [of c s] by (cases "c \<in> set s") auto
  then obtain p r where s: "s = p @ c # r" "c \<notin> set r" by (meson split_list_last)
  then have "k = length p" using assms by (simp add: rfind_append)
  with s show "s = take k s @ c # drop (Suc k) s" "c \<notin> set (drop (Suc k) s)" "k < length s"
    by simp_all
qed

lemma splitn_2_append [simp]: "c \<notin> set p \<Longrightarrow> splitn 2 c (p @ c # r) = [p, r]"
  by (simp add: numeral_2_eq_2)

lemma splitn_2_none [simp]: "c \<notin> set p \<Longrightarrow> splitn 2 c p = [p]"
  by (simp add: numeral_2_eq_2)

lemma splitn_ne: "0 < n \<Longrightarrow> splitn n c s \<noteq> []"
  by (induction n c s rule: splitn.induct) (auto split: option.splits)

lemma length_splitn: "length (splitn n c s) \<le> n"
  by (induction n c s rule: splitn.induct) (auto split: option.splits)

text \<open>Characters that neither are white space nor start an encoded white space character.\<close>

definition solid :: "char \<Rightarrow> bool" where
  "solid c \<longleftrightarrow> \<not> ascii_ws1 (byte c) \<and> byte c \<notin> {0xC2, 0xE1, 0xE2, 0xE3}"

definition token :: "string \<Rightarrow> bool" where
  "token t \<longleftrightarrow> t \<noteq> [] \<and> list_all solid t"

lemma ws_len_solid [simp]: "solid c \<Longrightarrow> ws_len (c # r) = 0"
  by (auto simp: ws_len_def solid_def ws2_def ws3_def split: list.splits)

lemma ws_len_ascii: "ascii_ws1 (byte c) \<Longrightarrow> ws_len (c # r) = 1"
  by (simp add: ws_len_def)

lemma ascii_ws1_consts [simp]:
  "ascii_ws1 (byte SP)" "ascii_ws1 (byte NL)" "ascii_ws1 (byte TAB)" "ascii_ws1 (byte CR)"
  by (simp_all add: ascii_ws1_def byte_def)

lemma split_ws_aux_solid:
  "list_all solid t \<Longrightarrow> split_ws_aux acc (t @ r) = split_ws_aux (rev t @ acc) r"
  by (induction t arbitrary: acc) auto

lemma split_ws_aux_sep:
  "ascii_ws1 (byte c) \<Longrightarrow>
   split_ws_aux acc (c # r) = (if acc = [] then [] else [rev acc]) @ split_ws_aux [] r"
  by (simp add: ws_len_ascii)

declare split_ws_aux.simps(2) [simp del]

lemma split_whitespace_Nil [simp]: "split_whitespace [] = []"
  by (simp add: split_whitespace_def)

lemma split_whitespace_token [simp]: "token t \<Longrightarrow> split_whitespace t = [t]"
  using split_ws_aux_solid [of t "[]" "[]"] by (simp add: token_def split_whitespace_def)

lemma split_whitespace_Cons:
  "token t \<Longrightarrow> ascii_ws1 (byte c) \<Longrightarrow> split_whitespace (t @ c # r) = t # split_whitespace r"
  by (simp add: token_def split_whitespace_def split_ws_aux_solid split_ws_aux_sep)

lemma split_whitespace_skip:
  "ascii_ws1 (byte c) \<Longrightarrow> split_whitespace (c # r) = split_whitespace r"
  by (simp add: split_whitespace_def split_ws_aux_sep)

lemma split_whitespace_join:
  "list_all token ts \<Longrightarrow> split_whitespace (join_with [SP] ts) = ts"
  by (induction "[SP]" ts rule: join_with.induct)
     (auto simp: split_whitespace_Cons)

lemma split_whitespace_join_NL:
  "list_all token ts \<Longrightarrow> ts \<noteq> [] \<Longrightarrow> split_whitespace (join_with [SP] ts @ [NL]) = ts"
  by (induction "[SP]" ts rule: join_with.induct)
     (auto simp: split_whitespace_Cons split_whitespace_skip)

lemma split_ascii_whitespace_Cons:
  "p \<noteq> [] \<Longrightarrow> \<forall>x\<in>set p. \<not> is_ascii_ws x \<Longrightarrow> is_ascii_ws c \<Longrightarrow>
   split_ascii_whitespace (p @ c # r) = p # split_ascii_whitespace r"
  by (simp add: split_ascii_whitespace_def split_by_append)

lemma split_ascii_whitespace_one:
  "p \<noteq> [] \<Longrightarrow> \<forall>x\<in>set p. \<not> is_ascii_ws x \<Longrightarrow> split_ascii_whitespace p = [p]"
  by (simp add: split_ascii_whitespace_def split_by_none)

lemma split_ascii_whitespace_Nil [simp]: "split_ascii_whitespace [] = []"
  by (simp add: split_ascii_whitespace_def)

lemma solid_not_ascii_ws: "solid c \<Longrightarrow> \<not> is_ascii_ws c"
  by (auto simp: solid_def is_ascii_ws_def ascii_ws1_def)

lemma is_ascii_ws_SP_NL [simp]: "is_ascii_ws SP" "is_ascii_ws NL"
  by (simp_all add: is_ascii_ws_def byte_def)

lemma split_ascii_whitespace_join:
  assumes "list_all token ts"
  shows "split_ascii_whitespace (join_with [SP] ts) = ts"
  using assms
proof (induction "[SP]" ts rule: join_with.induct)
  case (3 p q ps)
  then have "p \<noteq> []" "\<forall>x\<in>set p. \<not> is_ascii_ws x"
    by (auto simp: token_def list_all_iff solid_not_ascii_ws)
  with 3 show ?case by (simp add: split_ascii_whitespace_Cons)
qed (auto simp: token_def list_all_iff solid_not_ascii_ws intro!: split_ascii_whitespace_one)

lemma trim_start_solid [simp]: "solid c \<Longrightarrow> trim_start (c # r) = c # r"
  by simp

lemma trim_start_ws: "ascii_ws1 (byte c) \<Longrightarrow> trim_start (c # r) = trim_start r"
  by (simp add: ws_len_ascii)

declare trim_start.simps(2) [simp del]

lemma trim_end_solid: "list_all solid t \<Longrightarrow> trim_end t = t"
  by (induction t) auto

lemma trim_end_token_ws:
  "list_all solid t \<Longrightarrow> ascii_ws1 (byte c) \<Longrightarrow> trim_end (t @ [c]) = t"
  by (induction t) (auto simp: trim_start_ws)

lemma trim_token_NL: "list_all solid t \<Longrightarrow> trim (t @ [NL]) = t"
  by (cases t) (auto simp: trim_def trim_end_token_ws trim_start_ws)

lemma starts_with_iff: "starts_with s p \<longleftrightarrow> prefix p s"
  unfolding starts_with_def prefix_def by (metis append_eq_conv_conj append_take_drop_id)

lemma starts_with_append [simp]: "starts_with (p @ r) p"
  by (simp add: starts_with_def)

lemma starts_with_refl [simp]: "starts_with p p"
  by (simp add: starts_with_def)

lemma ends_with_iff: "ends_with s p \<longleftrightarrow> suffix p s"
  by (simp add: ends_with_def starts_with_iff suffix_to_prefix)

lemma contains_iff: "contains s p \<longleftrightarrow> sublist p s"
  by (induction s) (auto simp: starts_with_iff sublist_Cons_right)

lemma str_lines_Nil [simp]: "str_lines [] = []"
  by (simp add: str_lines_def)

lemma str_lines_Cons:
  "NL \<notin> set l \<Longrightarrow> l = [] \<or> last l \<noteq> CR \<Longrightarrow> str_lines (l @ NL # r) = l # str_lines r"
  by (auto simp: str_lines_def Let_def strip_cr_def)

text \<open>A text made of newline-terminated lines, as the kernel prints its tables.\<close>

definition line_ok :: "string \<Rightarrow> bool" where
  "line_ok l \<longleftrightarrow> NL \<notin> set l \<and> (l = [] \<or> last l \<noteq> CR)"

definition unlines :: "string list \<Rightarrow> string" where
  "unlines ls = concat (map (\<lambda>l. l @ [NL]) ls)"

lemma str_lines_unlines: "list_all line_ok ls \<Longrightarrow> str_lines (unlines ls) = ls"
  by (induction ls) (auto simp: unlines_def line_ok_def str_lines_Cons)

section \<open>Lemmas on numbers\<close>

lemma byte_digit_char [simp]: "d < 10 \<Longrightarrow> byte (digit_char d) = 48 + d"
  by (simp add: byte_def digit_char_def)

lemma digit_of_digit_char [simp]: "d < 10 \<Longrightarrow> digit_of (digit_char d) = Some (int d)"
  by (simp add: digit_of_def)

lemma digit_char_solid [simp]: "d < 10 \<Longrightarrow> solid (digit_char d)"
  by (simp add: solid_def ascii_ws1_def)

lemma digit_char_neq [simp]:
  "d < 10 \<Longrightarrow> digit_char d \<noteq> CHR ''+''" "d < 10 \<Longrightarrow> digit_char d \<noteq> CHR ''-''"
  using byte_digit_char [of d] by (auto simp: byte_def)

lemma parse_digits_append:
  "parse_digits pos lo hi acc (xs @ ys) =
   and_then (parse_digits pos lo hi acc xs) (\<lambda>a. parse_digits pos lo hi a ys)"
  by (induction xs arbitrary: acc) (auto simp: Let_def split: option.splits)

lemma parse_digits_show_nat:
  "lo \<le> 0 \<Longrightarrow> int n \<le> hi \<Longrightarrow> parse_digits True lo hi 0 (show_nat n) = Ok (int n)"
proof (induction n rule: show_nat.induct)
  case (1 n)
  show ?case
  proof (cases "n < 10")
    case True
    with 1 show ?thesis by (simp add: show_nat.simps [of n] Let_def)
  next
    case False
    have div: "int (n div 10) \<le> hi" using 1(3) zdiv_int[of n 10] by linarith
    have *: "int (n div 10) * 10 + int (n mod 10) = int n"
      by presburger
    with 1 False div show ?thesis
      by (simp add: show_nat.simps [of n] parse_digits_append Let_def)
  qed
qed

lemma parse_digits_show_neg:
  "lo \<le> - int n \<Longrightarrow> 0 \<le> hi \<Longrightarrow> parse_digits False lo hi 0 (show_nat n) = Ok (- int n)"
proof (induction n rule: show_nat.induct)
  case (1 n)
  show ?case
  proof (cases "n < 10")
    case True
    with 1 show ?thesis by (simp add: show_nat.simps [of n] Let_def)
  next
    case False
    have div: "lo \<le> - int (n div 10)" using 1(2) zdiv_int[of n 10] by linarith
    have *: "- int (n div 10) * 10 - int (n mod 10) = - int n"
      by presburger
    with 1 False div show ?thesis
      by (simp add: show_nat.simps [of n] parse_digits_append Let_def)
  qed
qed

lemma show_nat_ne [simp]: "show_nat n \<noteq> []"
  by (subst show_nat.simps) simp

lemma show_nat_digits: "c \<in> set (show_nat n) \<Longrightarrow> \<exists>d<10. c = digit_char d"
proof (induction n rule: show_nat.induct)
  case (1 n)
  have "\<exists>d<10. digit_char (n mod 10) = digit_char d"
    by (rule exI [of _ "n mod 10"]) simp
  with 1 show ?case by (cases "n < 10") (auto simp: show_nat.simps [of n])
qed

lemma show_nat_solid: "list_all solid (show_nat n)"
  using show_nat_digits by (fastforce simp: list_all_iff)

lemma token_show_nat [simp]: "token (show_nat n)"
  by (simp add: token_def show_nat_solid)

lemma hd_show_nat: "hd (show_nat n) \<noteq> CHR ''+''" "hd (show_nat n) \<noteq> CHR ''-''"
  using show_nat_digits [of "hd (show_nat n)" n] digit_char_neq by (metis hd_in_set show_nat_ne)+

lemma parse_int_show_nat:
  assumes "lo \<le> 0" "int n \<le> hi"
  shows "parse_int lo hi (show_nat n) = Ok (int n)"
proof -
  obtain c cs where "show_nat n = c # cs" by (cases "show_nat n") auto
  moreover with hd_show_nat [of n] have "c \<noteq> CHR ''+''" "c \<noteq> CHR ''-''" by auto
  ultimately show ?thesis
    using parse_digits_show_nat [OF assms] by (simp add: parse_int_def)
qed

lemma parse_int_show_int:
  assumes "lo \<le> i" "i \<le> hi" "lo \<le> 0" "0 \<le> hi"
  shows "parse_int lo hi (show_int i) = Ok i"
proof (cases "i < 0")
  case True
  with assms show ?thesis
    using parse_digits_show_neg [of lo "nat (- i)" hi]
    by (simp add: show_int_def parse_int_def)
next
  case False
  with assms show ?thesis by (simp add: show_int_def parse_int_show_nat)
qed

lemma parse_u64_show [simp]: "parse_u64 (show_u64 w) = Ok w"
proof -
  have "unat w < 18446744073709551616" using unsigned_less [of w] by simp
  then have "int (unat w) \<le> 18446744073709551615" by linarith
  then show ?thesis
    by (simp add: parse_u64_def show_u64_def parse_int_show_nat)
qed

lemma sint_i32_bounds: "- 2147483648 \<le> sint (w :: i32)" "sint (w :: i32) \<le> 2147483647"
  using sint_ge [of w] sint_lt [of w] by simp_all

lemma parse_i32_show [simp]: "parse_i32 (show_i32 w) = Ok w"
  using sint_i32_bounds [of w]
  by (simp add: parse_i32_def show_i32_def parse_int_show_int)

lemma token_show_u64 [simp]: "token (show_u64 w)"
  by (simp add: show_u64_def)

lemma solid_minus [simp]: "solid (CHR ''-'')"
  by (simp add: solid_def ascii_ws1_def byte_def)

lemma token_show_int [simp]: "token (show_int i)"
  using show_nat_solid by (auto simp: show_int_def token_def)

lemma token_show_i32 [simp]: "token (show_i32 w)"
  by (simp add: show_i32_def)

lemma show_i32_chars: "c \<in> set (show_i32 w) \<Longrightarrow> c = CHR ''-'' \<or> (\<exists>d<10. c = digit_char d)"
  using show_nat_digits by (auto simp: show_i32_def show_int_def split: if_splits)

lemma parse_digits_not_Panic [simp]: "parse_digits pos lo hi acc s \<noteq> Panic"
  by (induction s arbitrary: acc) (auto simp: Let_def split: option.splits)

lemma parse_int_not_Panic [simp]: "parse_int lo hi s \<noteq> Panic"
  by (auto simp: parse_int_def simp del: parse_digits.simps split: list.splits)

lemma parse_words_not_Panic [simp]:
  "parse_u64 s \<noteq> Panic" "parse_u32 s \<noteq> Panic" "parse_i64 s \<noteq> Panic" "parse_i32 s \<noteq> Panic"
  by (simp_all add: parse_u64_def parse_u32_def parse_i64_def parse_i32_def)

declare utf8_valid.simps(2) [simp del] utf8_lossy.simps(2) [simp del]

lemma utf8_valid_ascii_Cons: "byte a < 0x80 \<Longrightarrow> utf8_valid (a # r) = utf8_valid r"
  by (simp add: utf8_valid.simps(2))

lemma utf8_valid_ascii: "\<forall>c\<in>set s. byte c < 0x80 \<Longrightarrow> utf8_valid s"
  by (induction s) (auto simp: utf8_valid_ascii_Cons)

lemma utf8_valid_ascii_append: "\<forall>c\<in>set xs. byte c < 0x80 \<Longrightarrow> utf8_valid (xs @ r) = utf8_valid r"
  by (induction xs) (auto simp: utf8_valid_ascii_Cons)

lemma utf8_valid_show_nat: "utf8_valid (show_nat n @ r) = utf8_valid r"
proof (rule utf8_valid_ascii_append, rule ballI)
  fix c
  assume "c \<in> set (show_nat n)"
  then show "byte c < 0x80" using show_nat_digits [of c n] by auto
qed

lemma utf8_lossy_valid: "utf8_valid s \<Longrightarrow> utf8_lossy s = s"
proof (induction s rule: utf8_valid.induct)
  case (2 a r)
  note v = 2(5) [unfolded utf8_valid.simps(2) [of a r] Let_def]
  consider "byte a < 0x80" | "0xC2 \<le> byte a" "byte a \<le> 0xDF" | "0xE0 \<le> byte a" "byte a \<le> 0xEF"
    | "0xF0 \<le> byte a" "byte a \<le> 0xF4"
    using v by (auto split: if_splits)
  then show ?case
  proof cases
    case 1
    with 2(1) v show ?thesis by (simp add: utf8_lossy.simps(2))
  next
    case c2: 2
    with v obtain b r1 where "r = b # r1" "cont_byte (byte b)" "utf8_valid r1"
      by (auto split: list.splits)
    with c2 2(2) show ?thesis by (simp add: utf8_lossy.simps(2))
  next
    case c3: 3
    with v obtain b c r1 where "r = b # c # r1" "second_ok (byte a) (byte b)" "cont_byte (byte c)"
      "utf8_valid r1"
      by (auto simp: second_ok_def split: list.splits)
    with c3 2(3) show ?thesis by (simp add: utf8_lossy.simps(2) [of a "b # c # r1"])
  next
    case c4: 4
    with v obtain b c d r1 where "r = b # c # d # r1" "second_ok (byte a) (byte b)"
      "cont_byte (byte c)" "cont_byte (byte d)" "utf8_valid r1"
      by (auto simp: second_ok_def split: list.splits)
    with c4 2(4) show ?thesis by (simp add: utf8_lossy.simps(2) [of a "b # c # d # r1"])
  qed
qed simp

end
