(* ===== verification/Rust_Float.thy ===== *)
theory Rust_Float
  imports Complex_Main Rust_Str "HOL-Library.Log_Nat"
begin

text \<open>
  The floating point operations of Rust the sources use, as IEEE 754 defines them: a value is a
  rational number, an infinity or not a number, and every operation computes the exact result and
  rounds it to the nearest value of the format, ties to even. The two zeros of IEEE 754 compare
  equal and are one value here. \<open>f64\<close> has 53 significant bits and the least exponent -1074,
  \<open>f32\<close> has 24 and -149.

  The lemmas: integers below \<open>2 ^ 53\<close> are exact, finite arithmetic of the forms the sources
  use yields no NaN, and a printed natural number is read back as its rounded value.
\<close>

datatype fval = Fin rat | Inf bool | NaN

definition pow2 :: "int \<Rightarrow> rat" where
  "pow2 k = (if 0 \<le> k then 2 ^ nat k else 1 / 2 ^ nat (- k))"

text \<open>The binary exponent of a positive number: \<open>pow2 (exp2 q) \<le> q < pow2 (exp2 q + 1)\<close>.\<close>

definition exp2 :: "rat \<Rightarrow> int" where
  "exp2 q =
     (let (a, b) = quotient_of q;
          k = int (floorlog 2 (nat a)) - int (floorlog 2 (nat b))
      in if pow2 k \<le> q then k else k - 1)"

definition round_even :: "rat \<Rightarrow> int" where
  "round_even x =
     (let f = \<lfloor>x\<rfloor>; d = x - of_int f
      in if d < 1 / 2 then f else if 1 / 2 < d then f + 1 else if even f then f else f + 1)"

definition rnd :: "int \<Rightarrow> int \<Rightarrow> int \<Rightarrow> rat \<Rightarrow> fval" where
  "rnd p emin emax q =
     (if q = 0 then Fin 0
      else (let a = \<bar>q\<bar>;
                e = max emin (exp2 a - p + 1);
                r = of_int (round_even (a / pow2 e)) * pow2 e
            in if pow2 emax \<le> r then Inf (0 < q) else Fin (sgn q * r)))"

definition rnd64 :: "rat \<Rightarrow> fval" where
  "rnd64 = rnd 53 (- 1074) 1024"

definition rnd32 :: "rat \<Rightarrow> fval" where
  "rnd32 = rnd 24 (- 149) 128"

text \<open>Arithmetic, over the rounding function of the format.\<close>

fun f_neg :: "fval \<Rightarrow> fval" where
  "f_neg (Fin a) = Fin (- a)"
| "f_neg (Inf s) = Inf (\<not> s)"
| "f_neg NaN = NaN"

fun f_add :: "(rat \<Rightarrow> fval) \<Rightarrow> fval \<Rightarrow> fval \<Rightarrow> fval" where
  "f_add r (Fin a) (Fin b) = r (a + b)"
| "f_add r (Fin a) (Inf s) = Inf s"
| "f_add r (Inf s) (Fin b) = Inf s"
| "f_add r (Inf s) (Inf t) = (if s = t then Inf s else NaN)"
| "f_add r _ _ = NaN"

definition f_sub :: "(rat \<Rightarrow> fval) \<Rightarrow> fval \<Rightarrow> fval \<Rightarrow> fval" where
  "f_sub r x y = f_add r x (f_neg y)"

fun f_mul :: "(rat \<Rightarrow> fval) \<Rightarrow> fval \<Rightarrow> fval \<Rightarrow> fval" where
  "f_mul r (Fin a) (Fin b) = r (a * b)"
| "f_mul r (Fin a) (Inf s) = (if a = 0 then NaN else Inf ((0 < a) = s))"
| "f_mul r (Inf s) (Fin b) = (if b = 0 then NaN else Inf ((0 < b) = s))"
| "f_mul r (Inf s) (Inf t) = Inf (s = t)"
| "f_mul r _ _ = NaN"

fun f_div :: "(rat \<Rightarrow> fval) \<Rightarrow> fval \<Rightarrow> fval \<Rightarrow> fval" where
  "f_div r (Fin a) (Fin b) =
     (if b = 0 then (if a = 0 then NaN else Inf (0 < a)) else r (a / b))"
| "f_div r (Fin a) (Inf s) = Fin 0"
| "f_div r (Inf s) (Fin b) = Inf (s = (0 \<le> b))"
| "f_div r (Inf s) (Inf t) = NaN"
| "f_div r _ _ = NaN"

text \<open>IEEE equality: NaN differs from everything, itself included.\<close>

fun f_eq :: "fval \<Rightarrow> fval \<Rightarrow> bool" where
  "f_eq NaN y = False"
| "f_eq x NaN = False"
| "f_eq x y = (x = y)"

definition f64_of_u64 :: "u64 \<Rightarrow> fval" where
  "f64_of_u64 w = rnd64 (of_nat (unat w))"

definition f64_of_i64 :: "i64 \<Rightarrow> fval" where
  "f64_of_i64 w = rnd64 (of_int (sint w))"

definition f64_of_i32 :: "i32 \<Rightarrow> fval" where
  "f64_of_i32 w = rnd64 (of_int (sint w))"

definition f64_of_u32 :: "u32 \<Rightarrow> fval" where
  "f64_of_u32 w = rnd64 (of_nat (unat w))"

definition f32_of_u64 :: "u64 \<Rightarrow> fval" where
  "f32_of_u64 w = rnd32 (of_nat (unat w))"

fun f64_to_f32 :: "fval \<Rightarrow> fval" where
  "f64_to_f32 (Fin q) = rnd32 q"
| "f64_to_f32 x = x"

text \<open>
  Reading a decimal literal (\<open>f64::from_str\<close>): an optional sign, then \<open>inf\<close>, \<open>infinity\<close>,
  \<open>nan\<close> in any case, or digits with an optional point and exponent and at least one digit.
\<close>

datatype float_error_kind = FloatEmpty | FloatInvalid

definition nat_of_digits :: "string \<Rightarrow> nat" where
  "nat_of_digits = foldl (\<lambda>a c. 10 * a + (byte c - 48)) 0"

definition is_digit :: "char \<Rightarrow> bool" where
  "is_digit c \<longleftrightarrow> 48 \<le> byte c \<and> byte c \<le> 57"

definition pow10 :: "int \<Rightarrow> rat" where
  "pow10 k = (if 0 \<le> k then 10 ^ nat k else 1 / 10 ^ nat (- k))"

definition parse_exponent :: "string \<Rightarrow> int option" where
  "parse_exponent s =
     (let (neg, ds) =
        (case s of [] \<Rightarrow> (False, [])
         | c # cs \<Rightarrow> if c = CHR ''-'' then (True, cs) else if c = CHR ''+'' then (False, cs)
                     else (False, s))
      in if ds \<noteq> [] \<and> list_all is_digit ds
         then Some (if neg then - int (nat_of_digits ds) else int (nat_of_digits ds))
         else None)"

definition parse_decimal :: "string \<Rightarrow> rat option" where
  "parse_decimal s =
     (let ip = takeWhile is_digit s; r1 = dropWhile is_digit s;
          (fp, r2) = (case r1 of [] \<Rightarrow> ([], [])
             | c # cs \<Rightarrow> if c = CHR ''.'' then (takeWhile is_digit cs, dropWhile is_digit cs)
                         else ([], r1));
          m = of_nat (nat_of_digits (ip @ fp)) :: rat
      in if ip = [] \<and> fp = [] then None
         else (case r2 of
                 [] \<Rightarrow> Some (m * pow10 (- int (length fp)))
               | c # cs \<Rightarrow>
                   if c = CHR ''e'' \<or> c = CHR ''E''
                   then map_option (\<lambda>x. m * pow10 (x - int (length fp))) (parse_exponent cs)
                   else None))"

definition parse_float :: "(rat \<Rightarrow> fval) \<Rightarrow> string \<Rightarrow> (fval, float_error_kind) outcome" where
  "parse_float r s =
     (if s = [] then Err FloatEmpty
      else (let (neg, b) =
              (if hd s = CHR ''-'' then (True, tl s)
               else if hd s = CHR ''+'' then (False, tl s) else (False, s))
            in if eq_ignore_ascii_case b ''inf'' \<or> eq_ignore_ascii_case b ''infinity''
               then Ok (Inf (\<not> neg))
               else if eq_ignore_ascii_case b ''nan'' then Ok NaN
               else (case parse_decimal b of
                       None \<Rightarrow> Err FloatInvalid
                     | Some q \<Rightarrow> Ok (r (if neg then - q else q)))))"

definition parse_f64 :: "string \<Rightarrow> (fval, float_error_kind) outcome" where
  "parse_f64 = parse_float rnd64"

definition parse_f32 :: "string \<Rightarrow> (fval, float_error_kind) outcome" where
  "parse_f32 = parse_float rnd32"

section \<open>Lemmas\<close>

lemma pow2_pos [simp]: "0 < pow2 k"
  by (simp add: pow2_def)

lemma pow2_nonneg [simp]: "0 \<le> pow2 k"
  using pow2_pos [of k] by (rule less_imp_le)

lemma pow2_powr: "real_of_rat (pow2 k) = 2 powr (real_of_int k)"
  by (simp add: pow2_def powr_real_of_int of_rat_divide of_rat_power inverse_eq_divide)

lemma pow2_le_iff: "pow2 j \<le> pow2 k \<longleftrightarrow> j \<le> k"
proof -
  have "pow2 j \<le> pow2 k \<longleftrightarrow> real_of_rat (pow2 j) \<le> real_of_rat (pow2 k)"
    by (simp add: of_rat_less_eq)
  then show ?thesis by (simp add: pow2_powr)
qed

lemma pow2_less_iff: "pow2 j < pow2 k \<longleftrightarrow> j < k"
  using pow2_le_iff [of k j] by (simp add: not_le [symmetric])

lemma pow2_add: "pow2 (j + k) = pow2 j * pow2 k"
proof -
  have "real_of_rat (pow2 (j + k)) = real_of_rat (pow2 j * pow2 k)"
    by (simp add: pow2_powr powr_add of_rat_mult)
  then show ?thesis by simp
qed

lemma pow2_0 [simp]: "pow2 0 = 1"
  by (simp add: pow2_def)

lemma pow2_nat: "pow2 (int n) = 2 ^ n"
  by (simp add: pow2_def)

lemma exp2_lower:
  assumes "0 < q"
  shows "pow2 (exp2 q) \<le> q"
proof -
  obtain a b where ab: "quotient_of q = (a, b)" by force
  then have q: "q = of_int a / of_int b" and b: "0 < b"
    by (auto simp: quotient_of_div quotient_of_denom_pos)
  with assms have a: "0 < a" by (simp add: zero_less_divide_iff)
  define la lb where "la = floorlog 2 (nat a)" and "lb = floorlog 2 (nat b)"
  have la: "0 < la" using a by (simp add: la_def floorlog_def)
  have "2 ^ (la - 1) \<le> nat a" using a floorlog_bounds [of "nat a" 2] by (simp add: la_def)
  then have "rat_of_nat (2 ^ (la - 1)) \<le> rat_of_nat (nat a)" by (simp only: of_nat_le_iff)
  then have A': "(2::rat) ^ (la - 1) \<le> of_int a" using a by simp
  have "nat b < 2 ^ lb" using b floorlog_bounds [of "nat b" 2] by (simp add: lb_def)
  then have "rat_of_nat (nat b) < rat_of_nat (2 ^ lb)" by (simp only: of_nat_less_iff)
  then have B': "of_int b < (2::rat) ^ lb" using b by simp
  have "pow2 (int la - 1) = 2 ^ (la - 1)"
    using la pow2_nat [of "la - 1"] by (simp add: of_nat_diff Suc_le_eq)
  with A' have A: "pow2 (int la - 1) \<le> of_int a" by simp
  from B' have B: "of_int b < pow2 (int lb)" by (simp add: pow2_nat)
  have "pow2 (int la - int lb - 1) * of_int b \<le> pow2 (int la - int lb - 1) * pow2 (int lb)"
    using B by (intro mult_left_mono) auto
  also have "\<dots> = pow2 (int la - 1)"
    using pow2_add [of "int la - int lb - 1" "int lb"] by simp
  finally have "pow2 (int la - int lb - 1) \<le> q"
    using A b by (simp add: q le_divide_eq)
  then show ?thesis by (simp add: exp2_def ab la_def lb_def Let_def)
qed

lemma exp2_less: "0 < q \<Longrightarrow> q < pow2 k \<Longrightarrow> exp2 q < k"
  using exp2_lower [of q] pow2_less_iff [of "exp2 q" k] by simp

lemma round_even_of_int [simp]: "round_even (of_int k) = k"
  by (simp add: round_even_def)

lemma rnd_of_nat_exact:
  assumes "of_nat n < pow2 p" "emin \<le> 0" "p \<le> emax"
  shows "rnd p emin emax (of_nat n) = Fin (of_nat n)"
proof (cases "n = 0")
  case True
  then show ?thesis by (simp add: rnd_def)
next
  case False
  define e where "e = max emin (exp2 (of_nat n) - p + 1)"
  have "exp2 (of_nat n) < p" using False assms(1) by (intro exp2_less) auto
  with assms(2) have "e \<le> 0" by (simp add: e_def)
  then have *: "of_nat n / pow2 e = of_int (int n * 2 ^ nat (- e))"
    by (cases "e = 0") (auto simp: pow2_def)
  have "of_int (round_even (of_nat n / pow2 e)) * pow2 e = of_nat n / pow2 e * pow2 e"
    by (simp only: * round_even_of_int)
  then have "of_int (round_even (of_nat n / pow2 e)) * pow2 e = of_nat n"
    using pow2_pos [of e] by simp
  moreover have "\<not> pow2 emax \<le> of_nat n"
    using assms(1,3) pow2_le_iff [of p emax] by linarith
  ultimately show ?thesis using False by (simp add: rnd_def e_def)
qed

lemma rnd64_of_nat_exact: "n < 2 ^ 53 \<Longrightarrow> rnd64 (of_nat n) = Fin (of_nat n)"
  unfolding rnd64_def
  by (rule rnd_of_nat_exact) (auto simp: pow2_def simp flip: of_nat_less_iff)

lemma round_even_bounds: "of_int (round_even x) \<le> x + 1" "1 \<le> x \<Longrightarrow> 1 \<le> round_even x"
proof -
  have "of_int \<lfloor>x\<rfloor> \<le> x" by simp
  moreover have "round_even x \<le> \<lfloor>x\<rfloor> + 1" by (simp add: round_even_def Let_def)
  then have "of_int (round_even x) \<le> of_int \<lfloor>x\<rfloor> + (1 :: rat)"
    by (metis of_int_1 of_int_add of_int_le_iff)
  ultimately show "of_int (round_even x) \<le> x + 1" by linarith
  assume "1 \<le> x"
  then have "1 \<le> \<lfloor>x\<rfloor>" by (simp add: le_floor_iff)
  then show "1 \<le> round_even x" by (auto simp: round_even_def Let_def)
qed

text \<open>A 64-bit integer converts to a finite float, positive if the integer is.\<close>

lemma rnd64_nat_Fin:
  assumes "n < 2 ^ 64"
  shows "\<exists>r. rnd64 (of_nat n) = Fin r \<and> 0 \<le> r \<and> (0 < r \<longleftrightarrow> 0 < n)"
proof (cases "n = 0")
  case True
  then show ?thesis by (simp add: rnd64_def rnd_def)
next
  case False
  define a :: rat where "a = of_nat n"
  define e where "e = max (- 1074) (exp2 a - 53 + 1)"
  define r where "r = of_int (round_even (a / pow2 e)) * pow2 e"
  have a: "1 \<le> a" using False by (simp add: a_def)
  have "rat_of_nat n < rat_of_nat (2 ^ 64)" using assms by (simp only: of_nat_less_iff)
  then have a64: "a < 2 ^ 64" by (simp add: a_def)
  have "pow2 (- 1074) \<le> 1" using pow2_le_iff [of "- 1074" 0] by simp
  moreover have "pow2 (exp2 a - 53 + 1) \<le> a"
    using exp2_lower [of a] pow2_le_iff [of "exp2 a - 53 + 1" "exp2 a"] a by linarith
  ultimately have e: "pow2 e \<le> a" using a by (auto simp: e_def max_def)
  then have "1 \<le> a / pow2 e" by (simp add: le_divide_eq)
  then have "1 \<le> round_even (a / pow2 e)" by (rule round_even_bounds(2))
  then have pos: "0 < r" by (simp add: r_def)
  have "r \<le> (a / pow2 e + 1) * pow2 e"
    unfolding r_def using round_even_bounds(1) by (intro mult_right_mono) auto
  also have "\<dots> = a + pow2 e"
  proof -
    have "pow2 e \<noteq> 0" using pow2_pos [of e] by linarith
    then show ?thesis by (simp add: field_simps)
  qed
  also have "\<dots> < 2 ^ 65" using e a64 by simp
  also have "(2::rat) ^ 65 \<le> pow2 1024"
    using pow2_le_iff [of 65 1024] by (simp add: pow2_def)
  finally have "\<not> pow2 1024 \<le> r" by simp
  then have "rnd64 a = Fin r"
    using a by (simp add: rnd64_def rnd_def Let_def e_def r_def)
  with pos False show ?thesis by (auto simp: a_def)
qed

lemma rnd_not_NaN [simp]: "rnd p emin emax q \<noteq> NaN"
  by (simp add: rnd_def Let_def)

lemma rnd64_not_NaN [simp]: "rnd64 q \<noteq> NaN" and rnd32_not_NaN [simp]: "rnd32 q \<noteq> NaN"
  by (simp_all add: rnd64_def rnd32_def)

lemma f64_of_u64_not_NaN [simp]: "f64_of_u64 w \<noteq> NaN"
  by (simp add: f64_of_u64_def)

lemma f_add_NaN:
  "f_add rnd64 x y = NaN \<longleftrightarrow> x = NaN \<or> y = NaN \<or> (\<exists>s. x = Inf s \<and> y = Inf (\<not> s))"
  by (cases "(rnd64, x, y)" rule: f_add.cases) auto

lemma f_div_pos_NaN: "y = Fin b \<Longrightarrow> 0 < b \<Longrightarrow> f_div rnd64 x y = NaN \<longleftrightarrow> x = NaN"
  by (cases x) auto

lemma f64_of_u64_Fin: "\<exists>r. f64_of_u64 w = Fin r \<and> 0 \<le> r \<and> (0 < r \<longleftrightarrow> w \<noteq> 0)"
proof -
  have "unat w < 2 ^ 64" using unsigned_less [of w] by simp
  from rnd64_nat_Fin [OF this] show ?thesis by (auto simp: f64_of_u64_def unat_gt_0)
qed

lemma f_div_u64_not_NaN: "v \<noteq> 0 \<Longrightarrow> f_div rnd64 (f64_of_u64 u) (f64_of_u64 v) \<noteq> NaN"
  using f64_of_u64_Fin [of u] f64_of_u64_Fin [of v] by auto

lemma f_div_u64_not_Inf_minus:
  "v \<noteq> 0 \<Longrightarrow> f_div rnd64 (f64_of_u64 u) (f64_of_u64 v) \<noteq> Inf False"
  using f64_of_u64_Fin [of u] f64_of_u64_Fin [of v]
  by (auto simp: rnd64_def rnd_def Let_def split: if_splits)

lemma f_eq_refl: "f_eq x x \<longleftrightarrow> x \<noteq> NaN"
  by (cases x) auto

lemma parse_float_not_Panic [simp]: "parse_f64 s \<noteq> Panic" "parse_f32 s \<noteq> Panic"
  by (auto simp: parse_f64_def parse_f32_def parse_float_def Let_def split: option.splits)

lemma is_digit_digit_char [simp]: "d < 10 \<Longrightarrow> is_digit (digit_char d)"
  by (simp add: is_digit_def)

lemma show_nat_all_digits: "list_all is_digit (show_nat n)"
  using show_nat_digits by (fastforce simp: list_all_iff)

lemma nat_of_digits_snoc: "nat_of_digits (xs @ [c]) = 10 * nat_of_digits xs + (byte c - 48)"
  by (simp add: nat_of_digits_def)

lemma nat_of_digits_show [simp]: "nat_of_digits (show_nat n) = n"
proof (induction n rule: show_nat.induct)
  case (1 n)
  have [simp]: "n mod 10 < 10" by simp
  show ?case
  proof (cases "n < 10")
    case True
    then show ?thesis by (simp add: show_nat.simps [of n] nat_of_digits_def)
  next
    case False
    with 1 show ?thesis by (simp add: show_nat.simps [of n] nat_of_digits_snoc)
  qed
qed

lemma takeWhile_all: "list_all P xs \<Longrightarrow> takeWhile P xs = xs"
  and dropWhile_all: "list_all P xs \<Longrightarrow> dropWhile P xs = []"
  by (induction xs) auto

lemma parse_decimal_show: "parse_decimal (show_nat n) = Some (of_nat n)"
  by (simp add: parse_decimal_def takeWhile_all dropWhile_all show_nat_all_digits pow10_def)

lemma not_digit_word: "c \<in> set ''infatyINFATY'' \<Longrightarrow> \<not> is_digit c"
  by (auto simp: is_digit_def byte_def)

lemma digits_not_word:
  assumes "list_all is_digit b" "b \<noteq> []"
  shows "\<not> eq_ignore_ascii_case b ''inf''" "\<not> eq_ignore_ascii_case b ''infinity''"
    "\<not> eq_ignore_ascii_case b ''nan''"
proof -
  obtain c cs where b: "b = c # cs" using assms(2) by (cases b) auto
  with assms(1) have "48 \<le> byte c" "byte c \<le> 57" by (auto simp: is_digit_def)
  then have "to_ascii_lowercase c = c" "c \<noteq> CHR ''i''" "c \<noteq> CHR ''n''"
    by (auto simp: to_ascii_lowercase_def byte_def)
  with b show "\<not> eq_ignore_ascii_case b ''inf''" "\<not> eq_ignore_ascii_case b ''infinity''"
    "\<not> eq_ignore_ascii_case b ''nan''"
    by (auto simp: eq_ignore_ascii_case_def to_ascii_lowercase_def byte_def)
qed

lemma parse_f64_show_nat: "parse_f64 (show_nat n) = Ok (rnd64 (of_nat n))"
  using digits_not_word [OF show_nat_all_digits show_nat_ne, of n] hd_show_nat [of n]
  by (simp add: parse_f64_def parse_float_def parse_decimal_show)

end
