(* ===== verification/Common_Errors.thy ===== *)
theory Common_Errors
  imports Rust_Float
begin

text \<open>
  The error types of \<open>heim-common/src/errors.rs\<close>: \<open>io::Error\<close> as the sources see it, the
  crate's own \<open>Error\<close> with its optional \<open>Context\<close>, the conversions into it, the context
  modifiers and the \<open>Display\<close> implementation. The optional \<open>backtrace\<close> feature is left out.

  The theorems: every conversion keeps the error kind the sources match on, the context is the
  one of the last modifier, and the printed message always ends with the inner error.
\<close>

section \<open>The parts of std::io::Error the sources use\<close>

datatype error_kind =
    NotFound | PermissionDenied | ConnectionRefused | ConnectionReset | ConnectionAborted
  | NotConnected | AddrInUse | AddrNotAvailable | BrokenPipe | AlreadyExists | WouldBlock
  | InvalidInput | InvalidData | TimedOut | WriteZero | Interrupted | Other | UnexpectedEof

datatype nix_error = Sys i32 | InvalidPath | InvalidUtf8 | UnsupportedOperation

datatype io_payload =
    NulError | ParseIntError int_error_kind | ParseFloatError float_error_kind | NixError nix_error
  | Payload string

datatype io_error = Os i32 | Simple error_kind | Custom error_kind io_payload

text \<open>The error kind of an operating system error number on Linux.\<close>

definition decode_error_kind :: "int \<Rightarrow> error_kind" where
  "decode_error_kind n =
     (if n = 111 then ConnectionRefused
      else if n = 104 then ConnectionReset
      else if n = 1 \<or> n = 13 then PermissionDenied
      else if n = 32 then BrokenPipe
      else if n = 107 then NotConnected
      else if n = 103 then ConnectionAborted
      else if n = 99 then AddrNotAvailable
      else if n = 98 then AddrInUse
      else if n = 2 then NotFound
      else if n = 4 then Interrupted
      else if n = 22 then InvalidInput
      else if n = 110 then TimedOut
      else if n = 17 then AlreadyExists
      else if n = 11 then WouldBlock
      else Other)"

fun io_kind :: "io_error \<Rightarrow> error_kind" where
  "io_kind (Os c) = decode_error_kind (sint c)"
| "io_kind (Simple k) = k"
| "io_kind (Custom k p) = k"

fun io_raw_os_error :: "io_error \<Rightarrow> i32 option" where
  "io_raw_os_error (Os c) = Some c"
| "io_raw_os_error (Simple k) = None"
| "io_raw_os_error (Custom k p) = None"

section \<open>Error and Context\<close>

datatype err_context =
    File string
  | MissingKey string string
  | SysCtl "i32 list"
  | SysCtlByName string
  | SysConf i32
  | Ffi string
  | Message string

record heim_error =
  err_source :: io_error
  err_context :: "err_context option"

definition Error_new :: "io_error \<Rightarrow> err_context \<Rightarrow> heim_error" where
  "Error_new source context = \<lparr>err_source = source, err_context = Some context\<rparr>"

text \<open>\<open>From<io::Error>\<close>; the \<open>?\<close> operator applies it.\<close>

definition Error_from_io :: "io_error \<Rightarrow> heim_error" where
  "Error_from_io e = \<lparr>err_source = e, err_context = None\<rparr>"

definition Error_last_os_error :: "i32 \<Rightarrow> heim_error" where
  "Error_last_os_error errno = \<lparr>err_source = Os errno, err_context = None\<rparr>"

definition Error_kind :: "heim_error \<Rightarrow> error_kind" where
  "Error_kind e = io_kind (err_source e)"

definition Error_from_raw_os_error :: "i32 \<Rightarrow> heim_error" where
  "Error_from_raw_os_error code = \<lparr>err_source = Os code, err_context = None\<rparr>"

definition Error_missing_key :: "string \<Rightarrow> string \<Rightarrow> heim_error" where
  "Error_missing_key name source =
     \<lparr>err_source = Simple InvalidData, err_context = Some (MissingKey name source)\<rparr>"

definition Error_raw_os_error :: "heim_error \<Rightarrow> i32 option" where
  "Error_raw_os_error e = io_raw_os_error (err_source e)"

definition with_sysctl :: "heim_error \<Rightarrow> i32 list \<Rightarrow> heim_error" where
  "with_sysctl e name = e\<lparr>err_context := Some (SysCtl name)\<rparr>"

definition with_sysctlbyname :: "heim_error \<Rightarrow> string \<Rightarrow> heim_error" where
  "with_sysctlbyname e name = e\<lparr>err_context := Some (SysCtlByName name)\<rparr>"

definition with_sysconf :: "heim_error \<Rightarrow> i32 \<Rightarrow> heim_error" where
  "with_sysconf e name = e\<lparr>err_context := Some (SysConf name)\<rparr>"

definition with_ffi :: "heim_error \<Rightarrow> string \<Rightarrow> heim_error" where
  "with_ffi e name = e\<lparr>err_context := Some (Ffi name)\<rparr>"

definition with_file :: "heim_error \<Rightarrow> string \<Rightarrow> heim_error" where
  "with_file e path = e\<lparr>err_context := Some (File path)\<rparr>"

definition with_message :: "heim_error \<Rightarrow> string \<Rightarrow> heim_error" where
  "with_message e text = e\<lparr>err_context := Some (Message text)\<rparr>"

lemmas with_context_defs =
  with_sysctl_def with_sysctlbyname_def with_sysconf_def with_ffi_def with_file_def with_message_def

text \<open>The other conversions: all wrap an \<open>io::Error\<close> without context.\<close>

definition Error_from_nul :: heim_error where
  "Error_from_nul = Error_from_io (Custom InvalidData NulError)"

definition Error_from_parse_int :: "int_error_kind \<Rightarrow> heim_error" where
  "Error_from_parse_int e = Error_from_io (Custom InvalidData (ParseIntError e))"

definition Error_from_parse_float :: "float_error_kind \<Rightarrow> heim_error" where
  "Error_from_parse_float e = Error_from_io (Custom InvalidData (ParseFloatError e))"

fun Error_from_nix :: "nix_error \<Rightarrow> heim_error" where
  "Error_from_nix (Sys errno) = Error_from_io (Os errno)"
| "Error_from_nix InvalidPath = Error_from_io (Custom InvalidInput (NixError InvalidPath))"
| "Error_from_nix InvalidUtf8 = Error_from_io (Custom InvalidData (NixError InvalidUtf8))"
| "Error_from_nix UnsupportedOperation =
     Error_from_io (Custom Other (NixError UnsupportedOperation))"

section \<open>Display\<close>

text \<open>\<open>{:?}\<close> of a vector of integers and of a \<open>CString\<close> (\<open>ascii::escape_default\<close>).\<close>

definition debug_i32_list :: "i32 list \<Rightarrow> string" where
  "debug_i32_list xs = ''['' @ join_with '', '' (map show_i32 xs) @ '']''"

definition hex_digit :: "nat \<Rightarrow> char" where
  "hex_digit n = (if n < 10 then char_of (48 + n) else char_of (87 + n))"

definition escape_byte :: "char \<Rightarrow> string" where
  "escape_byte c =
     (if c = TAB then [CHR 0x5C, CHR ''t'']
      else if c = CR then [CHR 0x5C, CHR ''r'']
      else if c = NL then [CHR 0x5C, CHR ''n'']
      else if c = CHR 0x27 \<or> c = CHR 0x22 \<or> c = CHR 0x5C then [CHR 0x5C, c]
      else if 0x20 \<le> byte c \<and> byte c \<le> 0x7E then [c]
      else [CHR 0x5C, CHR ''x'', hex_digit (byte c div 16), hex_digit (byte c mod 16)])"

abbreviation DQ :: string where "DQ \<equiv> [CHR 0x22]"

definition debug_cstring :: "string \<Rightarrow> string" where
  "debug_cstring s = DQ @ concat (map escape_byte s) @ DQ"

text \<open>The inner error's own \<open>Display\<close> is a parameter: its text is the platform's.\<close>

definition context_text :: "err_context \<Rightarrow> string" where
  "context_text c =
     (case c of
        SysCtl name \<Rightarrow> ''sysctl '' @ DQ @ debug_i32_list name @ DQ @ '' failed''
      | SysCtlByName name \<Rightarrow> ''sysctlbyname '' @ DQ @ debug_cstring name @ DQ @ '' failed''
      | SysConf name \<Rightarrow> ''sysconf '' @ DQ @ show_i32 name @ DQ @ '' failed''
      | MissingKey name source \<Rightarrow>
          if length source > 0
          then ''Unable to find required key '' @ DQ @ name @ DQ @ '' in '' @ DQ @ source @ DQ
          else ''Unable to find required key '' @ DQ @ name @ DQ
      | File path \<Rightarrow> ''Unable to parse '' @ DQ @ utf8_lossy path @ DQ @ '', unsupported format''
      | Message text \<Rightarrow> text
      | Ffi func \<Rightarrow> ''FFI function '' @ DQ @ func @ DQ @ '' call failed'')"

definition Error_fmt :: "(io_error \<Rightarrow> string) \<Rightarrow> heim_error \<Rightarrow> string" where
  "Error_fmt io_display e =
     (case err_context e of
        None \<Rightarrow> io_display (err_source e)
      | Some c \<Rightarrow> context_text c @ '': '' @ io_display (err_source e))"

section \<open>Properties\<close>

lemma with_context_source [simp]:
  "err_source (with_sysctl e n) = err_source e"
  "err_source (with_sysctlbyname e s) = err_source e"
  "err_source (with_sysconf e m) = err_source e"
  "err_source (with_ffi e s) = err_source e"
  "err_source (with_file e s) = err_source e"
  "err_source (with_message e s) = err_source e"
  by (simp_all add: with_context_defs)

lemma Error_kind_simps [simp]:
  "Error_kind (Error_from_io e) = io_kind e"
  "Error_kind (Error_new e c) = io_kind e"
  "Error_kind (Error_missing_key n s) = InvalidData"
  "Error_kind (Error_from_parse_int pe) = InvalidData"
  "Error_kind (Error_from_parse_float fe) = InvalidData"
  "Error_kind Error_from_nul = InvalidData"
  by (simp_all add: Error_kind_def Error_from_io_def Error_new_def Error_missing_key_def
      Error_from_parse_int_def Error_from_parse_float_def Error_from_nul_def)

lemma Error_kind_with [simp]:
  "Error_kind (with_sysctl e n) = Error_kind e"
  "Error_kind (with_sysctlbyname e s) = Error_kind e"
  "Error_kind (with_sysconf e m) = Error_kind e"
  "Error_kind (with_ffi e s) = Error_kind e"
  "Error_kind (with_file e s) = Error_kind e"
  "Error_kind (with_message e s) = Error_kind e"
  by (simp_all add: Error_kind_def)

lemma Error_from_nix_kind:
  "Error_kind (Error_from_nix e) =
     (case e of Sys c \<Rightarrow> decode_error_kind (sint c) | InvalidPath \<Rightarrow> InvalidInput
      | InvalidUtf8 \<Rightarrow> InvalidData | UnsupportedOperation \<Rightarrow> Other)"
  by (cases e) simp_all

lemma Error_fmt_suffix: "ends_with (Error_fmt io_display e) (io_display (err_source e))"
  by (auto simp: Error_fmt_def ends_with_iff suffix_def split: option.splits)

end
