(* ===== verification/Common_Iter.thy ===== *)
theory Common_Iter
  imports Common_Errors
begin

text \<open>
  The iterator extensions of \<open>heim-common/src/utils/iter.rs\<close>. An iterator is the list of the
  items it has left; the methods return the item and the iterator that is left.

  The locale \<open>from_str_type\<close> is the contract the table parsers rely on: a type whose printed
  form is one token that parses back. Its lemmas read the printed fields of a line; it is
  interpreted for the integer types the kernel tables use.
\<close>

definition try_next :: "'a list \<Rightarrow> ('a \<times> 'a list, heim_error) outcome" where
  "try_next it =
     (case it of
        [] \<Rightarrow> Err (Error_from_io (Simple InvalidData))
      | x # rest \<Rightarrow> Ok (x, rest))"

definition try_from_next ::
    "('a \<Rightarrow> ('b, heim_error) outcome) \<Rightarrow> 'a list \<Rightarrow> ('b \<times> 'a list, heim_error) outcome" where
  "try_from_next try_from it =
     and_then (try_next it) (\<lambda>(value, rest). map_ok (\<lambda>r. (r, rest)) (try_from value))"

definition try_parse_next ::
    "(string \<Rightarrow> ('b, heim_error) outcome) \<Rightarrow> string list \<Rightarrow> ('b \<times> string list, heim_error) outcome"
  where
  "try_parse_next from_str it =
     and_then (try_next it) (\<lambda>(value, rest). map_ok (\<lambda>r. (r, rest)) (from_str value))"

text \<open>\<open>FromStr\<close> of the integer and float types, with the error converted as \<open>map_err(Into::into)\<close> does.\<close>

definition from_str_u64 :: "string \<Rightarrow> (u64, heim_error) outcome" where
  "from_str_u64 s = map_err Error_from_parse_int (parse_u64 s)"

definition from_str_u32 :: "string \<Rightarrow> (u32, heim_error) outcome" where
  "from_str_u32 s = map_err Error_from_parse_int (parse_u32 s)"

definition from_str_i64 :: "string \<Rightarrow> (i64, heim_error) outcome" where
  "from_str_i64 s = map_err Error_from_parse_int (parse_i64 s)"

definition from_str_i32 :: "string \<Rightarrow> (i32, heim_error) outcome" where
  "from_str_i32 s = map_err Error_from_parse_int (parse_i32 s)"

definition from_str_f64 :: "string \<Rightarrow> (fval, heim_error) outcome" where
  "from_str_f64 s = map_err Error_from_parse_float (parse_f64 s)"

definition show_u32 :: "u32 \<Rightarrow> string" where
  "show_u32 w = show_nat (unat w)"

definition show_i64 :: "i64 \<Rightarrow> string" where
  "show_i64 w = show_int (sint w)"

text \<open>Reading a run of fields of the same type.\<close>

fun parse_fields ::
    "(string \<Rightarrow> ('b, heim_error) outcome) \<Rightarrow> nat \<Rightarrow> string list \<Rightarrow> ('b list \<times> string list, heim_error) outcome"
  where
  "parse_fields from_str 0 it = Ok ([], it)"
| "parse_fields from_str (Suc n) it =
     and_then (try_parse_next from_str it) (\<lambda>(x, rest).
       map_ok (\<lambda>(xs, rest'). (x # xs, rest')) (parse_fields from_str n rest))"

section \<open>Properties\<close>

lemma try_next_simps [simp]:
  "try_next (x # it) = Ok (x, it)"
  "try_next [] = Err (Error_from_io (Simple InvalidData))"
  by (simp_all add: try_next_def)

lemma try_parse_next_simps [simp]:
  "try_parse_next f (s # it) = map_ok (\<lambda>r. (r, it)) (f s)"
  "try_parse_next f [] = Err (Error_from_io (Simple InvalidData))"
  by (simp_all add: try_parse_next_def)

lemma from_str_not_Panic [simp]:
  "from_str_u64 s \<noteq> Panic" "from_str_u32 s \<noteq> Panic" "from_str_i64 s \<noteq> Panic"
  "from_str_i32 s \<noteq> Panic" "from_str_f64 s \<noteq> Panic"
  by (simp_all add: from_str_u64_def from_str_u32_def from_str_i64_def from_str_i32_def
      from_str_f64_def)

text \<open>A failing read never gives a value: both ways to fail carry the kind \<open>InvalidData\<close>.\<close>

lemma try_parse_next_u64_kind:
  "try_parse_next from_str_u64 it = Err e \<Longrightarrow> Error_kind e = InvalidData"
  by (cases it) (auto simp: from_str_u64_def)

locale from_str_type =
  fixes from_str :: "string \<Rightarrow> ('a, heim_error) outcome"
    and show_val :: "'a \<Rightarrow> string"
  assumes from_str_show: "from_str (show_val x) = Ok x"
    and show_token: "token (show_val x)"
begin

lemma try_parse_show [simp]: "try_parse_next from_str (show_val x # it) = Ok (x, it)"
  by (simp add: from_str_show)

lemma parse_fields_show:
  "parse_fields from_str (length xs) (map show_val xs @ it) = Ok (xs, it)"
  by (induction xs) (simp_all add: from_str_show)

lemma parse_fields_short:
  "length it < n \<Longrightarrow> list_all (\<lambda>t. \<exists>x. from_str t = Ok x) it \<Longrightarrow>
   parse_fields from_str n it = Err (Error_from_io (Simple InvalidData))"
proof (induction n arbitrary: it)
  case 0
  then show ?case by simp
next
  case (Suc n)
  then show ?case by (cases it) auto
qed

lemma split_shown_line:
  "split_whitespace (join_with [SP] (map show_val xs)) = map show_val xs"
  by (rule split_whitespace_join) (simp add: list_all_iff show_token)

lemma show_inject: "show_val x = show_val y \<longleftrightarrow> x = y"
  by (metis from_str_show outcome.inject(1))

end

interpretation u64_str: from_str_type from_str_u64 show_u64
  by unfold_locales (simp_all add: from_str_u64_def)

interpretation i32_str: from_str_type from_str_i32 show_i32
  by unfold_locales (simp_all add: from_str_i32_def)

lemma parse_u32_show: "parse_u32 (show_u32 w) = Ok w"
proof -
  have "unat w < 4294967296" using unsigned_less [of w] by simp
  then have "int (unat w) \<le> 4294967295" by linarith
  then show ?thesis by (simp add: parse_u32_def show_u32_def parse_int_show_nat)
qed

interpretation u32_str: from_str_type from_str_u32 show_u32
  by unfold_locales (simp_all add: from_str_u32_def parse_u32_show, simp add: show_u32_def)

lemma parse_i64_show: "parse_i64 (show_i64 w) = Ok w"
  using sint_ge [of w] sint_lt [of w]
  by (simp add: parse_i64_def show_i64_def parse_int_show_int)

interpretation i64_str: from_str_type from_str_i64 show_i64
  by unfold_locales (simp_all add: from_str_i64_def parse_i64_show, simp add: show_i64_def)

end
