(* ===== verification/Common_Stream.thy ===== *)
theory Common_Stream
  imports Common_Errors
begin

text \<open>
  Polled streams. A stream is a state and a poll function that returns \<open>Pending\<close> or
  \<open>Ready\<close> with the next item, if any, and the next state. This theory models
  \<open>ChooseChain\<close> of \<open>heim-common/src/utils/stream/choose_chain.rs\<close> and \<open>Interval\<close> of
  \<open>heim-runtime/src/time.rs\<close>.

  The locale \<open>poll_stream\<close> is the contract of a stream with finitely many items that is not
  pending forever: the items left, and a bound on the polls left. Its lemma says that polling in a
  loop collects exactly the items. The locale \<open>chained_streams\<close> shows that chaining two
  such streams gives such a stream again; both are interpreted on scripted streams, which cover every
  finite behaviour, and on \<open>ChooseChain\<close> itself.
\<close>

datatype 'a poll = Pending | Ready 'a

type_synonym ('s, 'a) poll_fun = "'s \<Rightarrow> 'a option poll \<times> 's"

text \<open>Polling up to \<open>n\<close> times until the stream ends; \<open>None\<close> if it has not ended by then.\<close>

fun collect :: "('s, 'a) poll_fun \<Rightarrow> nat \<Rightarrow> 's \<Rightarrow> 'a list option" where
  "collect poll 0 s = None"
| "collect poll (Suc n) s =
     (case poll s of
        (Pending, s') \<Rightarrow> collect poll n s'
      | (Ready (Some x), s') \<Rightarrow> map_option (Cons x) (collect poll n s')
      | (Ready None, s') \<Rightarrow> Some [])"

text \<open>The state after \<open>n\<close> polls.\<close>

definition polled :: "('s, 'a) poll_fun \<Rightarrow> nat \<Rightarrow> 's \<Rightarrow> 's" where
  "polled poll n s = ((snd \<circ> poll) ^^ n) s"

section \<open>ChooseChain\<close>

record ('s1, 's2) choose_chain =
  cc_first :: "'s1 option"
  cc_first_yielded :: bool
  cc_second :: 's2

definition ChooseChain_new :: "'s1 \<Rightarrow> 's2 \<Rightarrow> ('s1, 's2) choose_chain" where
  "ChooseChain_new stream1 stream2 =
     \<lparr>cc_first = Some stream1, cc_first_yielded = False, cc_second = stream2\<rparr>"

definition ChooseChain_is_terminated ::
    "('s2 \<Rightarrow> bool) \<Rightarrow> ('s1, 's2) choose_chain \<Rightarrow> bool" where
  "ChooseChain_is_terminated second_terminated c \<longleftrightarrow>
     cc_first c = None \<and> second_terminated (cc_second c)"

text \<open>The part of \<open>poll_next\<close> after the \<open>if let\<close>: the first stream is dropped.\<close>

definition ChooseChain_poll_second ::
    "('s2, 'a) poll_fun \<Rightarrow> (('s1, 's2) choose_chain, 'a) poll_fun" where
  "ChooseChain_poll_second poll2 c =
     (let c1 = c\<lparr>cc_first := None\<rparr>
      in if cc_first_yielded c1 then (Ready None, c1)
         else (case poll2 (cc_second c1) of (r, s2) \<Rightarrow> (r, c1\<lparr>cc_second := s2\<rparr>)))"

definition ChooseChain_poll_next ::
    "('s1, 'a) poll_fun \<Rightarrow> ('s2, 'a) poll_fun \<Rightarrow> (('s1, 's2) choose_chain, 'a) poll_fun" where
  "ChooseChain_poll_next poll1 poll2 c =
     (case cc_first c of
        Some first \<Rightarrow>
          (case poll1 first of
             (Pending, s1) \<Rightarrow> (Pending, c\<lparr>cc_first := Some s1\<rparr>)
           | (Ready (Some item), s1) \<Rightarrow>
               (Ready (Some item), c\<lparr>cc_first := Some s1, cc_first_yielded := True\<rparr>)
           | (Ready None, s1) \<Rightarrow> ChooseChain_poll_second poll2 (c\<lparr>cc_first := Some s1\<rparr>))
      | None \<Rightarrow> ChooseChain_poll_second poll2 c)"

section \<open>Interval\<close>

text \<open>
  The timer is code of another crate: \<open>delay_poll\<close> says whether it has fired and \<open>delay_reset\<close>
  starts it again.
\<close>

record 'd interval =
  iv_interval :: nat
  iv_delay :: 'd

definition interval_start :: "(nat \<Rightarrow> 'd) \<Rightarrow> nat \<Rightarrow> 'd interval" where
  "interval_start delay_new duration = \<lparr>iv_interval = duration, iv_delay = delay_new duration\<rparr>"

definition Interval_poll_next ::
    "('d \<Rightarrow> bool \<times> 'd) \<Rightarrow> ('d \<Rightarrow> nat \<Rightarrow> 'd) \<Rightarrow> ('d interval, unit) poll_fun" where
  "Interval_poll_next delay_poll delay_reset iv =
     (case delay_poll (iv_delay iv) of
        (False, d) \<Rightarrow> (Pending, iv\<lparr>iv_delay := d\<rparr>)
      | (True, d) \<Rightarrow> (Ready (Some ()), iv\<lparr>iv_delay := delay_reset d (iv_interval iv)\<rparr>))"

section \<open>Scripted streams\<close>

text \<open>
  A stream that plays a list of events. It need not be fused: events may follow the end, so a poll
  after the end would be visible.
\<close>

datatype 'a event = Wait | Item 'a | End

fun script_poll :: "('a event list, 'a) poll_fun" where
  "script_poll [] = (Ready None, [])"
| "script_poll (Wait # es) = (Pending, es)"
| "script_poll (Item x # es) = (Ready (Some x), es)"
| "script_poll (End # es) = (Ready None, es)"

fun script_items :: "'a event list \<Rightarrow> 'a list" where
  "script_items [] = []"
| "script_items (Wait # es) = script_items es"
| "script_items (Item x # es) = x # script_items es"
| "script_items (End # es) = []"

section \<open>The stream contract\<close>

locale poll_stream =
  fixes poll :: "('s, 'a) poll_fun"
    and items :: "'s \<Rightarrow> 'a list"
    and cost :: "'s \<Rightarrow> nat"
  assumes poll_item: "poll s = (Ready (Some x), s') \<Longrightarrow> items s = x # items s' \<and> cost s' < cost s"
    and poll_pending: "poll s = (Pending, s') \<Longrightarrow> items s' = items s \<and> cost s' < cost s"
    and poll_done: "poll s = (Ready None, s') \<Longrightarrow> items s = []"
begin

lemma collect_items: "cost s < n \<Longrightarrow> collect poll n s = Some (items s)"
proof (induction n arbitrary: s)
  case 0
  then show ?case by simp
next
  case (Suc n)
  obtain r s' where p: "poll s = (r, s')" by force
  consider "r = Pending" | x where "r = Ready (Some x)" | "r = Ready None"
    by (cases r) auto
  then show ?case
  proof cases
    case 1
    with p poll_pending [of s s'] Suc show ?thesis by simp
  next
    case (2 x)
    with p poll_item [of s x s'] Suc show ?thesis by simp
  next
    case 3
    with p poll_done [of s s'] show ?thesis by simp
  qed
qed

lemma collect_mono: "collect poll n s = Some xs \<Longrightarrow> collect poll (Suc n) s = Some xs"
proof (induction n arbitrary: s xs)
  case (Suc n)
  obtain r s' where p: "poll s = (r, s')" by force
  with Suc show ?case
    by (cases r) (auto split: option.splits simp del: collect.simps(2)
        simp: collect.simps(2) [of poll n s] collect.simps(2) [of poll "Suc n" s])
qed simp

end

interpretation script: poll_stream script_poll script_items length
proof
  fix s s' :: "'a event list" and x
  show "script_poll s = (Ready (Some x), s') \<Longrightarrow> script_items s = x # script_items s' \<and> length s' < length s"
    by (cases s rule: script_poll.cases) auto
  show "script_poll s = (Pending, s') \<Longrightarrow> script_items s' = script_items s \<and> length s' < length s"
    by (cases s rule: script_poll.cases) auto
  show "script_poll s = (Ready None, s') \<Longrightarrow> script_items s = []"
    by (cases s rule: script_poll.cases) auto
qed

text \<open>What is left in a chain of two streams, and a bound on the polls.\<close>

definition chain_items ::
    "('s1 \<Rightarrow> 'a list) \<Rightarrow> ('s2 \<Rightarrow> 'a list) \<Rightarrow> ('s1, 's2) choose_chain \<Rightarrow> 'a list" where
  "chain_items items1 items2 c =
     (case cc_first c of
        None \<Rightarrow> if cc_first_yielded c then [] else items2 (cc_second c)
      | Some s1 \<Rightarrow>
          if cc_first_yielded c \<or> items1 s1 \<noteq> [] then items1 s1 else items2 (cc_second c))"

definition chain_cost ::
    "('s1 \<Rightarrow> nat) \<Rightarrow> ('s2 \<Rightarrow> nat) \<Rightarrow> ('s1, 's2) choose_chain \<Rightarrow> nat" where
  "chain_cost cost1 cost2 c =
     (case cc_first c of None \<Rightarrow> 0 | Some s1 \<Rightarrow> Suc (cost1 s1)) + cost2 (cc_second c)"

locale chained_streams =
  A: poll_stream poll1 items1 cost1 + B: poll_stream poll2 items2 cost2
  for poll1 :: "('s1, 'a) poll_fun" and items1 cost1
    and poll2 :: "('s2, 'a) poll_fun" and items2 cost2
begin

lemma chain_poll_cases:
  assumes "ChooseChain_poll_next poll1 poll2 c = (r, c')"
  obtains (first_pending) s1 s1' where "cc_first c = Some s1" "poll1 s1 = (Pending, s1')"
      "r = Pending" "c' = c\<lparr>cc_first := Some s1'\<rparr>"
  | (first_item) s1 s1' x where "cc_first c = Some s1" "poll1 s1 = (Ready (Some x), s1')"
      "r = Ready (Some x)" "c' = c\<lparr>cc_first := Some s1', cc_first_yielded := True\<rparr>"
  | (chain_done) "cc_first_yielded c" "r = Ready None" "\<And>s1. cc_first c = Some s1 \<Longrightarrow> items1 s1 = []"
  | (second) s2' where "\<not> cc_first_yielded c" "poll2 (cc_second c) = (r, s2')"
      "\<And>s1. cc_first c = Some s1 \<Longrightarrow> items1 s1 = []"
      "c' = c\<lparr>cc_first := None, cc_second := s2'\<rparr>"
proof (cases "cc_first c")
  case None
  with assms show ?thesis
    by (cases "cc_first_yielded c")
       (auto simp: ChooseChain_poll_next_def ChooseChain_poll_second_def Let_def split: prod.splits
         intro: chain_done second)
next
  case (Some s1)
  obtain r1 s1' where p: "poll1 s1 = (r1, s1')" by force
  consider "r1 = Pending" | x where "r1 = Ready (Some x)" | "r1 = Ready None"
    by (cases r1) auto
  then show ?thesis
  proof cases
    case 1
    with Some p assms show ?thesis
      by (intro first_pending [of s1 s1']) (auto simp: ChooseChain_poll_next_def)
  next
    case (2 x)
    with Some p assms show ?thesis
      by (intro first_item [of s1 x s1']) (auto simp: ChooseChain_poll_next_def)
  next
    case 3
    with p have "items1 s1 = []" by (auto dest: A.poll_done)
    with 3 Some p assms show ?thesis
      by (cases "cc_first_yielded c")
         (auto simp: ChooseChain_poll_next_def ChooseChain_poll_second_def Let_def split: prod.splits
           intro: chain_done second)
  qed
qed

lemma chain_is_stream:
  "poll_stream (ChooseChain_poll_next poll1 poll2) (chain_items items1 items2) (chain_cost cost1 cost2)"
proof
  fix c c' x
  assume "ChooseChain_poll_next poll1 poll2 c = (Ready (Some x), c')"
  then show "chain_items items1 items2 c = x # chain_items items1 items2 c' \<and>
      chain_cost cost1 cost2 c' < chain_cost cost1 cost2 c"
    by (cases rule: chain_poll_cases)
       (auto simp: chain_items_def chain_cost_def split: option.splits
         dest!: A.poll_item B.poll_item)
next
  fix c c'
  assume "ChooseChain_poll_next poll1 poll2 c = (Pending, c')"
  then show "chain_items items1 items2 c' = chain_items items1 items2 c \<and>
      chain_cost cost1 cost2 c' < chain_cost cost1 cost2 c"
    by (cases rule: chain_poll_cases)
       (auto simp: chain_items_def chain_cost_def split: option.splits
         dest!: A.poll_pending B.poll_pending)
next
  fix c c'
  assume "ChooseChain_poll_next poll1 poll2 c = (Ready None, c')"
  then show "chain_items items1 items2 c = []"
    by (cases rule: chain_poll_cases)
       (auto simp: chain_items_def split: option.splits dest!: B.poll_done)
qed

text \<open>While the first stream has something to say, the second one is never touched.\<close>

definition second_untouched :: "'s2 \<Rightarrow> ('s1, 's2) choose_chain \<Rightarrow> bool" where
  "second_untouched s2 c \<longleftrightarrow> cc_second c = s2 \<and>
     (cc_first_yielded c \<or> (\<exists>s1. cc_first c = Some s1 \<and> items1 s1 \<noteq> []))"

lemma second_untouched_step:
  assumes "second_untouched s2 c"
  shows "second_untouched s2 (snd (ChooseChain_poll_next poll1 poll2 c))"
proof (cases "cc_first c")
  case None
  with assms show ?thesis
    by (auto simp: second_untouched_def ChooseChain_poll_next_def ChooseChain_poll_second_def Let_def)
next
  case (Some s1)
  obtain r1 s1' where p: "poll1 s1 = (r1, s1')" by force
  with Some assms show ?thesis
    by (cases r1)
       (auto simp: second_untouched_def ChooseChain_poll_next_def ChooseChain_poll_second_def Let_def
         split: option.splits dest: A.poll_pending A.poll_done)
qed

lemma second_untouched_polled:
  "second_untouched s2 c \<Longrightarrow> second_untouched s2 (polled (ChooseChain_poll_next poll1 poll2) n c)"
  by (induction n) (auto simp: polled_def intro: second_untouched_step)

lemma second_never_polled:
  assumes "items1 s1 \<noteq> []"
  shows "cc_second (polled (ChooseChain_poll_next poll1 poll2) n (ChooseChain_new s1 s2)) = s2"
proof -
  have "second_untouched s2 (ChooseChain_new s1 s2)"
    using assms by (simp add: second_untouched_def ChooseChain_new_def)
  then show ?thesis using second_untouched_polled by (auto simp: second_untouched_def)
qed

end

interpretation script_chain: chained_streams script_poll script_items length
    script_poll script_items length
  by unfold_locales

interpretation chain: poll_stream "ChooseChain_poll_next script_poll script_poll"
    "chain_items script_items script_items" "chain_cost length length"
  by (rule script_chain.chain_is_stream)

section \<open>Properties\<close>

text \<open>
  (C6) Collecting a \<open>ChooseChain\<close> of two streams, whatever the order of their pending and
  ready polls and whether or not they are fused: the loop ends, and the items are those of the first
  stream if it has any, and those of the second stream otherwise.
\<close>

theorem ChooseChain_collect:
  assumes "Suc (length s1 + length s2) < n"
  shows "collect (ChooseChain_poll_next script_poll script_poll) n (ChooseChain_new s1 s2) =
    Some (if script_items s1 \<noteq> [] then script_items s1 else script_items s2)"
  using chain.collect_items [of "ChooseChain_new s1 s2" n] assms
  by (simp add: chain_cost_def chain_items_def ChooseChain_new_def)

theorem ChooseChain_collect_witness:
  "collect (ChooseChain_poll_next script_poll script_poll) 9
     (ChooseChain_new [Wait, Item (1::int), Wait, Item 2, End] [Item 7, Item 8]) = Some [1, 2] \<and>
   collect (ChooseChain_poll_next script_poll script_poll) 9
     (ChooseChain_new [Wait, End, Item (1::int)] [Item 7, Wait, Item 8]) = Some [7, 8]"
  using ChooseChain_collect [of "[Wait, Item (1::int), Wait, Item 2, End]" "[Item 7, Item 8]" 9]
    ChooseChain_collect [of "[Wait, End, Item (1::int)]" "[Item 7, Wait, Item 8]" 9]
  by simp

text \<open>
  When the first stream has an item, no number of polls of the chain, before or after its
  end, ever polls the second stream.
\<close>

theorem ChooseChain_second_unpolled:
  assumes "script_items s1 \<noteq> []"
  shows "cc_second (polled (ChooseChain_poll_next script_poll script_poll) n (ChooseChain_new s1 s2))
    = s2"
  by (rule script_chain.second_never_polled [OF assms])

theorem ChooseChain_second_unpolled_witness:
  "cc_second (polled (ChooseChain_poll_next script_poll script_poll) 5
     (ChooseChain_new [Wait, Item (1::int), End] [Item 7])) = [Item 7]"
  by (rule ChooseChain_second_unpolled) simp

lemma Interval_poll_interval:
  "iv_interval (snd (Interval_poll_next delay_poll delay_reset iv)) = iv_interval iv"
  by (simp add: Interval_poll_next_def split: prod.splits bool.splits)

lemma Interval_polled_interval:
  "iv_interval (polled (Interval_poll_next delay_poll delay_reset) n iv) = iv_interval iv"
  by (induction n) (simp_all add: polled_def Interval_poll_interval)

text \<open>
  An interval ticks forever: after any number of polls, with any timer, the next poll is
  pending exactly when the timer has not fired, it is never the end of the stream, and when it ticks
  the timer is started again with the duration the interval was made with.
\<close>

theorem Interval_never_ends:
  fixes delay_poll delay_reset delay_new duration n
  defines "iv \<equiv> polled (Interval_poll_next delay_poll delay_reset) n (interval_start delay_new duration)"
  shows "Interval_poll_next delay_poll delay_reset iv =
    (if fst (delay_poll (iv_delay iv))
     then (Ready (Some ()),
       \<lparr>iv_interval = duration, iv_delay = delay_reset (snd (delay_poll (iv_delay iv))) duration\<rparr>)
     else (Pending, \<lparr>iv_interval = duration, iv_delay = snd (delay_poll (iv_delay iv))\<rparr>))"
proof -
  have "iv_interval iv = duration"
    by (simp add: iv_def Interval_polled_interval interval_start_def)
  then show ?thesis
    by (cases iv) (auto simp: Interval_poll_next_def split: prod.splits bool.splits)
qed

end
