(* ===== verification/Runtime.thy ===== *)
theory Runtime
  imports Common_Iter Common_Stream
begin

text \<open>
  The host a component runs on, and \<open>heim-runtime\<close>: file access (\<open>src/fs.rs\<close>) and the
  configurable procfs and sysfs roots (\<open>src/linux.rs\<close>), with \<open>clock_ticks\<close> of
  \<open>heim-common/src/sys/unix.rs\<close>.

  The operating system and the crates outside the repository (\<open>libc\<close>, \<open>uom\<close>, \<open>glob\<close>) are
  the record \<open>host\<close>, an argument of every definition that talks to them: what a file holds, what a
  directory lists, what a system call returns. A call that can fail gives a value of
  \<open>io_error + 'a\<close>. The quantities of \<open>uom\<close> are their underlying numbers (64-bit integers for
  information and frequency, 64-bit floats for time, 32-bit floats for ratios and temperatures), with
  the arithmetic of those; the conversions to and from a unit are fields of the host. \<open>Time_new\<close> and
  \<open>Time_get\<close> are those of seconds, \<open>Information_get\<close> that of bytes, \<open>Frequency_new\<close> that of
  kilohertz, \<open>Temperature_new\<close> that of degrees Celsius. Streams are lists of results, in the order they are yielded; a failed item does
  not end a stream.
\<close>

type_synonym path = string

datatype info_unit = Byte | Kilobyte

record host =
  overflow_checks :: bool
  last_errno :: i32
  sysconf_val :: "i32 \<Rightarrow> i64"
  SC_CLK_TCK :: i32
  SC_NPROCESSORS_ONLN :: i32
  SC_PAGESIZE :: i32
  file_data :: "path \<Rightarrow> io_error + bytes"
  link_target :: "path \<Rightarrow> io_error + path"
  dir_entries :: "path \<Rightarrow> io_error + (io_error + string) list"
  path_present :: "path \<Rightarrow> bool"
  glob_paths :: "string \<Rightarrow> (io_error + path) list option"
  Information_new :: "info_unit \<Rightarrow> u64 \<Rightarrow> u64"
  Information_get :: "u64 \<Rightarrow> u64"
  Frequency_new :: "u64 \<Rightarrow> u64"
  Time_new :: "fval \<Rightarrow> fval"
  Time_get :: "fval \<Rightarrow> fval"
  Ratio_new :: "fval \<Rightarrow> fval"
  Temperature_new :: "fval \<Rightarrow> fval"
  procfs :: path
  sysfs :: path

text \<open>
  A host with an empty file system, the default roots and the usual Linux constants: the
  concrete instance the examples start from.
\<close>

definition sample_host :: host where
  "sample_host =
     \<lparr>overflow_checks = True, last_errno = 0,
      sysconf_val = (\<lambda>n. if n = 2 then 100 else if n = 84 then 4 else if n = 30 then 4096 else -1),
      SC_CLK_TCK = 2, SC_NPROCESSORS_ONLN = 84, SC_PAGESIZE = 30,
      file_data = (\<lambda>_. Inl (Os 2)), link_target = (\<lambda>_. Inl (Os 2)),
      dir_entries = (\<lambda>_. Inl (Os 2)), path_present = (\<lambda>_. False), glob_paths = (\<lambda>_. Some []),
      Information_new = (\<lambda>u v. case u of Byte \<Rightarrow> v | Kilobyte \<Rightarrow> 1000 * v),
      Information_get = (\<lambda>v. v), Frequency_new = (\<lambda>v. 1000 * v), Time_new = (\<lambda>v. v),
      Time_get = (\<lambda>v. v), Ratio_new = (\<lambda>v. v), Temperature_new = (\<lambda>v. v),
      procfs = ''/proc'', sysfs = ''/sys''\<rparr>"

text \<open>The \<open>?\<close> operator on an \<open>io::Result\<close>.\<close>

fun of_io :: "io_error + 'a \<Rightarrow> ('a, heim_error) outcome" where
  "of_io (Inl e) = Err (Error_from_io e)"
| "of_io (Inr x) = Ok x"

lemma of_io_not_Panic [simp]: "of_io r \<noteq> Panic"
  by (cases r) auto

lemma of_io_eq_Ok [simp]: "of_io r = Ok x \<longleftrightarrow> r = Inr x"
  by (cases r) auto

section \<open>Paths\<close>

text \<open>\<open>Path::join\<close>: an absolute second path replaces the first.\<close>

definition join_path :: "path \<Rightarrow> path \<Rightarrow> path" where
  "join_path a b =
     (if starts_with b ''/'' then b
      else if a = [] \<or> last a = CHR ''/'' then a @ b
      else a @ ''/'' @ b)"

text \<open>
  \<open>{:?}\<close> of a path: in quotes, with quotes, backslashes and control characters escaped. Every other
  character is taken to be printable.
\<close>

definition path_debug :: "path \<Rightarrow> string" where
  "path_debug p = DQ @ concat (map (\<lambda>c.
     if c = CHR 0x22 \<or> c = CHR 0x5C then [CHR 0x5C, c]
     else if c = TAB then [CHR 0x5C, CHR ''t'']
     else if c = CR then [CHR 0x5C, CHR ''r'']
     else if c = NL then [CHR 0x5C, CHR ''n'']
     else if c = NUL then [CHR 0x5C, CHR ''0'']
     else if byte c < 0x20 \<or> byte c = 0x7F
     then CHR 0x5C # ''u{'' @ (if byte c < 16 then [hex_digit (byte c)]
       else [hex_digit (byte c div 16), hex_digit (byte c mod 16)]) @ ''}''
     else [c]) (utf8_lossy p)) @ DQ"

section \<open>Files\<close>

definition utf8_checked :: "bytes \<Rightarrow> io_error + string" where
  "utf8_checked b = (if utf8_valid b then Inr b else Inl (Simple InvalidData))"

definition read_to_string :: "'h host_scheme \<Rightarrow> path \<Rightarrow> io_error + string" where
  "read_to_string h p = (case file_data h p of Inl e \<Rightarrow> Inl e | Inr b \<Rightarrow> utf8_checked b)"

definition read_into ::
    "'h host_scheme \<Rightarrow> (string \<Rightarrow> ('a, heim_error) outcome) \<Rightarrow> path \<Rightarrow> ('a, heim_error) outcome" where
  "read_into h from_str p = and_then (of_io (read_to_string h p)) from_str"

definition read_lines :: "'h host_scheme \<Rightarrow> path \<Rightarrow> io_error + (io_error + string) list" where
  "read_lines h p =
     (case file_data h p of Inl e \<Rightarrow> Inl e | Inr b \<Rightarrow> Inr (map utf8_checked (str_lines b)))"

definition read_lines_into ::
    "'h host_scheme \<Rightarrow> (string \<Rightarrow> ('a, heim_error) outcome) \<Rightarrow> path
      \<Rightarrow> (('a, heim_error) outcome list, heim_error) outcome" where
  "read_lines_into h from_str p =
     map_ok (map (\<lambda>line. and_then (of_io line) from_str)) (of_io (read_lines h p))"

definition read_first_line :: "'h host_scheme \<Rightarrow> path \<Rightarrow> io_error + string" where
  "read_first_line h p =
     (case read_lines h p of
        Inl e \<Rightarrow> Inl e
      | Inr [] \<Rightarrow> Inl (Simple InvalidData)
      | Inr (line # _) \<Rightarrow> line)"

section \<open>The once-only roots\<close>

text \<open>The two \<open>OnceCell\<close>s; \<open>get_or_init\<close> writes only an empty cell.\<close>

record roots =
  PROCFS_ROOT :: "path option"
  SYSFS_ROOT :: "path option"

definition get_or_init :: "'a option \<Rightarrow> 'a \<Rightarrow> 'a" where
  "get_or_init cell v = (case cell of None \<Rightarrow> v | Some w \<Rightarrow> w)"

definition set_procfs_root :: "path \<Rightarrow> roots \<Rightarrow> roots" where
  "set_procfs_root p r = r\<lparr>PROCFS_ROOT := Some (get_or_init (PROCFS_ROOT r) p)\<rparr>"

definition procfs_root :: "roots \<Rightarrow> path \<times> roots" where
  "procfs_root r =
     (let v = get_or_init (PROCFS_ROOT r) ''/proc'' in (v, r\<lparr>PROCFS_ROOT := Some v\<rparr>))"

definition set_sysfs_root :: "path \<Rightarrow> roots \<Rightarrow> roots" where
  "set_sysfs_root p r = r\<lparr>SYSFS_ROOT := Some (get_or_init (SYSFS_ROOT r) p)\<rparr>"

definition sysfs_root :: "roots \<Rightarrow> path \<times> roots" where
  "sysfs_root r =
     (let v = get_or_init (SYSFS_ROOT r) ''/sys'' in (v, r\<lparr>SYSFS_ROOT := Some v\<rparr>))"

datatype root_op = SetProcfs path | GetProcfs | SetSysfs path | GetSysfs

fun root_step :: "roots \<Rightarrow> root_op \<Rightarrow> roots" where
  "root_step r (SetProcfs p) = set_procfs_root p r"
| "root_step r GetProcfs = snd (procfs_root r)"
| "root_step r (SetSysfs p) = set_sysfs_root p r"
| "root_step r GetSysfs = snd (sysfs_root r)"

section \<open>Clock ticks\<close>

definition clock_ticks :: "'h host_scheme \<Rightarrow> (u64, heim_error) outcome" where
  "clock_ticks h =
     (let result = sysconf_val h (SC_CLK_TCK h)
      in if 0 < sint result then Ok result
         else Err (with_sysconf (Error_last_os_error (last_errno h)) (SC_CLK_TCK h)))"

text \<open>The lazy static: \<open>expect\<close> on the result.\<close>

definition CLOCK_TICKS :: "'h host_scheme \<Rightarrow> (u64, heim_error) outcome" where
  "CLOCK_TICKS h = (case clock_ticks h of Ok t \<Rightarrow> Ok t | _ \<Rightarrow> Panic)"

section \<open>Properties\<close>

lemma read_into_Ok:
  "read_into h f p = Ok x \<longleftrightarrow> (\<exists>s. file_data h p = Inr s \<and> utf8_valid s \<and> f s = Ok x)"
  by (auto simp: read_into_def read_to_string_def utf8_checked_def split: sum.splits if_splits)

lemma read_to_string_Inr:
  "read_to_string h p = Inr s \<longleftrightarrow> file_data h p = Inr s \<and> utf8_valid s"
  by (auto simp: read_to_string_def utf8_checked_def split: sum.splits if_splits)

lemma utf8_checked_ok: "utf8_valid s \<Longrightarrow> utf8_checked s = Inr s"
  by (simp add: utf8_checked_def)

lemma length_read_lines:
  "file_data h p = Inr b \<Longrightarrow> \<exists>ls. read_lines h p = Inr ls \<and> length ls = length (str_lines b)"
  by (simp add: read_lines_def)

lemma clock_ticks_pos: "clock_ticks h = Ok t \<Longrightarrow> 0 < sint t \<and> 0 < unat t"
proof -
  assume "clock_ticks h = Ok t"
  then have s: "0 < sint t" by (auto simp: clock_ticks_def Let_def split: if_splits)
  then have "t \<noteq> 0" by auto
  then have "0 < unat t" by (simp add: unat_gt_0)
  with s show ?thesis by simp
qed

text \<open>
  What an operation puts into an empty cell. The value a cell was first given, by a set or by a read, is
  the value it keeps, whatever is done to either of them afterwards.
\<close>

fun procfs_init :: "root_op \<Rightarrow> path option" where
  "procfs_init (SetProcfs p) = Some p"
| "procfs_init GetProcfs = Some ''/proc''"
| "procfs_init _ = None"

fun sysfs_init :: "root_op \<Rightarrow> path option" where
  "sysfs_init (SetSysfs p) = Some p"
| "sysfs_init GetSysfs = Some ''/sys''"
| "sysfs_init _ = None"

definition first_init :: "path option \<Rightarrow> (root_op \<Rightarrow> path option) \<Rightarrow> root_op list \<Rightarrow> path option" where
  "first_init cell init ops =
     (case cell of Some v \<Rightarrow> Some v | None \<Rightarrow>
        (case List.map_filter init ops of [] \<Rightarrow> None | v # _ \<Rightarrow> Some v))"

lemma root_step_cells:
  "PROCFS_ROOT (root_step r op) = first_init (PROCFS_ROOT r) procfs_init [op]"
  "SYSFS_ROOT (root_step r op) = first_init (SYSFS_ROOT r) sysfs_init [op]"
proof -
  note root_step_defs = first_init_def set_procfs_root_def procfs_root_def set_sysfs_root_def sysfs_root_def
    get_or_init_def map_filter_simps Let_def
  show "PROCFS_ROOT (root_step r op) = first_init (PROCFS_ROOT r) procfs_init [op]"
    by (cases op; cases "PROCFS_ROOT r"; cases "SYSFS_ROOT r"; simp add: root_step_defs)
  show "SYSFS_ROOT (root_step r op) = first_init (SYSFS_ROOT r) sysfs_init [op]"
    by (cases op; cases "PROCFS_ROOT r"; cases "SYSFS_ROOT r"; simp add: root_step_defs)
qed

lemma first_init_Cons: "first_init (first_init cell init [op]) init ops = first_init cell init (op # ops)"
  by (auto simp: first_init_def List.map_filter_def split: option.splits)

lemma first_init_Nil: "first_init cell init [] = cell"
  by (auto simp: first_init_def List.map_filter_def split: option.splits)

lemma foldl_root_step_cells:
  "PROCFS_ROOT (foldl root_step r ops) = first_init (PROCFS_ROOT r) procfs_init ops"
  "SYSFS_ROOT (foldl root_step r ops) = first_init (SYSFS_ROOT r) sysfs_init ops"
  by (induction ops arbitrary: r) (simp_all add: first_init_Nil root_step_cells first_init_Cons)

text \<open>
  (C37) The roots of procfs and sysfs, after any sequence of operations on both of them and from any state: each
  root is what it was if it was set before, and otherwise what the first operation on this very root gives
  it, which is the argument of a set, or the default if the first operation is a read; without such an operation it
  stays empty. Operations on the other root do not matter. A read returns that value, or the default.
\<close>

theorem roots_set_once:
  "PROCFS_ROOT (foldl root_step r ops) = first_init (PROCFS_ROOT r) procfs_init ops \<and>
   SYSFS_ROOT (foldl root_step r ops) = first_init (SYSFS_ROOT r) sysfs_init ops \<and>
   fst (procfs_root (foldl root_step r ops)) =
     (case first_init (PROCFS_ROOT r) procfs_init ops of None \<Rightarrow> ''/proc'' | Some v \<Rightarrow> v) \<and>
   fst (sysfs_root (foldl root_step r ops)) =
     (case first_init (SYSFS_ROOT r) sysfs_init ops of None \<Rightarrow> ''/sys'' | Some v \<Rightarrow> v)"
  by (simp add: foldl_root_step_cells procfs_root_def sysfs_root_def get_or_init_def Let_def)

theorem roots_set_once_witness:
  "fst (procfs_root (foldl root_step \<lparr>PROCFS_ROOT = None, SYSFS_ROOT = None\<rparr>
     [SetSysfs ''/s'', SetProcfs ''/p'', GetSysfs, SetProcfs ''/q'', GetProcfs])) = ''/p'' \<and>
   fst (sysfs_root (foldl root_step \<lparr>PROCFS_ROOT = None, SYSFS_ROOT = None\<rparr>
     [SetProcfs ''/p'', GetSysfs, SetSysfs ''/q''])) = ''/sys''"
  using roots_set_once [of "\<lparr>PROCFS_ROOT = None, SYSFS_ROOT = None\<rparr>"
      "[SetSysfs ''/s'', SetProcfs ''/p'', GetSysfs, SetProcfs ''/q'', GetProcfs]"]
    roots_set_once [of "\<lparr>PROCFS_ROOT = None, SYSFS_ROOT = None\<rparr>" "[SetProcfs ''/p'', GetSysfs, SetSysfs ''/q'']"]
  by (simp add: first_init_def List.map_filter_def)

end
