(* ===== verification/Keyed_Table.thy ===== *)
theory Keyed_Table
  imports Runtime
begin

text \<open>
  The interface of the line scanners. Five parsers of the repository walk over the lines of a
  kernel table, recognise a key at the start of a line, store the number that follows in a field
  of a record, and some stop early once they have seen enough keys. The locale \<open>keyed_scan\<close>
  states that shape: what the scanner does on a line with a wanted key, on any other line, and
  at the end of the text. Its lemmas give the result on a whole table; each parser's theory
  interprets it on its own loop.
\<close>

definition apply_entry :: "('e \<Rightarrow> string) \<Rightarrow> (string \<Rightarrow> ('e \<Rightarrow> 'r \<Rightarrow> 'r) option) \<Rightarrow> 'r \<Rightarrow> 'e \<Rightarrow> 'r" where
  "apply_entry key setter r e = (case setter (key e) of None \<Rightarrow> r | Some f \<Rightarrow> f e r)"

definition hits :: "('e \<Rightarrow> string) \<Rightarrow> (string \<Rightarrow> 'f option) \<Rightarrow> 'e list \<Rightarrow> nat" where
  "hits key setter es = length (filter (\<lambda>e. setter (key e) \<noteq> None) es)"

lemma hits_simps [simp]:
  "hits key setter [] = 0"
  "hits key setter (e # es) =
     (if setter (key e) = None then hits key setter es else Suc (hits key setter es))"
  by (simp_all add: hits_def)

lemma apply_no_hits: "hits key setter es = 0 \<Longrightarrow> foldl (apply_entry key setter) r es = r"
  by (induction es) (auto simp: apply_entry_def split: if_splits)

text \<open>
  Reading a field back. \<open>get k\<close> reads what the setter of \<open>k\<close> writes from \<open>val\<close>; with each key
  at most once, the field holds the value of its entry.
\<close>

lemma entry_get:
  assumes get_set: "\<And>e f r. setter (key e) = Some f \<Longrightarrow>
      get (f e r) = (if key e = k then val e else get r)"
    and "distinct (map key es)" "e \<in> set es" "key e = k" "setter k \<noteq> None"
  shows "get (foldl (apply_entry key setter) r es) = val e"
proof -
  have keep: "get (foldl (apply_entry key setter) r es) = get r" if "k \<notin> key ` set es" for r es
    using that
    by (induction es arbitrary: r) (auto simp: apply_entry_def get_set split: option.splits)
  from assms(2,3) obtain xs ys where es: "es = xs @ e # ys" "key e \<notin> key ` set ys"
    by (auto dest: split_list simp: in_set_conv_decomp)
  then show ?thesis
    using assms(4,5) get_set keep by (auto simp: apply_entry_def split: option.splits)
qed

lemma hits_filter: "hits key setter es = length (filter (\<lambda>k. setter k \<noteq> None) (map key es))"
  by (simp add: hits_def filter_map comp_def)

text \<open>With distinct keys, the number of hits counts the wanted keys that are present.\<close>

lemma hits_card:
  assumes "\<And>k. setter k \<noteq> None \<longleftrightarrow> k \<in> set ks" "distinct (map key es)"
  shows "hits key setter es = card (set ks \<inter> key ` set es)"
proof -
  have "distinct (filter (\<lambda>k. setter k \<noteq> None) (map key es))"
    using assms(2) by (rule distinct_filter)
  then have "hits key setter es = card (set (filter (\<lambda>k. setter k \<noteq> None) (map key es)))"
    by (simp only: hits_filter distinct_card)
  also have "set (filter (\<lambda>k. setter k \<noteq> None) (map key es)) = set ks \<inter> key ` set es"
    using assms(1) by auto
  finally show ?thesis .
qed

lemma hits_complete:
  assumes "\<And>k. setter k \<noteq> None \<longleftrightarrow> k \<in> set ks" "distinct ks" "distinct (map key es)"
    "set ks \<subseteq> key ` set es"
  shows "hits key setter es = length ks"
  using hits_card [OF assms(1,3)] assms(2,4) by (simp add: Int_absorb2 distinct_card)

lemma hits_incomplete:
  assumes "\<And>k. setter k \<noteq> None \<longleftrightarrow> k \<in> set ks" "distinct ks" "distinct (map key es)"
    "\<not> set ks \<subseteq> key ` set es"
  shows "hits key setter es < length ks"
proof -
  have "set ks \<inter> key ` set es \<subset> set ks" using assms(4) by blast
  then have "card (set ks \<inter> key ` set es) < card (set ks)" by (simp add: psubset_card_mono)
  with hits_card [OF assms(1,3)] assms(2) show ?thesis by (simp add: distinct_card)
qed

lemma entry_get_absent:
  assumes get_set: "\<And>e f r. setter (key e) = Some f \<Longrightarrow>
      get (f e r) = (if key e = k then val e else get r)"
    and "k \<notin> key ` set es"
  shows "get (foldl (apply_entry key setter) r es) = get r"
  using assms(2)
  by (induction es arbitrary: r) (auto simp: apply_entry_def get_set split: option.splits)

text \<open>The same for entries that are pairs of a key and a value, keys that are absent included.\<close>

lemma pair_entry_get:
  assumes get_set: "\<And>e f r. setter (fst e) = Some f \<Longrightarrow>
      get (f e r) = (if fst e = k then val (snd e) else get r)"
    and "distinct (map fst es)" "setter k \<noteq> None"
  shows "get (foldl (apply_entry fst setter) r es) =
    (case map_of es k of None \<Rightarrow> get r | Some v \<Rightarrow> val v)"
proof (cases "map_of es k")
  case None
  then have "k \<notin> fst ` set es" by (simp add: map_of_eq_None_iff)
  then have "get (foldl (apply_entry fst setter) r es) = get r"
    by (intro entry_get_absent [where val = "\<lambda>e. val (snd e)"]) (use get_set in auto)
  with None show ?thesis by simp
next
  case (Some v)
  then have "(k, v) \<in> set es" by (rule map_of_SomeD)
  then have "get (foldl (apply_entry fst setter) r es) = val (snd (k, v))"
    by (intro entry_get [where val = "\<lambda>e. val (snd e)" and k = k]) (use get_set assms in auto)
  with Some show ?thesis by simp
qed

locale keyed_scan =
  fixes scan :: "string list \<Rightarrow> 'r \<Rightarrow> nat \<Rightarrow> ('r, heim_error) outcome"
    and render :: "'e \<Rightarrow> string"
    and key :: "'e \<Rightarrow> string"
    and good :: "'e \<Rightarrow> bool"
    and setter :: "string \<Rightarrow> ('e \<Rightarrow> 'r \<Rightarrow> 'r) option"
    and stop :: "nat \<Rightarrow> bool"
    and finish :: "'r \<Rightarrow> ('r, heim_error) outcome"
  assumes scan_hit: "good e \<Longrightarrow> setter (key e) = Some f \<Longrightarrow>
      scan (render e # ls) r n = (if stop (Suc n) then Ok (f e r) else scan ls (f e r) (Suc n))"
    and scan_miss: "good e \<Longrightarrow> setter (key e) = None \<Longrightarrow> scan (render e # ls) r n = scan ls r n"
    and scan_end: "scan [] r n = finish r"
begin

text \<open>A scanner that stops at its last wanted key returns what the whole table holds.\<close>

lemma scan_stops:
  assumes "list_all good es" "0 < hits key setter es" "stop (n + hits key setter es)"
    "\<forall>i. n < i \<and> i < n + hits key setter es \<longrightarrow> \<not> stop i"
  shows "scan (map render es) r n = Ok (foldl (apply_entry key setter) r es)"
  using assms
proof (induction es arbitrary: r n)
  case Nil
  then show ?case by simp
next
  case (Cons e es)
  show ?case
  proof (cases "setter (key e)")
    case None
    with Cons show ?thesis by (simp add: scan_miss apply_entry_def)
  next
    case (Some f)
    show ?thesis
    proof (cases "hits key setter es = 0")
      case True
      with Some Cons.prems have "stop (Suc n)" by simp
      with Some Cons.prems True show ?thesis
        by (simp add: scan_hit apply_no_hits) (simp add: apply_entry_def)
    next
      case False
      with Some Cons.prems have "\<not> stop (Suc n)"
        and "\<forall>i. Suc n < i \<and> i < Suc n + hits key setter es \<longrightarrow> \<not> stop i" by auto
      with Cons Some False show ?thesis by (simp add: scan_hit apply_entry_def)
    qed
  qed
qed

text \<open>What follows entries that do not stop the scanner is scanned from the record they built.\<close>

lemma scan_prefix:
  assumes "list_all good es" "\<forall>i. n < i \<and> i \<le> n + hits key setter es \<longrightarrow> \<not> stop i"
  shows "scan (map render es @ ls) r n =
    scan ls (foldl (apply_entry key setter) r es) (n + hits key setter es)"
  using assms
proof (induction es arbitrary: r n)
  case Nil
  then show ?case by simp
next
  case (Cons e es)
  show ?case
  proof (cases "setter (key e)")
    case None
    with Cons show ?thesis by (simp add: scan_miss apply_entry_def)
  next
    case (Some f)
    with Cons.prems(2) have "\<not> stop (Suc n)"
      and "\<forall>i. Suc n < i \<and> i \<le> Suc n + hits key setter es \<longrightarrow> \<not> stop i" by auto
    with Cons Some show ?thesis by (simp add: scan_hit apply_entry_def)
  qed
qed

lemma scan_all:
  assumes "list_all good es" "\<forall>i. n < i \<and> i \<le> n + hits key setter es \<longrightarrow> \<not> stop i"
  shows "scan (map render es) r n = finish (foldl (apply_entry key setter) r es)"
  using scan_prefix [OF assms, of "[]"] by (simp add: scan_end)

text \<open>
  A scanner that wants the keys \<open>ks\<close>, each at most once in the table, and stops when it has seen
  as many keys as \<open>ks\<close> has: it succeeds exactly on the tables that have them all.
\<close>

lemma scan_counted:
  assumes "list_all good es" "distinct (map key es)" "distinct ks" "ks \<noteq> []"
    "\<And>k. setter k \<noteq> None \<longleftrightarrow> k \<in> set ks" "\<And>n. stop n \<longleftrightarrow> n = length ks"
  shows "scan (map render es) r 0 =
    (if set ks \<subseteq> key ` set es then Ok (foldl (apply_entry key setter) r es)
     else finish (foldl (apply_entry key setter) r es))"
proof (cases "set ks \<subseteq> key ` set es")
  case True
  have "hits key setter es = length ks"
    by (rule hits_complete [OF assms(5,3,2) True])
  with True assms(4,6) scan_stops [OF assms(1), of 0 r] show ?thesis by simp
next
  case False
  have "hits key setter es < length ks"
    by (rule hits_incomplete [OF assms(5,3,2) False])
  with False assms(6) scan_all [OF assms(1), of 0 r] show ?thesis by simp
qed

end

text \<open>
  A table line as the kernel prints it: the key, a colon, padding, a number and a unit.
\<close>

record kv_line =
  kv_key :: string
  kv_pad :: nat
  kv_val :: u64
  kv_tail :: string

definition render_kv :: "kv_line \<Rightarrow> string" where
  "render_kv e = kv_key e @ '':'' @ replicate (kv_pad e) SP @ show_u64 (kv_val e) @ kv_tail e"

definition kv_lookup :: "kv_line list \<Rightarrow> string \<Rightarrow> u64" where
  "kv_lookup es k = (case find (\<lambda>e. kv_key e = k) es of None \<Rightarrow> 0 | Some e \<Rightarrow> kv_val e)"

text \<open>With distinct keys, the field that belongs to a wanted key holds the key's value.\<close>

lemma kv_entry_get:
  assumes get_set: "\<And>e f r. setter (kv_key e) = Some f \<Longrightarrow>
      get (f e r) = (if kv_key e = k then val (kv_val e) else get r)"
    and d: "distinct (map kv_key es)" and "k \<in> kv_key ` set es" "setter k \<noteq> None"
  shows "get (foldl (apply_entry kv_key setter) r es) = val (kv_lookup es k)"
proof -
  from assms(3) obtain e where e: "find (\<lambda>e. kv_key e = k) es = Some e"
    by (metis (mono_tags, lifting) find_None_iff image_iff not_Some_eq)
  then have "e \<in> set es" "kv_key e = k" by (auto simp: find_Some_iff)
  then have "get (foldl (apply_entry kv_key setter) r es) = val (kv_val e)"
    by (intro entry_get [where get = get and val = "\<lambda>e. val (kv_val e)" and k = k])
       (use get_set d assms(4) in auto)
  with e show ?thesis by (simp add: kv_lookup_def)
qed

text \<open>
  A good line: at least two bytes before the colon, no colon or line break in the key, and
  the unit separated by a space.
\<close>

definition good_kv :: "kv_line \<Rightarrow> bool" where
  "good_kv e \<longleftrightarrow> 2 \<le> length (kv_key e) \<and> CHR '':'' \<notin> set (kv_key e) \<and> NL \<notin> set (kv_key e)
     \<and> (kv_tail e = [] \<or> hd (kv_tail e) = SP) \<and> NL \<notin> set (kv_tail e)
     \<and> (kv_tail e = [] \<or> last (kv_tail e) \<noteq> CR)"

lemma trim_start_pad: "token t \<Longrightarrow> trim_start (replicate n SP @ t @ r) = t @ r"
proof (induction n)
  case 0
  then show ?case by (cases t) (auto simp: token_def)
next
  case (Suc n)
  then show ?case by (simp add: trim_start_ws)
qed

lemma token_no_SP: "token t \<Longrightarrow> SP \<notin> set t"
  by (auto simp: token_def list_all_iff solid_def)

lemma token_no_NL: "token t \<Longrightarrow> NL \<notin> set t"
  by (auto simp: token_def list_all_iff solid_def)

lemma token_last: "token t \<Longrightarrow> last t \<noteq> CR"
proof -
  assume t: "token t"
  then have "solid (last t)" by (simp add: token_def list_all_iff)
  then show ?thesis by (auto simp: solid_def)
qed

lemma line_ok_token: "token t \<Longrightarrow> line_ok t"
  by (simp add: line_ok_def token_no_NL token_last)

lemma last_join_with:
  "ts \<noteq> [] \<Longrightarrow> last ts \<noteq> [] \<Longrightarrow> join_with sep ts \<noteq> [] \<and> last (join_with sep ts) = last (last ts)"
  by (induction sep ts rule: join_with.induct) auto

lemma set_join_with_SP: "x \<in> set (join_with [SP] ts) \<Longrightarrow> x = SP \<or> (\<exists>t\<in>set ts. x \<in> set t)"
  by (induction "[SP]" ts rule: join_with.induct) auto

lemma line_ok_join_tokens:
  assumes "list_all token ts" "ts \<noteq> []"
  shows "line_ok (join_with [SP] ts)"
proof -
  have "token (last ts)" using assms by (simp add: list_all_iff)
  then have "last (join_with [SP] ts) \<noteq> CR"
    using last_join_with [OF assms(2), of "[SP]"] token_last by (metis token_def)
  moreover have "NL \<notin> set (join_with [SP] ts)"
    using assms(1) set_join_with_SP token_no_NL by (fastforce simp: list_all_iff)
  ultimately show ?thesis by (simp add: line_ok_def)
qed

lemma splitn_SP_token: "token t \<Longrightarrow> r = [] \<or> hd r = SP \<Longrightarrow> \<exists>rest. splitn 2 SP (t @ r) = t # rest"
  by (cases r) (auto simp: token_no_SP)

lemma line_ok_render_kv: "good_kv e \<Longrightarrow> line_ok (render_kv e)"
proof -
  assume g: "good_kv e"
  have "last (render_kv e) \<noteq> CR"
  proof (cases "kv_tail e = []")
    case True
    have "last (show_u64 (kv_val e)) \<noteq> CR" by (simp add: token_last)
    with True token_show_u64 [of "kv_val e"] show ?thesis
      by (simp add: render_kv_def token_def)
  next
    case False
    with g show ?thesis by (simp add: render_kv_def good_kv_def)
  qed
  moreover have "NL \<notin> set (render_kv e)"
    using g token_no_NL [OF token_show_u64, of "kv_val e"]
    by (auto simp: render_kv_def good_kv_def)
  ultimately show ?thesis by (simp add: line_ok_def)
qed

lemma str_lines_render_kv:
  "list_all good_kv es \<Longrightarrow> str_lines (unlines (map render_kv es)) = map render_kv es"
  by (rule str_lines_unlines) (auto simp: list_all_iff line_ok_render_kv)

lemma splitn_colon_render_kv:
  "good_kv e \<Longrightarrow> splitn 2 (CHR '':'') (render_kv e) =
     [kv_key e, replicate (kv_pad e) SP @ show_u64 (kv_val e) @ kv_tail e]"
  by (simp add: render_kv_def good_kv_def)

end
