(* ===== verification/Memory_Linux.thy ===== *)
theory Memory_Linux
  imports Keyed_Table
begin

text \<open>
  \<open>heim-memory\<close> on Linux: \<open>sys/linux/memory.rs\<close>, \<open>sys/linux/swap.rs\<close> and the extension
  trait of \<open>os/linux.rs\<close>. \<open>Information\<close> values are their 64-bit amounts; \<open>Information::new\<close> is the
  host's \<open>Information_new\<close>.

  The theorems: \<open>/proc/meminfo\<close> is read correctly whatever the order of its lines and whatever
  other keys it has, a table that lacks a key is an error that names the file, \<open>used\<close> is exact
  when the parts do not exceed the total and underflows when they do.
\<close>

section \<open>Memory\<close>

record memory =
  mem_total :: u64
  mem_free :: u64
  mem_available :: u64
  mem_buffers :: u64
  mem_cached :: u64
  mem_active :: u64
  mem_inactive :: u64
  mem_shared :: u64

definition Memory_default :: memory where
  "Memory_default =
     \<lparr>mem_total = 0, mem_free = 0, mem_available = 0, mem_buffers = 0,
      mem_cached = 0, mem_active = 0, mem_inactive = 0, mem_shared = 0\<rparr>"

text \<open>The \<open>match\<close> on the key: which field it names.\<close>

definition Memory_field :: "string \<Rightarrow> (u64 \<Rightarrow> memory \<Rightarrow> memory) option" where
  "Memory_field name =
     (if name = ''MemTotal'' then Some (\<lambda>v m. m\<lparr>mem_total := v\<rparr>)
      else if name = ''MemFree'' then Some (\<lambda>v m. m\<lparr>mem_free := v\<rparr>)
      else if name = ''MemAvailable'' then Some (\<lambda>v m. m\<lparr>mem_available := v\<rparr>)
      else if name = ''Buffers'' then Some (\<lambda>v m. m\<lparr>mem_buffers := v\<rparr>)
      else if name = ''Cached'' then Some (\<lambda>v m. m\<lparr>mem_cached := v\<rparr>)
      else if name = ''Active'' then Some (\<lambda>v m. m\<lparr>mem_active := v\<rparr>)
      else if name = ''Inactive'' then Some (\<lambda>v m. m\<lparr>mem_inactive := v\<rparr>)
      else if name = ''Shmem'' then Some (\<lambda>v m. m\<lparr>mem_shared := v\<rparr>)
      else None)"

text \<open>The number after the colon: \<open>value.trim_start().splitn(2, ' ').next()\<close>.\<close>

definition first_word :: "string \<Rightarrow> string option" where
  "first_word value = (case splitn 2 SP (trim_start value) of [] \<Rightarrow> None | w # _ \<Rightarrow> Some w)"

definition meminfo_error :: "'h host_scheme \<Rightarrow> heim_error" where
  "meminfo_error h =
     with_file (Error_from_io (Simple InvalidData)) (join_path (procfs h) ''meminfo'')"

text \<open>The loop over the lines; the counter cannot wrap, since it never exceeds eight.\<close>

fun Memory_scan :: "'h host_scheme \<Rightarrow> string list \<Rightarrow> memory \<Rightarrow> nat \<Rightarrow> (memory, heim_error) outcome"
  where
  "Memory_scan h [] memory matched_lines = Err (meminfo_error h)"
| "Memory_scan h (line # lines) memory matched_lines =
     and_then (byte_slice line 0 2) (\<lambda>first_bytes.
       if first_bytes \<notin> {''Me'', ''Ac'', ''In'', ''Bu'', ''Ca'', ''Sh''}
       then Memory_scan h lines memory matched_lines
       else (case splitn 2 (CHR '':'') line of
           [] \<Rightarrow> Memory_scan h lines memory matched_lines
         | name # parts \<Rightarrow>
             (case Memory_field name of
                None \<Rightarrow> Memory_scan h lines memory matched_lines
              | Some field \<Rightarrow>
                  (case parts of
                     [] \<Rightarrow> Memory_scan h lines memory matched_lines
                   | value # _ \<Rightarrow>
                       (case first_word value of
                          None \<Rightarrow> Memory_scan h lines memory matched_lines
                        | Some kbytes \<Rightarrow>
                            and_then (from_str_u64 kbytes) (\<lambda>v.
                              let memory' = field (Information_new h Kilobyte v) memory
                              in if Suc matched_lines = 8 then Ok memory'
                                 else Memory_scan h lines memory' (Suc matched_lines)))))))"

definition Memory_from_str :: "'h host_scheme \<Rightarrow> string \<Rightarrow> (memory, heim_error) outcome" where
  "Memory_from_str h meminfo = Memory_scan h (str_lines meminfo) Memory_default 0"

definition memory_get :: "'h host_scheme \<Rightarrow> (memory, heim_error) outcome" where
  "memory_get h = read_into h (Memory_from_str h) (join_path (procfs h) ''meminfo'')"

section \<open>The extension trait\<close>

definition MemoryExt_used :: "'h host_scheme \<Rightarrow> memory \<Rightarrow> (u64, heim_error) outcome" where
  "MemoryExt_used h m =
     and_then (u64_sub (overflow_checks h) (mem_total m) (mem_free m)) (\<lambda>a.
     and_then (u64_sub (overflow_checks h) a (mem_cached m)) (\<lambda>b.
     and_then (u64_sub (overflow_checks h) b (mem_buffers m)) (\<lambda>used.
       if used \<le> Information_new h Byte 0
       then u64_sub (overflow_checks h) (mem_total m) (mem_free m)
       else Ok used)))"

section \<open>Swap\<close>

record vm_stat =
  swap_in :: "u64 option"
  swap_out :: "u64 option"

definition VmStat_default :: vm_stat where
  "VmStat_default = \<lparr>swap_in = None, swap_out = None\<rparr>"

definition VmStat_field :: "string \<Rightarrow> (u64 \<Rightarrow> vm_stat \<Rightarrow> vm_stat) option" where
  "VmStat_field name =
     (if name = ''pswpin'' then Some (\<lambda>v s. s\<lparr>swap_in := Some v\<rparr>)
      else if name = ''pswpout'' then Some (\<lambda>v s. s\<lparr>swap_out := Some v\<rparr>)
      else None)"

fun VmStat_scan :: "'h host_scheme \<Rightarrow> string list \<Rightarrow> vm_stat \<Rightarrow> (vm_stat, heim_error) outcome" where
  "VmStat_scan h [] stat = Ok stat"
| "VmStat_scan h (line # lines) stat =
     and_then (byte_slice line 0 2) (\<lambda>first_bytes.
       if first_bytes \<noteq> ''ps'' then VmStat_scan h lines stat
       else (case splitn 2 SP line of
           [] \<Rightarrow> VmStat_scan h lines stat
         | name # parts \<Rightarrow>
             (case VmStat_field name of
                None \<Rightarrow> VmStat_scan h lines stat
              | Some field \<Rightarrow>
                  (case parts of
                     [] \<Rightarrow> VmStat_scan h lines stat
                   | value # _ \<Rightarrow>
                       (case first_word value of
                          None \<Rightarrow> VmStat_scan h lines stat
                        | Some kbytes \<Rightarrow>
                            and_then (from_str_u64 kbytes) (\<lambda>v.
                            and_then (u64_mul (overflow_checks h) 4 v) (\<lambda>w.
                              VmStat_scan h lines (field (Information_new h Kilobyte w) stat))))))))"

definition VmStat_from_str :: "'h host_scheme \<Rightarrow> string \<Rightarrow> (vm_stat, heim_error) outcome" where
  "VmStat_from_str h vmstat = VmStat_scan h (str_lines vmstat) VmStat_default"

record swap =
  swap_total :: u64
  swap_free :: u64
  swap_vm_stat :: vm_stat

definition Swap_used :: "'h host_scheme \<Rightarrow> swap \<Rightarrow> (u64, heim_error) outcome" where
  "Swap_used h s = u64_sub (overflow_checks h) (swap_total s) (swap_free s)"

definition Swap_sin :: "swap \<Rightarrow> u64 option" where
  "Swap_sin s = swap_in (swap_vm_stat s)"

definition Swap_sout :: "swap \<Rightarrow> u64 option" where
  "Swap_sout s = swap_out (swap_vm_stat s)"

definition Swap_field :: "string \<Rightarrow> (u64 \<Rightarrow> swap \<Rightarrow> swap) option" where
  "Swap_field name =
     (if name = ''SwapTotal'' then Some (\<lambda>v s. s\<lparr>swap_total := v\<rparr>)
      else if name = ''SwapFree'' then Some (\<lambda>v s. s\<lparr>swap_free := v\<rparr>)
      else None)"

fun Swap_scan :: "'h host_scheme \<Rightarrow> string list \<Rightarrow> swap \<Rightarrow> nat \<Rightarrow> (swap, heim_error) outcome" where
  "Swap_scan h [] s matched_lines = Err (meminfo_error h)"
| "Swap_scan h (line # lines) s matched_lines =
     and_then (byte_slice line 0 2) (\<lambda>first_bytes.
       if first_bytes \<noteq> ''Sw'' then Swap_scan h lines s matched_lines
       else (case splitn 2 (CHR '':'') line of
           [] \<Rightarrow> Swap_scan h lines s matched_lines
         | name # parts \<Rightarrow>
             (case Swap_field name of
                None \<Rightarrow> Swap_scan h lines s matched_lines
              | Some field \<Rightarrow>
                  (case parts of
                     [] \<Rightarrow> Swap_scan h lines s matched_lines
                   | value # _ \<Rightarrow>
                       (case first_word value of
                          None \<Rightarrow> Swap_scan h lines s matched_lines
                        | Some kbytes \<Rightarrow>
                            and_then (from_str_u64 kbytes) (\<lambda>v.
                              let s' = field (Information_new h Kilobyte v) s
                              in if Suc matched_lines = 2 then Ok s'
                                 else Swap_scan h lines s' (Suc matched_lines)))))))"

definition Swap_parse_str ::
    "'h host_scheme \<Rightarrow> string \<Rightarrow> vm_stat \<Rightarrow> (swap, heim_error) outcome" where
  "Swap_parse_str h meminfo vm =
     Swap_scan h (str_lines meminfo)
       \<lparr>swap_total = Information_new h Byte 0, swap_free = Information_new h Byte 0,
        swap_vm_stat = vm\<rparr> 0"

definition swap_get :: "'h host_scheme \<Rightarrow> (swap, heim_error) outcome" where
  "swap_get h =
     and_then (of_io (read_to_string h (join_path (procfs h) ''meminfo''))) (\<lambda>meminfo.
     and_then (of_io (read_to_string h (join_path (procfs h) ''vmstat''))) (\<lambda>vmstat.
     and_then (VmStat_from_str h vmstat) (\<lambda>vm.
       Swap_parse_str h meminfo vm)))"

section \<open>The scanners meet the interface\<close>

lemma first_word_pad:
  "token t \<Longrightarrow> r = [] \<or> hd r = SP \<Longrightarrow> first_word (replicate n SP @ t @ r) = Some t"
  using splitn_SP_token [of t r] by (auto simp: first_word_def trim_start_pad)

lemma first_word_render_kv:
  "good_kv e \<Longrightarrow> first_word (replicate (kv_pad e) SP @ show_u64 (kv_val e) @ kv_tail e)
     = Some (show_u64 (kv_val e))"
  by (rule first_word_pad) (auto simp: good_kv_def)

lemma byte_slice_2: "2 \<le> length s \<Longrightarrow> byte_slice s 0 2 = Ok (take 2 s)"
  by (simp add: byte_slice_def)

lemma take_2_render_kv: "good_kv e \<Longrightarrow> byte_slice (render_kv e) 0 2 = Ok (take 2 (kv_key e))"
  by (simp add: byte_slice_def render_kv_def good_kv_def)

lemma Memory_field_prefix:
  "Memory_field name = Some f \<Longrightarrow> take 2 name \<in> {''Me'', ''Ac'', ''In'', ''Bu'', ''Ca'', ''Sh''}"
  by (auto simp: Memory_field_def split: if_splits)

definition Memory_setter :: "'h host_scheme \<Rightarrow> string \<Rightarrow> (kv_line \<Rightarrow> memory \<Rightarrow> memory) option" where
  "Memory_setter h k =
     map_option (\<lambda>f e. f (Information_new h Kilobyte (kv_val e))) (Memory_field k)"

interpretation mem_scan: keyed_scan "Memory_scan h" render_kv kv_key good_kv "Memory_setter h"
    "\<lambda>n. n = 8" "\<lambda>_. Err (meminfo_error h)" for h :: "'h host_scheme"
proof
  fix e f ls r n
  assume g: "good_kv e" and s: "Memory_setter h (kv_key e) = Some f"
  from s obtain f' where f': "Memory_field (kv_key e) = Some f'"
    "f = (\<lambda>e. f' (Information_new h Kilobyte (kv_val e)))"
    by (auto simp: Memory_setter_def)
  with g show "Memory_scan h (render_kv e # ls) r n =
      (if Suc n = 8 then Ok (f e r) else Memory_scan h ls (f e r) (Suc n))"
    using Memory_field_prefix [OF f'(1)]
    by (simp add: take_2_render_kv splitn_colon_render_kv first_word_render_kv u64_str.from_str_show
        Let_def) blast
next
  fix e ls r n
  assume "good_kv e" "Memory_setter h (kv_key e) = None"
  then show "Memory_scan h (render_kv e # ls) r n = Memory_scan h ls r n"
    by (simp add: Memory_setter_def take_2_render_kv splitn_colon_render_kv)
qed simp

definition Swap_setter :: "'h host_scheme \<Rightarrow> string \<Rightarrow> (kv_line \<Rightarrow> swap \<Rightarrow> swap) option" where
  "Swap_setter h k =
     map_option (\<lambda>f e. f (Information_new h Kilobyte (kv_val e))) (Swap_field k)"

lemma Swap_field_prefix: "Swap_field name = Some f \<Longrightarrow> take 2 name = ''Sw''"
  by (auto simp: Swap_field_def split: if_splits)

interpretation swap_scan: keyed_scan "Swap_scan h" render_kv kv_key good_kv "Swap_setter h"
    "\<lambda>n. n = 2" "\<lambda>_. Err (meminfo_error h)" for h :: "'h host_scheme"
proof
  fix e f ls r n
  assume g: "good_kv e" and s: "Swap_setter h (kv_key e) = Some f"
  from s obtain f' where f': "Swap_field (kv_key e) = Some f'"
    "f = (\<lambda>e. f' (Information_new h Kilobyte (kv_val e)))"
    by (auto simp: Swap_setter_def)
  with g show "Swap_scan h (render_kv e # ls) r n =
      (if Suc n = 2 then Ok (f e r) else Swap_scan h ls (f e r) (Suc n))"
    using Swap_field_prefix [OF f'(1)]
    by (simp add: take_2_render_kv splitn_colon_render_kv first_word_render_kv u64_str.from_str_show
        Let_def)
next
  fix e ls r n
  assume "good_kv e" "Swap_setter h (kv_key e) = None"
  then show "Swap_scan h (render_kv e # ls) r n = Swap_scan h ls r n"
    by (simp add: Swap_setter_def take_2_render_kv splitn_colon_render_kv)
qed simp

section \<open>Properties\<close>

definition Memory_keys :: "string list" where
  "Memory_keys = [''MemTotal'', ''MemFree'', ''MemAvailable'', ''Buffers'', ''Cached'',
     ''Active'', ''Inactive'', ''Shmem'']"

lemma Memory_setter_keys: "Memory_setter h k \<noteq> None \<longleftrightarrow> k \<in> set Memory_keys"
  by (simp add: Memory_setter_def Memory_field_def Memory_keys_def)

lemma distinct_Memory_keys: "distinct Memory_keys" "length Memory_keys = 8"
  by (simp_all add: Memory_keys_def)

lemma Memory_keys_ne: "Memory_keys \<noteq> []"
  by (simp add: Memory_keys_def)

lemma Memory_setter_get:
  assumes "Memory_setter h (kv_key e) = Some f"
  shows
    "mem_total (f e r) =
       (if kv_key e = ''MemTotal'' then Information_new h Kilobyte (kv_val e) else mem_total r)"
    "mem_free (f e r) =
       (if kv_key e = ''MemFree'' then Information_new h Kilobyte (kv_val e) else mem_free r)"
    "mem_available (f e r) =
       (if kv_key e = ''MemAvailable'' then Information_new h Kilobyte (kv_val e) else mem_available r)"
    "mem_buffers (f e r) =
       (if kv_key e = ''Buffers'' then Information_new h Kilobyte (kv_val e) else mem_buffers r)"
    "mem_cached (f e r) =
       (if kv_key e = ''Cached'' then Information_new h Kilobyte (kv_val e) else mem_cached r)"
    "mem_active (f e r) =
       (if kv_key e = ''Active'' then Information_new h Kilobyte (kv_val e) else mem_active r)"
    "mem_inactive (f e r) =
       (if kv_key e = ''Inactive'' then Information_new h Kilobyte (kv_val e) else mem_inactive r)"
    "mem_shared (f e r) =
       (if kv_key e = ''Shmem'' then Information_new h Kilobyte (kv_val e) else mem_shared r)"
  using assms by (auto simp: Memory_setter_def Memory_field_def split: if_splits)

text \<open>
  (C33) A meminfo table whose lines have the kernel's shape, with distinct keys in any order, any
  padding and any further keys, is read exactly: when it has the eight wanted keys, each amount is
  the number printed for its key, in kilobytes; when it lacks one, the result is the error
  \<open>InvalidData\<close> with the path of the file.
\<close>

theorem Memory_from_str_table:
  fixes h :: "'h host_scheme" and es :: "kv_line list"
  assumes "list_all good_kv es" "distinct (map kv_key es)"
  defines "kb \<equiv> \<lambda>k. Information_new h Kilobyte (kv_lookup es k)"
  shows "Memory_from_str h (unlines (map render_kv es)) =
    (if {''MemTotal'', ''MemFree'', ''MemAvailable'', ''Buffers'', ''Cached'', ''Active'',
         ''Inactive'', ''Shmem''} \<subseteq> kv_key ` set es
     then Ok \<lparr>mem_total = kb ''MemTotal'', mem_free = kb ''MemFree'',
              mem_available = kb ''MemAvailable'', mem_buffers = kb ''Buffers'',
              mem_cached = kb ''Cached'', mem_active = kb ''Active'',
              mem_inactive = kb ''Inactive'', mem_shared = kb ''Shmem''\<rparr>
     else Err \<lparr>err_source = Simple InvalidData,
               err_context = Some (File (join_path (procfs h) ''meminfo''))\<rparr>)"
    (is "_ = (if ?ks \<subseteq> _ then _ else _)")
proof -
  let ?m = "foldl (apply_entry kv_key (Memory_setter h)) Memory_default es"
  have ks: "?ks = set Memory_keys" by (simp add: Memory_keys_def)
  have scan: "Memory_from_str h (unlines (map render_kv es)) =
      (if ?ks \<subseteq> kv_key ` set es then Ok ?m else Err (meminfo_error h))"
    using mem_scan.scan_counted [OF assms(1,2) distinct_Memory_keys(1) _ Memory_setter_keys, of h Memory_default]
    by (simp add: Memory_from_str_def str_lines_render_kv assms(1) distinct_Memory_keys(2)
        Memory_keys_ne flip: ks)
  have get: "get ?m = kb k"
    if "\<And>e f r. Memory_setter h (kv_key e) = Some f \<Longrightarrow>
          get (f e r) = (if kv_key e = k then Information_new h Kilobyte (kv_val e) else get r)"
      "k \<in> ?ks" "?ks \<subseteq> kv_key ` set es" for get k
  proof -
    from that(2) have k: "Memory_setter h k \<noteq> None" by (simp only: Memory_setter_keys ks)
    show ?thesis
      unfolding kb_def
      by (rule kv_entry_get [where get = get and val = "Information_new h Kilobyte"];
          (erule that(1) | rule assms(2) subsetD [OF that(3,2)] k))
  qed
  have "?m = \<lparr>mem_total = kb ''MemTotal'', mem_free = kb ''MemFree'',
      mem_available = kb ''MemAvailable'', mem_buffers = kb ''Buffers'',
      mem_cached = kb ''Cached'', mem_active = kb ''Active'',
      mem_inactive = kb ''Inactive'', mem_shared = kb ''Shmem''\<rparr>" if "?ks \<subseteq> kv_key ` set es"
    by (intro memory.equality;
        (simp only: memory.simps)?; (rule get [OF Memory_setter_get(1) _ that]
          get [OF Memory_setter_get(2) _ that] get [OF Memory_setter_get(3) _ that]
          get [OF Memory_setter_get(4) _ that] get [OF Memory_setter_get(5) _ that]
          get [OF Memory_setter_get(6) _ that] get [OF Memory_setter_get(7) _ that]
          get [OF Memory_setter_get(8) _ that])?; simp)
  with scan show ?thesis
    by (simp add: meminfo_error_def with_file_def Error_from_io_def Error_new_def)
qed

definition sample_meminfo :: "kv_line list" where
  "sample_meminfo =
     map (\<lambda>(k, v). \<lparr>kv_key = k, kv_pad = 3, kv_val = v, kv_tail = '' kB''\<rparr>)
       [(''MemTotal'', 100), (''MemFree'', 40), (''MemAvailable'', 70), (''Buffers'', 5),
        (''Cached'', 20), (''SwapCached'', 1), (''Active'', 30), (''Inactive'', 12),
        (''SwapTotal'', 50), (''SwapFree'', 48), (''Shmem'', 3)]"

lemma sample_meminfo_ok:
  "list_all good_kv sample_meminfo" "distinct (map kv_key sample_meminfo)"
  by code_simp+

theorem Memory_from_str_table_witness:
  "Memory_from_str sample_host (unlines (map render_kv sample_meminfo)) =
     Ok \<lparr>mem_total = 100000, mem_free = 40000, mem_available = 70000, mem_buffers = 5000,
         mem_cached = 20000, mem_active = 30000, mem_inactive = 12000, mem_shared = 3000\<rparr>"
  unfolding Memory_from_str_table [OF sample_meminfo_ok, of sample_host]
  by (simp add: sample_meminfo_def sample_host_def kv_lookup_def)

lemma Memory_setter_prefix_hits:
  assumes "distinct (map kv_key es)" "\<not> set Memory_keys \<subseteq> kv_key ` set es"
  shows "hits kv_key (Memory_setter h) es < 8"
  using hits_incomplete [OF Memory_setter_keys distinct_Memory_keys(1) assms]
  by (simp add: distinct_Memory_keys(2))

text \<open>
  The scanner slices the first two bytes of every line it reads: a line shorter than two
  bytes, met before the eight keys are seen, panics instead of giving an error.
\<close>

theorem Memory_from_str_short_line:
  assumes "list_all good_kv es" "distinct (map kv_key es)"
    and "\<not> {''MemTotal'', ''MemFree'', ''MemAvailable'', ''Buffers'', ''Cached'', ''Active'',
         ''Inactive'', ''Shmem''} \<subseteq> kv_key ` set es"
    and "length l < 2" "list_all line_ok (l # rest)"
  shows "Memory_from_str h (unlines (map render_kv es @ l # rest)) = Panic"
proof -
  have "hits kv_key (Memory_setter h) es < 8"
    using Memory_setter_prefix_hits assms(2,3) by (simp add: Memory_keys_def)
  moreover have "str_lines (unlines (map render_kv es @ l # rest)) = map render_kv es @ l # rest"
    using assms(1,5) by (intro str_lines_unlines) (auto simp: list_all_iff line_ok_render_kv)
  ultimately show ?thesis
    using mem_scan.scan_prefix [OF assms(1), of 0 h "l # rest" Memory_default] assms(4)
    by (simp add: Memory_from_str_def byte_slice_def)
qed

theorem Memory_from_str_short_line_witness:
  "Memory_from_str sample_host (unlines (map render_kv (take 2 sample_meminfo) @ [''''])) = Panic"
  by (rule Memory_from_str_short_line)
     (simp_all add: sample_meminfo_def good_kv_def line_ok_def)

text \<open>
  \<open>used\<close> is the total less free, cached and buffer memory when these are less than the
  total, and total less free when they add up to it. When they exceed the total the subtraction
  has already overflowed before the comparison that is meant to catch the case: a build with
  overflow checks panics, one without returns an amount near \<open>2 ^ 64\<close>.
\<close>

theorem MemoryExt_used_spec:
  fixes h :: "'h host_scheme" and m :: memory
  assumes zero: "Information_new h Byte 0 = 0"
  defines "parts \<equiv> unat (mem_free m) + unat (mem_cached m) + unat (mem_buffers m)"
  shows "(parts < unat (mem_total m) \<longrightarrow>
      (\<exists>w. MemoryExt_used h m = Ok w \<and> unat w = unat (mem_total m) - parts)) \<and>
    (parts = unat (mem_total m) \<longrightarrow> MemoryExt_used h m = Ok (mem_total m - mem_free m)) \<and>
    (unat (mem_total m) < parts \<longrightarrow> overflow_checks h \<longrightarrow> MemoryExt_used h m = Panic) \<and>
    (unat (mem_total m) < parts \<longrightarrow> parts < 2 ^ 64 \<longrightarrow> \<not> overflow_checks h \<longrightarrow>
      (\<exists>w. MemoryExt_used h m = Ok w \<and> unat w = 2 ^ 64 + unat (mem_total m) - parts))"
proof -
  have wrap: "unat (mem_total m - mem_free m - mem_cached m - mem_buffers m) =
      (if parts \<le> unat (mem_total m) then unat (mem_total m) - parts
       else 2 ^ 64 + unat (mem_total m) - parts)" if "parts < 2 ^ 64 + unat (mem_total m)"
    using that unsigned_less [of "mem_total m"] unsigned_less [of "mem_free m"]
      unsigned_less [of "mem_cached m"] unsigned_less [of "mem_buffers m"]
    by (auto simp: unat_sub_if' parts_def)
  note defs = MemoryExt_used_def u64_sub_def zero word_less_nat_alt word_le_nat_alt unat_sub_if'
  have "MemoryExt_used h m = Ok (mem_total m - mem_free m - mem_cached m - mem_buffers m)"
    if "parts < unat (mem_total m)"
    using that by (auto simp: defs parts_def)
  moreover have "MemoryExt_used h m = Ok (mem_total m - mem_free m)"
    if "parts = unat (mem_total m)"
    using that by (auto simp: defs parts_def)
  moreover have "MemoryExt_used h m = Panic"
    if "unat (mem_total m) < parts" "overflow_checks h"
    using that by (auto simp: defs parts_def)
  moreover have "MemoryExt_used h m = Ok (mem_total m - mem_free m - mem_cached m - mem_buffers m)"
    if "unat (mem_total m) < parts" "parts < 2 ^ 64" "\<not> overflow_checks h"
    using that wrap by (simp add: MemoryExt_used_def u64_sub_def zero word_le_nat_alt)
  ultimately show ?thesis using wrap by simp
qed

theorem MemoryExt_used_spec_witness:
  "MemoryExt_used sample_host (Memory_default\<lparr>mem_total := 10, mem_free := 4, mem_cached := 8\<rparr>)
     = Panic \<and>
   (\<exists>w. MemoryExt_used sample_host (Memory_default\<lparr>mem_total := 10, mem_free := 4, mem_cached := 3\<rparr>)
     = Ok w \<and> unat w = 3)"
  using MemoryExt_used_spec [of sample_host
      "Memory_default\<lparr>mem_total := 10, mem_free := 4, mem_cached := 8\<rparr>"]
    MemoryExt_used_spec [of sample_host
      "Memory_default\<lparr>mem_total := 10, mem_free := 4, mem_cached := 3\<rparr>"]
  by (simp add: sample_host_def Memory_default_def)

lemma Swap_setter_keys: "Swap_setter h k \<noteq> None \<longleftrightarrow> k \<in> set [''SwapTotal'', ''SwapFree'']"
  by (simp add: Swap_setter_def Swap_field_def)

lemma Swap_setter_get:
  assumes "Swap_setter h (kv_key e) = Some f"
  shows
    "swap_total (f e r) =
       (if kv_key e = ''SwapTotal'' then Information_new h Kilobyte (kv_val e) else swap_total r)"
    "swap_free (f e r) =
       (if kv_key e = ''SwapFree'' then Information_new h Kilobyte (kv_val e) else swap_free r)"
    "swap_vm_stat (f e r) = swap_vm_stat r"
  using assms by (auto simp: Swap_setter_def Swap_field_def split: if_splits)

lemma Swap_apply_vm_stat:
  "swap_vm_stat (foldl (apply_entry kv_key (Swap_setter h)) s es) = swap_vm_stat s"
proof (induction es arbitrary: s)
  case (Cons e es)
  have "swap_vm_stat (apply_entry kv_key (Swap_setter h) s e) = swap_vm_stat s"
    by (simp add: apply_entry_def Swap_setter_get split: option.splits)
  with Cons show ?case by simp
qed simp

text \<open>
  The swap reader on a meminfo table: total and free are the printed numbers, in kilobytes,
  whatever the order of the lines, next to the swap traffic it was given; a table without one of
  the two keys is an error.
\<close>

theorem Swap_parse_str_table:
  fixes h :: "'h host_scheme" and es :: "kv_line list"
  assumes "list_all good_kv es" "distinct (map kv_key es)"
  defines "kb \<equiv> \<lambda>k. Information_new h Kilobyte (kv_lookup es k)"
  shows "Swap_parse_str h (unlines (map render_kv es)) vm =
    (if ''SwapTotal'' \<in> kv_key ` set es \<and> ''SwapFree'' \<in> kv_key ` set es
     then Ok \<lparr>swap_total = kb ''SwapTotal'', swap_free = kb ''SwapFree'', swap_vm_stat = vm\<rparr>
     else Err (meminfo_error h))"
proof -
  let ?init = "\<lparr>swap_total = Information_new h Byte 0, swap_free = Information_new h Byte 0,
    swap_vm_stat = vm\<rparr>"
  let ?s = "foldl (apply_entry kv_key (Swap_setter h)) ?init es"
  have scan: "Swap_parse_str h (unlines (map render_kv es)) vm =
      (if set [''SwapTotal'', ''SwapFree''] \<subseteq> kv_key ` set es then Ok ?s
       else Err (meminfo_error h))"
    using swap_scan.scan_counted [OF assms(1,2) _ _ Swap_setter_keys, of h ?init]
    by (simp add: Swap_parse_str_def str_lines_render_kv assms(1) numeral_2_eq_2)
  have "?s = \<lparr>swap_total = kb ''SwapTotal'', swap_free = kb ''SwapFree'', swap_vm_stat = vm\<rparr>"
    if "''SwapTotal'' \<in> kv_key ` set es" "''SwapFree'' \<in> kv_key ` set es"
  proof (rule swap.equality)
    show "swap_total ?s = swap_total
        \<lparr>swap_total = kb ''SwapTotal'', swap_free = kb ''SwapFree'', swap_vm_stat = vm\<rparr>"
      unfolding kb_def swap.simps
      by (rule kv_entry_get [where get = swap_total and val = "Information_new h Kilobyte"])
         (simp_all add: Swap_setter_get Swap_setter_def Swap_field_def assms(2) that)
    show "swap_free ?s = swap_free
        \<lparr>swap_total = kb ''SwapTotal'', swap_free = kb ''SwapFree'', swap_vm_stat = vm\<rparr>"
      unfolding kb_def swap.simps
      by (rule kv_entry_get [where get = swap_free and val = "Information_new h Kilobyte"])
         (simp_all add: Swap_setter_get Swap_setter_def Swap_field_def assms(2) that)
  qed (simp_all add: Swap_apply_vm_stat)
  with scan show ?thesis by simp
qed

theorem Swap_parse_str_table_witness:
  "Swap_parse_str sample_host (unlines (map render_kv sample_meminfo)) VmStat_default =
     Ok \<lparr>swap_total = 50000, swap_free = 48000, swap_vm_stat = VmStat_default\<rparr>"
  unfolding Swap_parse_str_table [OF sample_meminfo_ok, of sample_host]
  by (simp add: sample_meminfo_def sample_host_def kv_lookup_def)

section \<open>The vmstat table\<close>

text \<open>A line of \<open>/proc/vmstat\<close>: a key, a space and a number.\<close>

definition render_vm :: "string \<times> u64 \<Rightarrow> string" where
  "render_vm e = fst e @ [SP] @ show_u64 (snd e)"

definition good_vm :: "string \<times> u64 \<Rightarrow> bool" where
  "good_vm e \<longleftrightarrow> 2 \<le> length (fst e) \<and> token (fst e) \<and> 4 * unat (snd e) < 2 ^ 64"

definition VmStat_setter ::
    "'h host_scheme \<Rightarrow> string \<Rightarrow> (string \<times> u64 \<Rightarrow> vm_stat \<Rightarrow> vm_stat) option" where
  "VmStat_setter h k =
     map_option (\<lambda>f e. f (Information_new h Kilobyte (4 * snd e))) (VmStat_field k)"

lemma VmStat_field_prefix: "VmStat_field name = Some f \<Longrightarrow> take 2 name = ''ps''"
  by (auto simp: VmStat_field_def split: if_splits)

lemma line_ok_render_vm: "good_vm e \<Longrightarrow> line_ok (render_vm e)"
  using token_show_u64 [of "snd e"] token_last [OF token_show_u64, of "snd e"]
  by (simp add: line_ok_def render_vm_def good_vm_def token_no_NL)

lemma good_vm_scan:
  assumes "good_vm e"
  shows "byte_slice (render_vm e) 0 2 = Ok (take 2 (fst e))"
    "splitn 2 SP (render_vm e) = [fst e, show_u64 (snd e)]"
    "first_word (show_u64 (snd e)) = Some (show_u64 (snd e))"
    "u64_mul oc 4 (snd e) = Ok (4 * snd e)"
  using assms first_word_pad [of "show_u64 (snd e)" "[]" 0]
  by (simp_all add: byte_slice_def render_vm_def good_vm_def token_no_SP u64_mul_def)

interpretation vm_scan: keyed_scan "\<lambda>ls r n. VmStat_scan h ls r" render_vm fst good_vm
    "VmStat_setter h" "\<lambda>n. False" Ok for h :: "'h host_scheme"
proof
  fix e f ls and r and n :: nat
  assume g: "good_vm e" and s: "VmStat_setter h (fst e) = Some f"
  from s obtain f' where f': "VmStat_field (fst e) = Some f'"
    "f = (\<lambda>e. f' (Information_new h Kilobyte (4 * snd e)))"
    by (auto simp: VmStat_setter_def)
  with g show "VmStat_scan h (render_vm e # ls) r =
      (if False then Ok (f e r) else VmStat_scan h ls (f e r))"
    using VmStat_field_prefix [OF f'(1)]
    by (simp add: good_vm_scan u64_str.from_str_show)
next
  fix e ls and r and n :: nat
  assume "good_vm e" "VmStat_setter h (fst e) = None"
  then show "VmStat_scan h (render_vm e # ls) r = VmStat_scan h ls r"
    by (simp add: VmStat_setter_def good_vm_scan)
qed simp

lemma VmStat_setter_get:
  assumes "VmStat_setter h (fst e) = Some f"
  shows "swap_in (f e r) =
      (if fst e = ''pswpin'' then Some (Information_new h Kilobyte (4 * snd e)) else swap_in r)"
    "swap_out (f e r) =
      (if fst e = ''pswpout'' then Some (Information_new h Kilobyte (4 * snd e)) else swap_out r)"
  using assms by (auto simp: VmStat_setter_def VmStat_field_def split: if_splits)

lemma VmStat_apply:
  fixes h :: "'h host_scheme"
  assumes "distinct (map fst es)"
  shows "foldl (apply_entry fst (VmStat_setter h)) VmStat_default es =
    \<lparr>swap_in = map_option (\<lambda>v. Information_new h Kilobyte (4 * v)) (map_of es ''pswpin''),
     swap_out = map_option (\<lambda>v. Information_new h Kilobyte (4 * v)) (map_of es ''pswpout'')\<rparr>"
proof -
  let ?s = "foldl (apply_entry fst (VmStat_setter h)) VmStat_default es"
  have "swap_in ?s = (case map_of es ''pswpin'' of None \<Rightarrow> swap_in VmStat_default
      | Some v \<Rightarrow> Some (Information_new h Kilobyte (4 * v)))"
    by (rule pair_entry_get [OF _ assms])
       (simp_all add: VmStat_setter_get VmStat_setter_def VmStat_field_def)
  moreover have "swap_out ?s = (case map_of es ''pswpout'' of None \<Rightarrow> swap_out VmStat_default
      | Some v \<Rightarrow> Some (Information_new h Kilobyte (4 * v)))"
    by (rule pair_entry_get [OF _ assms])
       (simp_all add: VmStat_setter_get VmStat_setter_def VmStat_field_def)
  ultimately show ?thesis
    by (intro vm_stat.equality) (simp_all add: VmStat_default_def split: option.splits)
qed

text \<open>
  The swap traffic: in a vmstat table with distinct keys and no counter whose product with
  four overflows, the two counters are four kilobytes per page for the keys that are there and
  absent for the keys that are not; nothing is an error.
\<close>

theorem VmStat_from_str_table:
  assumes "list_all good_vm es" "distinct (map fst es)"
  shows "VmStat_from_str h (unlines (map render_vm es)) =
    Ok \<lparr>swap_in = map_option (\<lambda>v. Information_new h Kilobyte (4 * v)) (map_of es ''pswpin''),
        swap_out = map_option (\<lambda>v. Information_new h Kilobyte (4 * v)) (map_of es ''pswpout'')\<rparr>"
proof -
  have "str_lines (unlines (map render_vm es)) = map render_vm es"
    using assms(1) by (intro str_lines_unlines) (auto simp: list_all_iff line_ok_render_vm)
  then show ?thesis
    using vm_scan.scan_all [OF assms(1), of 0 h VmStat_default]
    by (simp add: VmStat_from_str_def VmStat_apply [OF assms(2)])
qed

theorem VmStat_from_str_table_witness:
  "VmStat_from_str sample_host
     (unlines (map render_vm [(''nr_free_pages'', 7), (''pswpin'', 3)])) =
   Ok \<lparr>swap_in = Some 12000, swap_out = None\<rparr>"
proof -
  have "list_all good_vm [(''nr_free_pages'', 7), (''pswpin'', 3)]"
    by (simp add: good_vm_def token_def solid_def ascii_ws1_def byte_def)
  from VmStat_from_str_table [OF this, of sample_host] show ?thesis
    by (simp add: sample_host_def)
qed

end
