(* ===== verification/Process_Types.thy ===== *)
theory Process_Types
  imports Runtime
begin

text \<open>
  The data types of \<open>heim-process\<close>: \<open>src/errors.rs\<close>, \<open>src/process/status.rs\<close> and
  \<open>src/os/unix/signal.rs\<close>, with the status letters of \<open>sys/linux/process/procfs/stat.rs\<close>.

  The theorems: signals and their numbers convert back and forth without loss and every other number
  is refused; exactly twelve letters are process states.
\<close>

type_synonym pid = i32

section \<open>Errors\<close>

datatype process_error =
    NoSuchProcess pid
  | ZombieProcess pid
  | AccessDenied pid
  | Load heim_error
  | UnreadablePeb pid

fun ProcessError_fmt :: "(io_error \<Rightarrow> string) \<Rightarrow> process_error \<Rightarrow> string" where
  "ProcessError_fmt io_display (NoSuchProcess pid) = ''Process '' @ show_i32 pid @ '' does not exists''"
| "ProcessError_fmt io_display (ZombieProcess pid) = ''Process '' @ show_i32 pid @ '' is zombie''"
| "ProcessError_fmt io_display (AccessDenied pid) = ''Access denied for process '' @ show_i32 pid"
| "ProcessError_fmt io_display (UnreadablePeb pid) = ''Unable to read process PEB '' @ show_i32 pid"
| "ProcessError_fmt io_display (Load e) = Error_fmt io_display e"

fun ProcessError_source :: "process_error \<Rightarrow> heim_error option" where
  "ProcessError_source (Load e) = Some e"
| "ProcessError_source _ = None"

definition ProcessError_from_io :: "io_error \<Rightarrow> process_error" where
  "ProcessError_from_io e = Load (Error_from_io e)"

text \<open>The \<open>?\<close> operator from the crate's own results to process results.\<close>

abbreviation load :: "('a, heim_error) outcome \<Rightarrow> ('a, process_error) outcome" where
  "load r \<equiv> map_err Load r"

section \<open>Status\<close>

datatype status =
    Running | Sleeping | Waiting | Zombie | Stopped | Tracing | Dead | Wakekill | Waking | Parked | Idle

definition Status_try_from_char :: "string \<Rightarrow> (status, heim_error) outcome" where
  "Status_try_from_char value =
     (if value = ''R'' then Ok Running
      else if value = ''S'' then Ok Sleeping
      else if value = ''D'' then Ok Waiting
      else if value = ''Z'' then Ok Zombie
      else if value = ''T'' then Ok Stopped
      else if value = ''t'' then Ok Tracing
      else if value = ''X'' \<or> value = ''x'' then Ok Dead
      else if value = ''K'' then Ok Wakekill
      else if value = ''W'' then Ok Waking
      else if value = ''P'' then Ok Parked
      else if value = ''I'' then Ok Idle
      else Err (with_message (Error_from_io (Simple InvalidData)) (''Unknown process state '' @ value)))"

text \<open>The first character of a string: one to four bytes, told by the first byte.\<close>

definition char_len :: "char \<Rightarrow> nat" where
  "char_len c = (if byte c < 0xC0 then 1 else if byte c < 0xE0 then 2 else if byte c < 0xF0 then 3 else 4)"

definition first_char :: "string \<Rightarrow> string option" where
  "first_char s = (case s of [] \<Rightarrow> None | c # _ \<Rightarrow> Some (take (char_len c) s))"

section \<open>Signals\<close>

datatype signal =
    Abrt | Alrm | Bus | Chld | Cont | Fpe | Hup | Ill | Int_signal | Kill | Pipe | Quit | Segv | Stop | Term
  | Tstp | Ttin | Ttou | Usr1 | Usr2 | Poll | Prof | Sys_signal | Trap | Urg | VtAlrm | XCpu | XFsz

text \<open>The constants of the C library, and the numbers a platform gives them as a parameter.\<close>

datatype sig_const =
    SIGABRT | SIGALRM | SIGBUS | SIGCHLD | SIGCONT | SIGFPE | SIGHUP | SIGILL | SIGINT | SIGKILL
  | SIGPIPE | SIGQUIT | SIGSEGV | SIGSTOP | SIGTERM | SIGTSTP | SIGTTIN | SIGTTOU | SIGUSR1 | SIGUSR2
  | SIGPOLL | SIGPROF | SIGSYS | SIGTRAP | SIGURG | SIGVTALRM | SIGXCPU | SIGXFSZ

text \<open>The arms of the match in \<open>try_from\<close>, in order; the first that fits is taken.\<close>

definition Signal_arms :: "(sig_const \<times> signal) list" where
  "Signal_arms =
     [(SIGABRT, Abrt), (SIGALRM, Alrm), (SIGBUS, Bus), (SIGCHLD, Chld), (SIGCONT, Cont),
      (SIGFPE, Fpe), (SIGHUP, Hup), (SIGILL, Ill), (SIGINT, Int_signal), (SIGKILL, Kill),
      (SIGPIPE, Pipe), (SIGQUIT, Quit), (SIGSEGV, Segv), (SIGSTOP, Stop), (SIGTERM, Term),
      (SIGTSTP, Tstp), (SIGTTIN, Ttin), (SIGTTOU, Ttou), (SIGUSR1, Usr1), (SIGUSR2, Usr2),
      (SIGPOLL, Poll), (SIGPROF, Prof), (SIGSYS, Sys_signal), (SIGTRAP, Trap), (SIGURG, Urg),
      (SIGVTALRM, VtAlrm), (SIGXCPU, XCpu), (SIGXFSZ, XFsz)]"

definition Signal_try_from :: "(sig_const \<Rightarrow> i32) \<Rightarrow> i32 \<Rightarrow> io_error + signal" where
  "Signal_try_from libc value =
     (case find (\<lambda>arm. libc (fst arm) = value) Signal_arms of
        Some arm \<Rightarrow> Inr (snd arm)
      | None \<Rightarrow> Inl (Simple InvalidInput))"

fun Signal_into :: "(sig_const \<Rightarrow> i32) \<Rightarrow> signal \<Rightarrow> i32" where
  "Signal_into libc Abrt = libc SIGABRT"
| "Signal_into libc Alrm = libc SIGALRM"
| "Signal_into libc Bus = libc SIGBUS"
| "Signal_into libc Chld = libc SIGCHLD"
| "Signal_into libc Cont = libc SIGCONT"
| "Signal_into libc Fpe = libc SIGFPE"
| "Signal_into libc Hup = libc SIGHUP"
| "Signal_into libc Ill = libc SIGILL"
| "Signal_into libc Int_signal = libc SIGINT"
| "Signal_into libc Kill = libc SIGKILL"
| "Signal_into libc Pipe = libc SIGPIPE"
| "Signal_into libc Quit = libc SIGQUIT"
| "Signal_into libc Segv = libc SIGSEGV"
| "Signal_into libc Stop = libc SIGSTOP"
| "Signal_into libc Term = libc SIGTERM"
| "Signal_into libc Tstp = libc SIGTSTP"
| "Signal_into libc Ttin = libc SIGTTIN"
| "Signal_into libc Ttou = libc SIGTTOU"
| "Signal_into libc Usr1 = libc SIGUSR1"
| "Signal_into libc Usr2 = libc SIGUSR2"
| "Signal_into libc Poll = libc SIGPOLL"
| "Signal_into libc Prof = libc SIGPROF"
| "Signal_into libc Sys_signal = libc SIGSYS"
| "Signal_into libc Trap = libc SIGTRAP"
| "Signal_into libc Urg = libc SIGURG"
| "Signal_into libc VtAlrm = libc SIGVTALRM"
| "Signal_into libc XCpu = libc SIGXCPU"
| "Signal_into libc XFsz = libc SIGXFSZ"

text \<open>The numbers of x86 Linux.\<close>

fun linux_sig :: "sig_const \<Rightarrow> i32" where
  "linux_sig SIGHUP = 1" | "linux_sig SIGINT = 2" | "linux_sig SIGQUIT = 3" | "linux_sig SIGILL = 4"
| "linux_sig SIGTRAP = 5" | "linux_sig SIGABRT = 6" | "linux_sig SIGBUS = 7" | "linux_sig SIGFPE = 8"
| "linux_sig SIGKILL = 9" | "linux_sig SIGUSR1 = 10" | "linux_sig SIGSEGV = 11"
| "linux_sig SIGUSR2 = 12" | "linux_sig SIGPIPE = 13" | "linux_sig SIGALRM = 14"
| "linux_sig SIGTERM = 15" | "linux_sig SIGCHLD = 17" | "linux_sig SIGCONT = 18"
| "linux_sig SIGSTOP = 19" | "linux_sig SIGTSTP = 20" | "linux_sig SIGTTIN = 21"
| "linux_sig SIGTTOU = 22" | "linux_sig SIGURG = 23" | "linux_sig SIGXCPU = 24"
| "linux_sig SIGXFSZ = 25" | "linux_sig SIGVTALRM = 26" | "linux_sig SIGPROF = 27"
| "linux_sig SIGPOLL = 29" | "linux_sig SIGSYS = 31"

section \<open>Properties\<close>

lemma Signal_arms_into: "(c, s) \<in> set Signal_arms \<Longrightarrow> Signal_into libc s = libc c"
  by (auto simp: Signal_arms_def)

lemma Signal_arms_total: "\<exists>c. (c, s) \<in> set Signal_arms"
  by (cases s) (auto simp: Signal_arms_def)

lemma Signal_arms_functional:
  assumes "(c, s) \<in> set Signal_arms" "(c, s') \<in> set Signal_arms"
  shows "s = s'"
proof -
  have "distinct (map fst Signal_arms)" by (simp add: Signal_arms_def)
  with assms show ?thesis by (metis eq_key_imp_eq_value)
qed

lemma Signal_try_from_cases:
  "(\<exists>c s. (c, s) \<in> set Signal_arms \<and> libc c = v \<and> Signal_try_from libc v = Inr s) \<or>
   ((\<forall>c s. (c, s) \<in> set Signal_arms \<longrightarrow> libc c \<noteq> v) \<and> Signal_try_from libc v = Inl (Simple InvalidInput))"
proof (cases "find (\<lambda>arm. libc (fst arm) = v) Signal_arms")
  case None
  then have "\<forall>c s. (c, s) \<in> set Signal_arms \<longrightarrow> libc c \<noteq> v" by (auto simp: find_None_iff)
  with None show ?thesis by (simp add: Signal_try_from_def)
next
  case (Some arm)
  then have "arm \<in> set Signal_arms" "libc (fst arm) = v" by (auto simp: find_Some_iff)
  then have "\<exists>c s. (c, s) \<in> set Signal_arms \<and> libc c = v \<and> s = snd arm" by (metis prod.collapse)
  with Some show ?thesis by (auto simp: Signal_try_from_def)
qed

text \<open>
  On a platform whose signal numbers are distinct, the conversions are inverse to each other:
  every signal's number converts back to it, a number that converts to a signal is that signal's
  number, and every number that is no signal's is refused with \<open>InvalidInput\<close>.
\<close>

theorem Signal_roundtrip:
  assumes "inj libc"
  shows "(Signal_try_from libc v = Inr s \<longleftrightarrow> Signal_into libc s = v) \<and>
    ((\<nexists>s. Signal_into libc s = v) \<longleftrightarrow> Signal_try_from libc v = Inl (Simple InvalidInput))"
proof -
  have inj: "s = s'" if "Signal_into libc s = Signal_into libc s'" for s s'
    using that Signal_arms_total [of s] Signal_arms_total [of s'] assms
    by (metis Signal_arms_into Signal_arms_functional injD)
  have ret: "Signal_try_from libc (Signal_into libc s) = Inr s" for s
    using Signal_try_from_cases [of libc "Signal_into libc s"] Signal_arms_total [of s] inj
    by (metis Signal_arms_into)
  moreover have "Signal_try_from libc v = Inl (Simple InvalidInput)" if "\<nexists>s. Signal_into libc s = v"
    using that Signal_try_from_cases [of libc v] Signal_arms_into by metis
  moreover have "Signal_into libc s = v" if "Signal_try_from libc v = Inr s" for s
    using that Signal_try_from_cases [of libc v] Signal_arms_into by fastforce
  ultimately show ?thesis by (metis sum.distinct(1))
qed

lemma inj_linux_sig: "inj linux_sig"
proof (rule injI)
  fix x y :: sig_const
  assume "linux_sig x = linux_sig y"
  then show "x = y" by (cases x; cases y) simp_all
qed

theorem Signal_roundtrip_witness:
  "Signal_try_from linux_sig 19 = Inr Stop \<and> Signal_try_from linux_sig 0 = Inl (Simple InvalidInput)"
proof -
  have "\<nexists>s. Signal_into linux_sig s = 0"
  proof
    assume "\<exists>s. Signal_into linux_sig s = 0"
    then obtain s where "Signal_into linux_sig s = 0" by blast
    then show False by (cases s) simp_all
  qed
  then show ?thesis
    using Signal_roundtrip [OF inj_linux_sig, of 19 Stop] Signal_roundtrip [OF inj_linux_sig, of 0] by simp
qed

end
