(* ===== verification/Host_Linux.thy ===== *)
theory Host_Linux
  imports Keyed_Table
begin

text \<open>
  \<open>heim-host\<close> on Linux: \<open>sys/linux/boot_time.rs\<close>, \<open>sys/linux/uptime.rs\<close>,
  \<open>sys/unix/users.rs\<close>, \<open>sys/linux/users/other.rs\<close> and \<open>sys/unix/platform.rs\<close>.

  The theorems: the boot time is the number of the first \<open>btime\<close> line wherever it stands, the
  user list keeps exactly the user sessions in order, a user's text field ends at its first NUL byte
  even when that lies in the next field, and remote addresses come out in the byte order of the
  machine.
\<close>

section \<open>Boot time and uptime\<close>

definition missing_btime :: "'h host_scheme \<Rightarrow> heim_error" where
  "missing_btime h = Error_missing_key ''btime'' (utf8_lossy (procfs h) @ ''/stat'')"

fun boot_time_scan :: "'h host_scheme \<Rightarrow> string list \<Rightarrow> (fval, heim_error) outcome" where
  "boot_time_scan h [] = Err (missing_btime h)"
| "boot_time_scan h (line # lines) =
     (if starts_with line ''btime ''
      then (case splitn 2 SP line of
              _ # raw_value # _ \<Rightarrow> map_ok (Time_new h) (from_str_f64 raw_value)
            | _ \<Rightarrow> Err (missing_btime h))
      else boot_time_scan h lines)"

definition boot_time :: "'h host_scheme \<Rightarrow> (fval, heim_error) outcome" where
  "boot_time h =
     and_then (of_io (read_to_string h (join_path (procfs h) ''stat''))) (\<lambda>contents.
       boot_time_scan h (str_lines contents))"

definition uptime :: "'h host_scheme \<Rightarrow> (fval, heim_error) outcome" where
  "uptime h =
     and_then (of_io (read_to_string h (join_path (procfs h) ''uptime''))) (\<lambda>contents.
       (case splitn 2 SP contents of
          raw_value # _ \<Rightarrow> map_ok (Time_new h) (from_str_f64 raw_value)
        | [] \<Rightarrow> Err (Error_missing_key ''uptime'' (utf8_lossy (procfs h) @ ''/uptime''))))"

section \<open>Users\<close>

text \<open>
  An entry of the user database. The four text fields are byte arrays that lie next to each other
  in memory, in this order; \<open>ut_after\<close> are the bytes behind the last one. A C string read at
  the start of a field runs to the first NUL byte, which need not be in the field.
\<close>

record utmpx =
  ut_type :: i32
  ut_pid :: i32
  ut_line :: bytes
  ut_id :: bytes
  ut_user :: bytes
  ut_host :: bytes
  ut_after :: bytes
  ut_session :: i32
  ut_addr_v6 :: "u32 list"
  ut_addr_after :: "u32 list"

definition CStr_from_ptr :: "bytes \<Rightarrow> bytes" where
  "CStr_from_ptr mem = takeWhile (\<lambda>c. c \<noteq> NUL) mem"

datatype ip_addr = V4 "u8 list" | V6 "u8 list"

text \<open>The big-endian octets of a number, as \<open>Ipv4Addr::from\<close> and \<open>Ipv6Addr::from\<close> take them.\<close>

fun be_octets :: "nat \<Rightarrow> nat \<Rightarrow> u8 list" where
  "be_octets 0 n = []"
| "be_octets (Suc k) n = be_octets k (n div 256) @ [of_nat (n mod 256)]"

text \<open>A number as memory holds it, and the number four words give when copied into a \<open>u128\<close>.\<close>

fun le_value :: "u8 list \<Rightarrow> nat" where
  "le_value [] = 0"
| "le_value (b # bs) = unat b + 256 * le_value bs"

definition be_value :: "u8 list \<Rightarrow> nat" where
  "be_value bs = le_value (rev bs)"

definition mem_value :: "bool \<Rightarrow> u8 list \<Rightarrow> nat" where
  "mem_value big_endian bs = (if big_endian then be_value bs else le_value bs)"

definition mem_octets :: "bool \<Rightarrow> nat \<Rightarrow> nat \<Rightarrow> u8 list" where
  "mem_octets big_endian k n = (if big_endian then be_octets k n else rev (be_octets k n))"

text \<open>A field of a structure in memory: so many bytes from an offset, in the order of the machine.\<close>

definition field_at :: "bool \<Rightarrow> nat \<Rightarrow> nat \<Rightarrow> bytes \<Rightarrow> nat" where
  "field_at big_endian off n b = mem_value big_endian (map (\<lambda>c. of_nat (byte c)) (take n (drop off b)))"

text \<open>A word as memory holds it.\<close>

definition u32_mem :: "bool \<Rightarrow> nat \<Rightarrow> bytes" where
  "u32_mem big_endian n = map (\<lambda>b. char_of (unat b)) (mem_octets big_endian 4 n)"

lemma field_at_take: "off + n \<le> k \<Longrightarrow> field_at be off n (take k b) = field_at be off n b"
  by (simp add: field_at_def take_drop min_def)

lemma field_at_append: "off + n \<le> length m \<Longrightarrow> field_at be off n (m @ rest) = field_at be off n m"
  by (simp add: field_at_def)

text \<open>
  The remote address of an entry. The source copies sixteen words, not sixteen bytes, from the array
  of four into a \<open>u128\<close>: \<open>after\<close> are the words that lie behind the array, and the second component
  of the result are the bytes written behind the variable.
\<close>

definition from_ut_addr_v6 :: "bool \<Rightarrow> u32 list \<Rightarrow> u32 list \<Rightarrow> ip_addr option \<times> u8 list" where
  "from_ut_addr_v6 big_endian addr after =
     (if addr = [0, 0, 0, 0] then (None, [])
      else if tl addr = [0, 0, 0] then (Some (V4 (be_octets 4 (unat (hd addr)))), [])
      else
        let copied = concat (map (\<lambda>w. mem_octets big_endian 4 (unat w)) (take 16 (addr @ after)))
        in (Some (V6 (be_octets 16 (mem_value big_endian (take 16 copied)))), drop 16 copied))"

record user =
  username :: string
  terminal :: string
  user_id :: string
  user_hostname :: string
  user_pid :: i32
  user_addr :: "ip_addr option"
  session_id :: i32

definition User_from :: "bool \<Rightarrow> utmpx \<Rightarrow> user" where
  "User_from big_endian entry =
     \<lparr>username = utf8_lossy (CStr_from_ptr (ut_user entry @ ut_host entry @ ut_after entry)),
      terminal = utf8_lossy (CStr_from_ptr
        (ut_line entry @ ut_id entry @ ut_user entry @ ut_host entry @ ut_after entry)),
      user_id = utf8_lossy (CStr_from_ptr
        (ut_id entry @ ut_user entry @ ut_host entry @ ut_after entry)),
      user_hostname = utf8_lossy (CStr_from_ptr (ut_host entry @ ut_after entry)),
      user_pid = ut_pid entry,
      user_addr = fst (from_ut_addr_v6 big_endian (ut_addr_v6 entry) (ut_addr_after entry)),
      session_id = ut_session entry\<rparr>"

text \<open>The loop over \<open>getutxent\<close>: the entries it returns before the null pointer.\<close>

fun get_users :: "i32 \<Rightarrow> (utmpx \<Rightarrow> 'u) \<Rightarrow> utmpx list \<Rightarrow> 'u list" where
  "get_users USER_PROCESS from [] = []"
| "get_users USER_PROCESS from (entry # entries) =
     (if ut_type entry \<noteq> USER_PROCESS then get_users USER_PROCESS from entries
      else from entry # get_users USER_PROCESS from entries)"

definition users :: "i32 \<Rightarrow> bool \<Rightarrow> utmpx list \<Rightarrow> (user, heim_error) outcome list" where
  "users USER_PROCESS big_endian entries =
     map Ok (get_users USER_PROCESS (User_from big_endian) entries)"

section \<open>Platform\<close>

record utsname =
  uts_sysname :: bytes
  uts_nodename :: bytes
  uts_release :: bytes
  uts_version :: bytes
  uts_machine :: bytes

text \<open>The \<open>platforms\<close> crate, which has the architectures, is a parameter.\<close>

record 'arch arch_api =
  Arch_from_str :: "string \<Rightarrow> 'arch option"
  Arch_ARM :: 'arch
  Arch_POWERPC64 :: 'arch
  Arch_Unknown :: 'arch

record 'arch platform_info =
  platform_system :: string
  platform_release :: string
  platform_version :: string
  platform_hostname :: string
  platform_arch :: 'arch

definition arch_from_uname :: "'arch arch_api \<Rightarrow> string \<Rightarrow> 'arch option" where
  "arch_from_uname api raw =
     (case Arch_from_str api raw of
        Some arch \<Rightarrow> Some arch
      | None \<Rightarrow>
          if raw = ''armv7'' \<or> raw = ''armv7l'' \<or> raw = ''arm64'' then Some (Arch_ARM api)
          else if raw = ''ppc64'' \<or> raw = ''ppc64le'' then Some (Arch_POWERPC64 api)
          else None)"

definition platform ::
    "'h host_scheme \<Rightarrow> 'arch arch_api \<Rightarrow> i32 \<times> utsname \<Rightarrow> ('arch platform_info, heim_error) outcome"
  where
  "platform h api uname =
     (case uname of (result, uts) \<Rightarrow>
        if result \<noteq> 0 then Err (with_ffi (Error_last_os_error (last_errno h)) ''uname'')
        else
          let raw_arch = utf8_lossy (CStr_from_ptr (uts_machine uts));
              arch = (case arch_from_uname api raw_arch of Some a \<Rightarrow> a | None \<Rightarrow> Arch_Unknown api)
          in Ok \<lparr>platform_system = utf8_lossy (CStr_from_ptr (uts_sysname uts)),
                 platform_release = utf8_lossy (CStr_from_ptr (uts_release uts)),
                 platform_version = utf8_lossy (CStr_from_ptr (uts_version uts)),
                 platform_hostname = utf8_lossy (CStr_from_ptr (uts_nodename uts)),
                 platform_arch = arch\<rparr>)"

section \<open>Properties\<close>

lemma boot_time_scan_skip:
  "\<forall>l\<in>set ls. \<not> starts_with l ''btime '' \<Longrightarrow> boot_time_scan h (ls @ ms) = boot_time_scan h ms"
  by (induction ls) auto

lemma splitn_btime: "splitn 2 SP (''btime '' @ v) = [''btime'', v]"
  using splitn_2_append [of SP "''btime''" v] by simp

text \<open>
  The boot time is the number on the first line of the stat table that starts with
  \<open>btime\<close>, wherever that line stands, rounded to a 64-bit float; a table without such a line is an
  error that names the key and the file.
\<close>

theorem boot_time_table:
  assumes "file_data h (join_path (procfs h) ''stat'') = Inr contents" "utf8_valid contents"
    and "\<forall>l\<in>set ls. \<not> starts_with l ''btime ''"
  shows "(str_lines contents = ls @ (''btime '' @ show_nat n) # ms \<longrightarrow>
      boot_time h = Ok (Time_new h (rnd64 (of_nat n)))) \<and>
    (str_lines contents = ls \<longrightarrow>
      boot_time h = Err (Error_missing_key ''btime'' (utf8_lossy (procfs h) @ ''/stat'')))"
proof -
  have r: "boot_time h = boot_time_scan h (str_lines contents)"
    using assms(1,2) by (simp add: boot_time_def read_to_string_def utf8_checked_def)
  have "boot_time_scan h (ls @ (''btime '' @ show_nat n) # ms) = Ok (Time_new h (rnd64 (of_nat n)))"
    unfolding boot_time_scan_skip [OF assms(3)] boot_time_scan.simps splitn_btime
    by (simp add: starts_with_def from_str_f64_def parse_f64_show_nat)
  moreover have "boot_time_scan h ls = Err (missing_btime h)"
    using boot_time_scan_skip [OF assms(3), of h "[]"] by simp
  ultimately show ?thesis using r by (simp add: missing_btime_def)
qed

theorem boot_time_table_witness:
  "boot_time (sample_host\<lparr>file_data := \<lambda>_. Inr (unlines [''cpu 1 2'', ''btime 1570'', ''btime 3''])\<rparr>)
     = Ok (rnd64 1570)"
proof -
  let ?c = "unlines [''cpu 1 2'', ''btime 1570'', ''btime 3'']"
  have "str_lines ?c = [''cpu 1 2'', ''btime 1570'', ''btime 3'']"
    by (rule str_lines_unlines) (simp add: line_ok_def)
  moreover have "show_nat 1570 = ''1570''" by code_simp
  moreover have "utf8_valid ?c" by (rule utf8_valid_ascii) (simp add: unlines_def byte_def)
  ultimately show ?thesis
    using boot_time_table [of "sample_host\<lparr>file_data := \<lambda>_. Inr ?c\<rparr>" ?c "[''cpu 1 2'']" 1570
        "[''btime 3'']"]
    by (simp add: starts_with_def sample_host_def)
qed

text \<open>
  The users are the entries of type \<open>USER_PROCESS\<close>, in the order of the database.
\<close>

theorem users_filter:
  "users USER_PROCESS big_endian entries =
   map (\<lambda>e. Ok (User_from big_endian e)) (filter (\<lambda>e. ut_type e = USER_PROCESS) entries)"
proof -
  have "get_users USER_PROCESS conv entries =
      map conv (filter (\<lambda>e. ut_type e = USER_PROCESS) entries)" for conv :: "utmpx \<Rightarrow> user"
    by (induction entries) auto
  then show ?thesis by (simp add: users_def)
qed

lemma CStr_from_ptr_in_field: "NUL \<in> set f \<Longrightarrow> CStr_from_ptr (f @ rest) = CStr_from_ptr f"
  by (induction f) (auto simp: CStr_from_ptr_def)

lemma CStr_from_ptr_overrun: "NUL \<notin> set f \<Longrightarrow> CStr_from_ptr (f @ rest) = f @ CStr_from_ptr rest"
  by (induction f) (auto simp: CStr_from_ptr_def)

text \<open>
  A terminal identifier that fills its field, as the four bytes of \<open>ts/0\<close> do, has no NUL
  byte, so the C string read there runs on into the user name: the identifier reported is the two
  texts glued together. When the field has a NUL byte it is the text before it.
\<close>

theorem User_from_id:
  assumes "utf8_valid (CStr_from_ptr (ut_id e @ ut_user e @ ut_host e @ ut_after e))"
    "NUL \<in> set (ut_user e)"
  shows "user_id (User_from big_endian e) =
    (if NUL \<in> set (ut_id e) then CStr_from_ptr (ut_id e)
     else ut_id e @ CStr_from_ptr (ut_user e))"
  using assms
  by (simp add: User_from_def CStr_from_ptr_in_field CStr_from_ptr_overrun utf8_lossy_valid)

definition sample_utmpx :: utmpx where
  "sample_utmpx =
     \<lparr>ut_type = 7, ut_pid = 1, ut_line = ''pts/0'' @ [NUL], ut_id = ''ts/0'',
      ut_user = ''root'' @ [NUL], ut_host = [NUL], ut_after = [], ut_session = 1,
      ut_addr_v6 = [0, 0, 0, 0], ut_addr_after = []\<rparr>"

theorem User_from_id_witness: "user_id (User_from False sample_utmpx) = ''ts/0root''"
proof -
  have "user_id (User_from False sample_utmpx) =
      (if NUL \<in> set (ut_id sample_utmpx) then CStr_from_ptr (ut_id sample_utmpx)
       else ut_id sample_utmpx @ CStr_from_ptr (ut_user sample_utmpx))"
    by (rule User_from_id)
       (simp_all add: sample_utmpx_def CStr_from_ptr_def utf8_valid_ascii_Cons byte_def)
  then show ?thesis by (simp add: sample_utmpx_def CStr_from_ptr_def)
qed

lemma unat_u8_less [simp]: "unat (b :: u8) < 256"
  using unsigned_less [of b] by simp

lemma le_value_snoc: "le_value (bs @ [b]) = le_value bs + 256 ^ length bs * unat b"
  by (induction bs) (simp_all add: algebra_simps)

lemma be_octets_le_value: "length bs = k \<Longrightarrow> be_octets k (le_value bs) = rev bs"
proof (induction bs arbitrary: k)
  case (Cons b bs)
  then obtain k' where "k = Suc k'" by auto
  moreover have "(unat b + 256 * le_value bs) div 256 = le_value bs"
    "(unat b + 256 * le_value bs) mod 256 = unat b"
    by simp_all
  ultimately show ?case using Cons by simp
qed simp

lemma be_octets_be_value: "length bs = k \<Longrightarrow> be_octets k (be_value bs) = bs"
  using be_octets_le_value [of "rev bs" k] by (simp add: be_value_def)

lemma length_be_octets [simp]: "length (be_octets k n) = k"
  by (induction k arbitrary: n) auto

lemma le_value_bound: "le_value bs < 256 ^ length bs"
proof (induction bs)
  case (Cons b bs)
  have "unat b + 256 * le_value bs < 256 + 256 * le_value bs" by simp
  also have "\<dots> = 256 * Suc (le_value bs)" by simp
  also have "\<dots> \<le> 256 * 256 ^ length bs" using Cons by (intro mult_le_mono2) simp
  finally show ?case by simp
qed simp

text \<open>A word that memory holds as four bytes gives these bytes back.\<close>

lemma mem_octets_value:
  assumes "length bs = 4"
  shows "mem_octets be 4 (unat (of_nat (mem_value be bs) :: u32)) = bs"
proof -
  have "mem_value be bs < 256 ^ 4"
    using le_value_bound [of bs] le_value_bound [of "rev bs"] assms
    by (simp add: mem_value_def be_value_def)
  then have "unat (of_nat (mem_value be bs) :: u32) = mem_value be bs"
    by (simp add: unat_of_nat)
  then show ?thesis
    using be_octets_le_value [OF assms] be_octets_be_value [OF assms]
    by (simp add: mem_octets_def mem_value_def)
qed

text \<open>
  The kernel stores a remote address in network byte order. Read back on a little-endian
  machine the octets come out reversed, for both address families; on a big-endian machine they
  come out in order. For an IPv6 address the copy writes 48 bytes behind the variable it is meant for.
\<close>

theorem from_ut_addr_v6_order:
  fixes b0 b1 b2 b3 :: "u8 list" and big_endian :: bool
  assumes "length b0 = 4" "length b1 = 4" "length b2 = 4" "length b3 = 4"
  defines "load \<equiv> \<lambda>bs. of_nat (mem_value big_endian bs) :: u32"
  assumes "load b0 \<noteq> 0" "length after = 12"
  shows "from_ut_addr_v6 big_endian [load b0, 0, 0, 0] after =
      (Some (V4 (if big_endian then b0 else rev b0)), []) \<and>
    (load b3 \<noteq> 0 \<longrightarrow> (\<exists>spill. length spill = 48 \<and>
      from_ut_addr_v6 big_endian [load b0, load b1, load b2, load b3] after =
        (Some (V6 (if big_endian then b0 @ b1 @ b2 @ b3 else rev (b0 @ b1 @ b2 @ b3))), spill)))"
proof -
  have words: "mem_octets big_endian 4 (unat (load bs)) = bs" if "length bs = 4" for bs
    using mem_octets_value [OF that] by (simp add: load_def)
  have "be_octets 4 (unat (load b0)) = (if big_endian then b0 else rev b0)"
    using words [OF assms(1)] by (cases big_endian) (simp_all add: mem_octets_def rev_swap)
  moreover have "be_octets 16 (mem_value big_endian (b0 @ b1 @ b2 @ b3)) =
      (if big_endian then b0 @ b1 @ b2 @ b3 else rev (b0 @ b1 @ b2 @ b3))"
    using be_octets_le_value [of "b0 @ b1 @ b2 @ b3" 16] be_octets_be_value [of "b0 @ b1 @ b2 @ b3" 16]
      assms(1-4) by (simp add: mem_value_def)
  moreover have "length (concat (map (\<lambda>w. mem_octets big_endian 4 (unat w)) ws)) = 4 * length ws" for ws :: "u32 list"
    by (induction ws) (simp_all add: mem_octets_def)
  ultimately show ?thesis
    using assms words by (simp add: from_ut_addr_v6_def Let_def)
qed

theorem from_ut_addr_v6_order_witness:
  "from_ut_addr_v6 False [of_nat (mem_value False [192, 168, 0, 1]), 0, 0, 0] (replicate 12 0) =
     (Some (V4 [1, 0, 168, 192]), [])"
  using from_ut_addr_v6_order [of "[192, 168, 0, 1]" "[0, 0, 0, 0]" "[0, 0, 0, 0]" "[0, 0, 0, 0]" False "replicate 12 0"]
  by (simp add: mem_value_def)

text \<open>
  The architecture: what the platforms crate knows by its exact name wins; otherwise the 32-bit
  and the 64-bit ARM names of \<open>uname\<close> both give ARM, the PowerPC names give PowerPC, and
  anything else is \<open>Unknown\<close>, never an error.
\<close>

theorem platform_arch_cases:
  "\<exists>p. platform h api (0, uts) = Ok p \<and>
     (let raw = utf8_lossy (CStr_from_ptr (uts_machine uts)) in
      platform_arch p =
        (if Arch_from_str api raw \<noteq> None then the (Arch_from_str api raw)
         else if raw \<in> {''armv7'', ''armv7l'', ''arm64''} then Arch_ARM api
         else if raw \<in> {''ppc64'', ''ppc64le''} then Arch_POWERPC64 api
         else Arch_Unknown api))"
  by (auto simp: platform_def Let_def arch_from_uname_def split: option.splits)

end
