(* ===== verification/Process_Env.thy ===== *)
theory Process_Env
  imports Keyed_Table
begin

text \<open>
  The environment parser \<open>heim-process/src/sys/unix/env.rs\<close>: \<open>Environment::from_bytes\<close> with its
  loop over byte offsets, and the two iterators over the result.

  The theorems: the loop never slices out of range and always ends; it is equal to a reading that
  splits the block at its NUL bytes; a printed environment is read back as it was.
\<close>

type_synonym environment = "(bytes \<times> bytes) list"

text \<open>
  One round of the loop on the bytes from \<open>position\<close> on: \<open>None\<close> when the loop is left, otherwise
  the pair to push, if any, and the next position. Every slice is checked.
\<close>

definition from_bytes_round ::
    "bytes \<Rightarrow> nat \<Rightarrow> (((bytes \<times> bytes) option \<times> nat) option, heim_error) outcome" where
  "from_bytes_round bytes position =
     and_then (byte_slice_from bytes position) (\<lambda>rest.
       (case memchr NUL rest of
          None \<Rightarrow> Ok None
        | Some offset \<Rightarrow>
            if offset = 0 then Ok None
            else
              and_then (byte_slice bytes position (position + offset)) (\<lambda>kv.
              and_then (byte_slice_from kv 1) (\<lambda>kv1.
                (case memchr (CHR ''='') kv1 of
                   None \<Rightarrow> Ok (Some (None, position + (offset + 1)))
                 | Some delimiter0 \<Rightarrow>
                     (let delimiter = delimiter0 + 1 in
                      and_then (byte_slice kv 0 delimiter) (\<lambda>key.
                      and_then (byte_slice_from kv (delimiter + 1)) (\<lambda>val.
                        Ok (Some (Some (key, val), position + (offset + 1)))))))))))"

text \<open>
  The loop. \<open>None\<close> is a loop that runs forever; each round moves the position forward, so that
  never happens.
\<close>

partial_function (option) from_bytes_loop ::
    "bytes \<Rightarrow> nat \<Rightarrow> environment \<Rightarrow> (environment, heim_error) outcome option" where
  "from_bytes_loop bytes position result =
     (case from_bytes_round bytes position of
        Panic \<Rightarrow> Some Panic
      | Err e \<Rightarrow> Some (Err e)
      | Ok None \<Rightarrow> Some (Ok result)
      | Ok (Some (kv, position')) \<Rightarrow>
          from_bytes_loop bytes position' (case kv of None \<Rightarrow> result | Some p \<Rightarrow> result @ [p]))"

declare from_bytes_loop.simps [code]

definition Environment_from_bytes :: "bytes \<Rightarrow> (environment, heim_error) outcome option" where
  "Environment_from_bytes bytes = from_bytes_loop bytes 0 []"

text \<open>The iterators step through the vector in order.\<close>

definition EnvironmentIter_next :: "environment \<Rightarrow> (bytes \<times> bytes) option \<times> environment" where
  "EnvironmentIter_next it =
     (case it of [] \<Rightarrow> (None, []) | kv # rest \<Rightarrow> (Some kv, rest))"

definition EnvironmentIter_size_hint :: "environment \<Rightarrow> nat \<times> nat option" where
  "EnvironmentIter_size_hint it = (length it, Some (length it))"

section \<open>The reference reading\<close>

text \<open>
  What the parser means: split the block at its NUL bytes, drop the unterminated tail, stop at the
  first empty piece, and cut each piece at the first equals sign that is not its first byte; pieces
  without one are skipped.
\<close>

definition split_pair :: "bytes \<Rightarrow> (bytes \<times> bytes) option" where
  "split_pair kv =
     (case memchr (CHR ''='') (tl kv) of
        None \<Rightarrow> None
      | Some k \<Rightarrow> Some (take (Suc k) kv, drop (Suc (Suc k)) kv))"

definition env_pieces :: "bytes \<Rightarrow> bytes list" where
  "env_pieces bytes = takeWhile (\<lambda>p. p \<noteq> []) (butlast (split_char NUL bytes))"

definition env_spec :: "bytes \<Rightarrow> environment" where
  "env_spec bytes = List.map_filter split_pair (env_pieces bytes)"

lemma from_bytes_round_spec:
  assumes "position \<le> length bytes"
  shows "from_bytes_round bytes position =
    (case memchr NUL (drop position bytes) of
       None \<Rightarrow> Ok None
     | Some offset \<Rightarrow>
         if offset = 0 then Ok None
         else Ok (Some (split_pair (take offset (drop position bytes)), position + offset + 1)))"
proof (cases "memchr NUL (drop position bytes)")
  case None
  with assms show ?thesis by (simp add: from_bytes_round_def byte_slice_from_def)
next
  case (Some offset)
  let ?kv = "take offset (drop position bytes)"
  have off: "position + offset \<le> length bytes"
    using memchr_SomeD(3) [OF Some] by simp
  show ?thesis
  proof (cases "offset = 0")
    case True
    with assms Some show ?thesis by (simp add: from_bytes_round_def byte_slice_from_def)
  next
    case False
    have kv: "length ?kv = offset" using off by simp
    show ?thesis
    proof (cases "memchr (CHR ''='') (drop 1 ?kv)")
      case None
      with assms Some False off show ?thesis
        by (simp add: from_bytes_round_def byte_slice_from_def byte_slice_def split_pair_def
            tl_drop drop_Suc)
    next
      case (Some d)
      have "d + 2 \<le> offset"
        using memchr_SomeD(3) [OF Some] kv False by simp
      with assms \<open>memchr NUL (drop position bytes) = Some offset\<close> Some False off show ?thesis
        by (simp add: from_bytes_round_def byte_slice_from_def byte_slice_def split_pair_def
            tl_drop drop_Suc)
    qed
  qed
qed

lemma env_spec_step:
  assumes "memchr NUL bytes = Some offset"
  shows "env_spec bytes =
    (if offset = 0 then []
     else (case split_pair (take offset bytes) of None \<Rightarrow> [] | Some p \<Rightarrow> [p])
       @ env_spec (drop (offset + 1) bytes))"
proof -
  have "split_char NUL bytes = take offset bytes # split_char NUL (drop (Suc offset) bytes)"
    using memchr_SomeD [OF assms] split_char_append [of NUL "take offset bytes" "drop (Suc offset) bytes"]
    by metis
  moreover have "take offset bytes = [] \<longleftrightarrow> offset = 0"
    using memchr_SomeD(3) [OF assms] by auto
  moreover have "split_char NUL (drop (Suc offset) bytes) \<noteq> []"
    by (simp add: split_char_def)
  ultimately show ?thesis
    by (auto simp: env_spec_def env_pieces_def map_filter_simps split: option.splits)
qed

lemma env_spec_end: "memchr NUL bytes = None \<Longrightarrow> env_spec bytes = []"
  by (simp add: env_spec_def env_pieces_def memchr_None_iff map_filter_simps)

lemma from_bytes_loop_spec:
  "position \<le> length bytes \<Longrightarrow>
   from_bytes_loop bytes position result = Some (Ok (result @ env_spec (drop position bytes)))"
proof (induction "length bytes - position" arbitrary: position result rule: less_induct)
  case less
  show ?case
  proof (cases "memchr NUL (drop position bytes)")
    case None
    with less.prems show ?thesis
      by (simp add: from_bytes_loop.simps from_bytes_round_spec env_spec_end)
  next
    case (Some offset)
    have off: "position + offset < length bytes"
      using memchr_SomeD(3) [OF Some] by simp
    show ?thesis
    proof (cases "offset = 0")
      case True
      with Some less.prems show ?thesis
        by (subst from_bytes_loop.simps) (simp add: from_bytes_round_spec env_spec_step [OF Some])
    next
      case False
      have "from_bytes_loop bytes (position + offset + 1) r
          = Some (Ok (r @ env_spec (drop (position + offset + 1) bytes)))" for r
        using less.hyps [of "position + offset + 1" r] off by simp
      with Some False less.prems show ?thesis
        by (subst from_bytes_loop.simps)
           (simp add: from_bytes_round_spec env_spec_step [OF Some] add.commute split: option.splits)
    qed
  qed
qed

section \<open>Properties\<close>

text \<open>
  (C1) Parsing an environment block always returns: no input makes a slice panic and none keeps the
  loop running, and the result is the one of the reference reading.
\<close>

theorem Environment_from_bytes_spec: "Environment_from_bytes bytes = Some (Ok (env_spec bytes))"
  by (simp add: Environment_from_bytes_def from_bytes_loop_spec)

definition render_env :: "environment \<Rightarrow> bytes" where
  "render_env env = concat (map (\<lambda>(k, v). k @ ''='' @ v @ [NUL]) env)"

text \<open>A variable the kernel's block can hold: a key that is not empty, has no equals sign behind its
  first byte, and no NUL bytes.\<close>

definition env_ok :: "bytes \<times> bytes \<Rightarrow> bool" where
  "env_ok kv \<longleftrightarrow> fst kv \<noteq> [] \<and> CHR ''='' \<notin> set (tl (fst kv)) \<and> NUL \<notin> set (fst kv) \<and> NUL \<notin> set (snd kv)"

lemma split_pair_render: "env_ok (k, v) \<Longrightarrow> split_pair (k @ CHR ''='' # v) = Some (k, v)"
  by (cases k) (auto simp: split_pair_def env_ok_def)

lemma env_spec_render:
  "list_all env_ok env \<Longrightarrow> tail = [] \<or> hd tail = NUL \<Longrightarrow> env_spec (render_env env @ tail) = env"
proof (induction env)
  case Nil
  show ?case
  proof (cases tail)
    case Nil
    then show ?thesis by (simp add: render_env_def env_spec_end memchr_None_iff)
  next
    case (Cons c cs)
    with Nil.prems have "memchr NUL tail = Some 0" by (simp add: memchr_def)
    then show ?thesis by (simp add: render_env_def env_spec_step)
  qed
next
  case (Cons p env)
  obtain k v where p: "p = (k, v)" by force
  let ?kv = "k @ CHR ''='' # v"
  have ok: "env_ok (k, v)" and "NUL \<notin> set ?kv" "?kv \<noteq> []"
    using Cons.prems p by (auto simp: env_ok_def)
  then have "memchr NUL (?kv @ NUL # render_env env @ tail) = Some (length ?kv)"
    using memchr_append [of NUL ?kv] by simp
  moreover have "render_env (p # env) @ tail = ?kv @ NUL # render_env env @ tail"
    by (simp add: render_env_def p)
  ultimately show ?case
    using Cons split_pair_render [OF ok] by (simp add: env_spec_step p)
qed

text \<open>
  Round trip: a block made of the given variables, with values that may contain equals signs,
  is read back as these variables in order; a block that goes on after an empty piece gives the same,
  since parsing stops there.
\<close>

theorem Environment_roundtrip:
  assumes "list_all env_ok env" "tail = [] \<or> hd tail = NUL"
  shows "Environment_from_bytes (render_env env @ tail) = Some (Ok env)"
  using env_spec_render [OF assms] by (simp add: Environment_from_bytes_def from_bytes_loop_spec)

theorem Environment_roundtrip_witness:
  "Environment_from_bytes (render_env [(''HOME'', ''/root''), (''=C:'', ''a=b''), (''E'', '''')] @ [NUL, CHR ''x''])
     = Some (Ok [(''HOME'', ''/root''), (''=C:'', ''a=b''), (''E'', '''')])"
  by (rule Environment_roundtrip) (simp_all add: env_ok_def)

text \<open>
  Every pair of the result really is in the block: key, equals sign and value are one of the
  NUL-terminated pieces, and the key is never empty.
\<close>

theorem Environment_pairs_sound:
  assumes "Environment_from_bytes bytes = Some (Ok env)" "(k, v) \<in> set env"
  shows "k @ CHR ''='' # v \<in> set (split_char NUL bytes) \<and> k \<noteq> []"
proof -
  have "env = env_spec bytes" using assms(1) by (simp add: Environment_from_bytes_def from_bytes_loop_spec)
  with assms(2) obtain p where p: "p \<in> set (env_pieces bytes)" "split_pair p = Some (k, v)"
    by (auto simp: env_spec_def map_filter_def)
  then have "p \<in> set (split_char NUL bytes)" "p \<noteq> []"
    by (auto simp: env_pieces_def dest: set_takeWhileD in_set_butlastD)
  moreover from p(2) obtain d where d: "memchr (CHR ''='') (tl p) = Some d" "k = take (Suc d) p"
    "v = drop (Suc (Suc d)) p"
    by (auto simp: split_pair_def split: option.splits)
  moreover have "p = k @ CHR ''='' # v"
    using memchr_SomeD(1) [OF d(1)] d(2,3) \<open>p \<noteq> []\<close> by (cases p) auto
  moreover have "k \<noteq> []" using d(2) \<open>p \<noteq> []\<close> by simp
  ultimately show ?thesis by metis
qed

theorem Environment_pairs_sound_witness:
  "''A'' @ CHR ''='' # ''1'' \<in> set (split_char NUL (render_env [(''A'', ''1'')])) \<and> ''A'' \<noteq> ''''"
proof (rule Environment_pairs_sound)
  show "Environment_from_bytes (render_env [(''A'', ''1'')]) = Some (Ok [(''A'', ''1'')])"
    using env_spec_render [of "[(''A'', ''1'')]" "[]"]
    by (simp add: Environment_from_bytes_def from_bytes_loop_spec env_ok_def)
qed simp

end
