(* ===== verification/Process_Command.thy ===== *)
theory Process_Command
  imports Keyed_Table
begin

text \<open>
  The command line of a process, \<open>heim-process/src/sys/linux/process/procfs/command.rs\<close>: the choice
  of the delimiter from the last byte, the text form, and the iterator over the arguments.

  The theorems: arguments printed with trailing delimiters are read back exactly and joined with
  spaces in the text form; a last argument that lacks its delimiter is not yielded.
\<close>

datatype delimiter = Null | Space

fun Delimiter_as_char :: "delimiter \<Rightarrow> char" where
  "Delimiter_as_char Null = NUL"
| "Delimiter_as_char Space = SP"

definition Delimiter_from :: "char \<Rightarrow> delimiter" where
  "Delimiter_from raw = (if raw = NUL then Null else if raw = SP then Space else Null)"

record command =
  cmd_line :: bytes
  cmd_delimiter :: delimiter

definition Command_from :: "bytes \<Rightarrow> command" where
  "Command_from os_string =
     \<lparr>cmd_line = os_string,
      cmd_delimiter = (if os_string = [] then Null else Delimiter_from (last os_string))\<rparr>"

definition with_spaces :: "bytes \<Rightarrow> bytes" where
  "with_spaces line = butlast (map (\<lambda>b. if b = NUL then SP else b) line)"

definition to_os_string :: "command \<Rightarrow> bytes" where
  "to_os_string c =
     (case cmd_delimiter c of Space \<Rightarrow> cmd_line c | Null \<Rightarrow> with_spaces (cmd_line c))"

text \<open>The consuming variant has the same body.\<close>

definition into_os_string :: "command \<Rightarrow> bytes" where
  "into_os_string c =
     (case cmd_delimiter c of Space \<Rightarrow> cmd_line c | Null \<Rightarrow> with_spaces (cmd_line c))"

record command_iter =
  ci_line :: bytes
  ci_delimiter :: delimiter
  ci_position :: nat

definition Command_into_iter :: "command \<Rightarrow> command_iter" where
  "Command_into_iter c =
     \<lparr>ci_line = cmd_line c, ci_delimiter = cmd_delimiter c, ci_position = 0\<rparr>"

definition CommandIter_next ::
    "command_iter \<Rightarrow> (bytes option \<times> command_iter, heim_error) outcome" where
  "CommandIter_next it =
     (if length (ci_line it) \<le> ci_position it then Ok (None, it)
      else
        and_then (byte_slice_from (ci_line it) (ci_position it)) (\<lambda>bytes.
          (case memchr (Delimiter_as_char (ci_delimiter it)) bytes of
             Some offset \<Rightarrow>
               and_then (byte_slice bytes 0 offset) (\<lambda>slice.
                 Ok (Some slice, it\<lparr>ci_position := ci_position it + (offset + 1)\<rparr>))
           | None \<Rightarrow> Ok (None, it))))"

text \<open>Draining the iterator, with a bound on the calls.\<close>

fun drain :: "nat \<Rightarrow> command_iter \<Rightarrow> (bytes list, heim_error) outcome option" where
  "drain 0 it = None"
| "drain (Suc n) it =
     (case CommandIter_next it of
        Panic \<Rightarrow> Some Panic
      | Err e \<Rightarrow> Some (Err e)
      | Ok (None, it') \<Rightarrow> Some (Ok [])
      | Ok (Some arg, it') \<Rightarrow> map_option (map_ok (Cons arg)) (drain n it'))"

definition Command_args :: "command \<Rightarrow> (bytes list, heim_error) outcome option" where
  "Command_args c = drain (Suc (length (cmd_line c))) (Command_into_iter c)"

section \<open>Properties\<close>

text \<open>The arguments left from a position on: the delimited pieces, without the last one.\<close>

definition args_left :: "command_iter \<Rightarrow> bytes list" where
  "args_left it = butlast (split_char (Delimiter_as_char (ci_delimiter it)) (drop (ci_position it) (ci_line it)))"

lemma CommandIter_next_spec:
  "CommandIter_next it =
     (case memchr (Delimiter_as_char (ci_delimiter it)) (drop (ci_position it) (ci_line it)) of
        None \<Rightarrow> Ok (None, it)
      | Some k \<Rightarrow> Ok (Some (take k (drop (ci_position it) (ci_line it))),
          it\<lparr>ci_position := ci_position it + k + 1\<rparr>))"
proof (cases "length (ci_line it) \<le> ci_position it")
  case True
  then show ?thesis by (simp add: CommandIter_next_def memchr_def)
next
  case False
  then show ?thesis
    using memchr_SomeD(3) [of "Delimiter_as_char (ci_delimiter it)" "drop (ci_position it) (ci_line it)"]
    by (fastforce simp: CommandIter_next_def byte_slice_from_def byte_slice_def split: option.splits)
qed

lemma drain_args_left:
  "length (ci_line it) - ci_position it < n \<Longrightarrow> drain n it = Some (Ok (args_left it))"
proof (induction n arbitrary: it)
  case 0
  then show ?case by simp
next
  case (Suc n)
  let ?d = "Delimiter_as_char (ci_delimiter it)" and ?s = "drop (ci_position it) (ci_line it)"
  show ?case
  proof (cases "memchr ?d ?s")
    case None
    then have "args_left it = []" by (simp add: args_left_def memchr_None_iff)
    with None show ?thesis by (simp add: CommandIter_next_spec)
  next
    case (Some k)
    let ?it = "it\<lparr>ci_position := ci_position it + k + 1\<rparr>"
    have k: "ci_position it + k < length (ci_line it)" using memchr_SomeD(3) [OF Some] by simp
    have "split_char ?d ?s = take k ?s # split_char ?d (drop (Suc k) ?s)"
      using memchr_SomeD(1,2) [OF Some] split_char_append by metis
    moreover have "split_char ?d (drop (Suc k) ?s) \<noteq> []" by (simp add: split_char_def)
    ultimately have "args_left it = take k ?s # args_left ?it"
      by (simp add: args_left_def add.commute)
    moreover have "drain n ?it = Some (Ok (args_left ?it))"
      using Suc.prems k by (intro Suc.IH) simp
    ultimately show ?thesis using Some by (simp add: CommandIter_next_spec)
  qed
qed

lemma Command_args_spec:
  "Command_args c =
     Some (Ok (butlast (split_char (Delimiter_as_char (cmd_delimiter c)) (cmd_line c))))"
  by (simp add: Command_args_def drain_args_left Command_into_iter_def args_left_def del: drain.simps)

definition render_args :: "char \<Rightarrow> bytes list \<Rightarrow> bytes" where
  "render_args d args = concat (map (\<lambda>a. a @ [d]) args)"

lemma split_char_render_args:
  "\<forall>a\<in>set args. d \<notin> set a \<Longrightarrow> d \<notin> set t \<Longrightarrow> split_char d (render_args d args @ t) = args @ [t]"
  by (induction args) (auto simp: render_args_def split_char_append)

lemma last_render_args: "args \<noteq> [] \<Longrightarrow> last (render_args d args) = d"
  by (induction args) (auto simp: render_args_def)

lemma render_args_ne: "args \<noteq> [] \<Longrightarrow> render_args d args \<noteq> []"
  by (cases args) (auto simp: render_args_def)

text \<open>
  (C34) Round trip, for both delimiters: a command line of at least one argument in which every one is followed by
  the delimiter is split into exactly these arguments, whatever other bytes they hold; iterating ends
  and never panics.
\<close>

theorem Command_args_roundtrip:
  assumes "\<forall>a\<in>set args. Delimiter_as_char d \<notin> set a" "args \<noteq> []"
  shows "Command_args (Command_from (render_args (Delimiter_as_char d) args)) = Some (Ok args)"
  using assms split_char_render_args [of args "Delimiter_as_char d" "[]"]
  by (cases d)
     (simp_all add: Command_args_spec Command_from_def Delimiter_from_def last_render_args render_args_ne)

theorem Command_args_roundtrip_witness:
  "Command_args (Command_from (render_args (Delimiter_as_char Null) [''/usr/bin/a b'', '''', ''-u'']))
     = Some (Ok [''/usr/bin/a b'', '''', ''-u''])"
  by (rule Command_args_roundtrip) simp_all

lemma map_spaces_id: "NUL \<notin> set a \<Longrightarrow> map (\<lambda>b. if b = NUL then SP else b) a = a"
  by (induction a) auto

text \<open>
  Text after the last delimiter: with a last argument that ends in some other byte, so that the
  delimiter is taken to be NUL, iterating gives only the arguments before it, and the text form
  loses that argument's last byte, which is dropped as if it were the delimiter.
\<close>

theorem Command_unterminated:
  assumes "\<forall>a\<in>set args. NUL \<notin> set a" "NUL \<notin> set t" "t \<noteq> []" "last t \<noteq> SP"
  shows "Command_args (Command_from (render_args NUL args @ t)) = Some (Ok args) \<and>
    to_os_string (Command_from (render_args NUL args @ t)) = render_args SP args @ butlast t"
proof -
  have "last t \<noteq> NUL" using assms(2,3) last_in_set by metis
  then have d: "cmd_delimiter (Command_from (render_args NUL args @ t)) = Null"
    using assms(3,4) by (simp add: Command_from_def Delimiter_from_def)
  have "map (\<lambda>b. if b = NUL then SP else b) (render_args NUL args) = render_args SP args"
    using assms(1) by (induction args) (simp_all add: render_args_def map_spaces_id)
  then have "with_spaces (render_args NUL args @ t) = render_args SP args @ butlast t"
    using assms(3) by (simp add: with_spaces_def map_spaces_id [OF assms(2)] butlast_append)
  with d show ?thesis
    using split_char_render_args [OF assms(1,2)]
    by (simp add: Command_args_spec to_os_string_def) (simp add: Command_from_def)
qed

theorem Command_unterminated_witness:
  "Command_args (Command_from (render_args NUL [''ssh''] @ ''host'')) = Some (Ok [''ssh'']) \<and>
   to_os_string (Command_from (render_args NUL [''ssh''] @ ''host'')) = ''ssh hos''"
  using Command_unterminated [of "[''ssh'']" "''host''"] by (simp add: render_args_def)

text \<open>
  The text form of a NUL-delimited command line is the arguments joined with single spaces,
  without the delimiter at the end.
\<close>

theorem to_os_string_join:
  assumes "\<forall>a\<in>set args. NUL \<notin> set a" "args \<noteq> []"
  shows "to_os_string (Command_from (render_args NUL args)) = join_with [SP] args"
proof -
  have "butlast (map (\<lambda>b. if b = NUL then SP else b) (render_args NUL args)) = join_with [SP] args"
    using assms
  proof (induction "[SP]" args rule: join_with.induct)
    case (3 p q ps)
    moreover have "render_args NUL (q # ps) \<noteq> []" by (simp add: render_args_ne)
    ultimately show ?case
      using map_spaces_id [of p] by (simp add: render_args_def butlast_append)
  qed (simp_all add: render_args_def map_spaces_id)
  with assms(2) show ?thesis
    by (simp add: to_os_string_def with_spaces_def Command_from_def Delimiter_from_def last_render_args
        render_args_ne)
qed

theorem to_os_string_join_witness:
  "to_os_string (Command_from (render_args NUL [''a'', ''b'', ''c''])) = ''a b c''"
  using to_os_string_join [of "[''a'', ''b'', ''c'']"] by simp

end
