(* ===== verification/Process_Procfs.thy ===== *)
theory Process_Procfs
  imports Process_Types Host_Linux Process_Env Process_Command
begin

text \<open>
  The readers of the files under \<open>/proc/<pid>\<close>, \<open>heim-process/src/sys/linux/process/procfs/\<close>:
  \<open>paths.rs\<close>, \<open>stat.rs\<close>, \<open>statm.rs\<close>, \<open>io.rs\<close>, \<open>cpu_times.rs\<close>, and the file access of
  \<open>command.rs\<close> and \<open>env.rs\<close>.

  The theorems: a stat line is read back exactly, even when the process name contains spaces and
  parentheses; a line cut off right behind the name panics; the start time is never NaN; the memory
  and I/O tables are read back exactly.
\<close>

definition process_file_path :: "'h host_scheme \<Rightarrow> pid \<Rightarrow> string \<Rightarrow> path" where
  "process_file_path h pid filename = join_path (join_path (procfs h) (show_i32 pid)) filename"

section \<open>stat\<close>

record stat =
  stat_pid :: pid
  stat_name :: string
  stat_state :: status
  stat_ppid :: pid
  stat_create_time :: fval
  stat_utime :: fval
  stat_stime :: fval
  stat_cutime :: fval
  stat_cstime :: fval

text \<open>
  \<open>Stat::from_str\<close>. Runs of fields that are read and dropped are read together; the debug
  assertion on the start time is kept as a panic.
\<close>

definition Stat_from_str :: "'h host_scheme \<Rightarrow> string \<Rightarrow> (stat, heim_error) outcome" where
  "Stat_from_str h s =
     and_then (try_parse_next from_str_i32 (splitn 2 SP s)) (\<lambda>(pid, parts).
     and_then (try_next parts) (\<lambda>(leftover, _).
     and_then (ok_or (rfind (CHR '')'') leftover) (Error_from_io (Simple InvalidData))) (\<lambda>comm_end.
     and_then (str_slice leftover 1 comm_end) (\<lambda>name.
     and_then (str_slice_from leftover (comm_end + 2)) (\<lambda>rest.
     and_then (try_next (split_whitespace rest)) (\<lambda>(str, parts).
     and_then (ok_or (first_char str) (Error_from_io (Simple InvalidData))) (\<lambda>chr.
     and_then (Status_try_from_char chr) (\<lambda>state.
     and_then (try_parse_next from_str_i32 parts) (\<lambda>(ppid, parts).
     and_then (parse_fields from_str_i32 4 parts) (\<lambda>(pgrp_session_tty_tpgid, parts).
     and_then (try_parse_next from_str_u32 parts) (\<lambda>(flags, parts).
     and_then (parse_fields from_str_u64 4 parts) (\<lambda>(minflt_cminflt_majflt_cmajflt, parts).
     and_then (try_parse_next from_str_u64 parts) (\<lambda>(utime, parts).
     and_then (try_parse_next from_str_u64 parts) (\<lambda>(stime, parts).
     and_then (try_parse_next from_str_u64 parts) (\<lambda>(cutime, parts).
     and_then (try_parse_next from_str_u64 parts) (\<lambda>(cstime, parts).
     and_then (parse_fields from_str_i64 4 parts) (\<lambda>(priority_nice_threads_itreal, parts).
     and_then (try_parse_next from_str_u64 parts) (\<lambda>(start_ticks, parts).
     and_then (parse_fields from_str_i64 2 parts) (\<lambda>(vsize_rss, parts).
     and_then (try_parse_next from_str_u64 parts) (\<lambda>(rsslim, parts).
     and_then (CLOCK_TICKS h) (\<lambda>clk.
       let ticks = f64_of_u64 clk;
           start_time = f_div rnd64 (f64_of_u64 start_ticks) ticks;
           seconds = (\<lambda>v. Time_new h (f_div rnd64 (f64_of_u64 v) ticks))
       in if start_time = NaN then Panic
          else Ok \<lparr>stat_pid = pid, stat_name = name, stat_state = state, stat_ppid = ppid,
                   stat_create_time = Time_new h start_time, stat_utime = seconds utime,
                   stat_stime = seconds stime, stat_cutime = seconds cutime,
                   stat_cstime = seconds cstime\<rparr>)))))))))))))))))))))"

definition stat_read :: "'h host_scheme \<Rightarrow> pid \<Rightarrow> (stat, process_error) outcome" where
  "stat_read h pid =
     (let path = process_file_path h pid ''stat'' in
      case read_to_string h path of
        Inl e \<Rightarrow>
          if io_kind e = NotFound then Err (NoSuchProcess pid)
          else Err (Load (with_file (Error_from_io e) path))
      | Inr contents \<Rightarrow>
          and_then (load (Stat_from_str h contents)) (\<lambda>stats.
          and_then (load (boot_time h)) (\<lambda>boot.
            Ok (stats\<lparr>stat_create_time := f_add rnd64 (stat_create_time stats) boot\<rparr>))))"

section \<open>CPU times\<close>

record proc_cpu_time =
  pct_utime :: fval
  pct_stime :: fval
  pct_children_utime :: fval
  pct_children_stime :: fval

definition CpuTime_from_stat :: "stat \<Rightarrow> proc_cpu_time" where
  "CpuTime_from_stat s =
     \<lparr>pct_utime = stat_utime s, pct_stime = stat_stime s,
      pct_children_utime = stat_cutime s, pct_children_stime = stat_cstime s\<rparr>"

section \<open>statm\<close>

definition PAGE_SIZE :: "'h host_scheme \<Rightarrow> u64" where
  "PAGE_SIZE h = sysconf_val h (SC_PAGESIZE h)"

record proc_memory =
  pm_size :: u64
  pm_resident :: u64
  pm_shared :: u64
  pm_text :: u64
  pm_data :: u64

text \<open>One field: a number of pages, in bytes.\<close>

definition try_pages ::
    "'h host_scheme \<Rightarrow> string list \<Rightarrow> (u64 \<times> string list, heim_error) outcome" where
  "try_pages h parts =
     and_then (try_parse_next from_str_u64 parts) (\<lambda>(value, parts).
       map_ok (\<lambda>bytes. (Information_new h Byte bytes, parts))
         (u64_mul (overflow_checks h) value (PAGE_SIZE h)))"

definition Statm_from_str :: "'h host_scheme \<Rightarrow> string \<Rightarrow> (proc_memory, heim_error) outcome" where
  "Statm_from_str h value =
     and_then (try_pages h (split_ascii_whitespace value)) (\<lambda>(size, parts).
     and_then (try_pages h parts) (\<lambda>(resident, parts).
     and_then (try_pages h parts) (\<lambda>(shared, parts).
     and_then (try_pages h parts) (\<lambda>(text, parts).
     and_then (try_pages h (drop 1 parts)) (\<lambda>(data, parts).
       Ok \<lparr>pm_size = size, pm_resident = resident, pm_shared = shared, pm_text = text,
           pm_data = data\<rparr>)))))"

definition stat_memory :: "'h host_scheme \<Rightarrow> pid \<Rightarrow> (proc_memory, process_error) outcome" where
  "stat_memory h pid = load (read_into h (Statm_from_str h) (process_file_path h pid ''statm''))"

section \<open>io\<close>

record proc_io =
  io_rchar :: u64
  io_wchar :: u64
  io_syscr :: u64
  io_syscw :: u64
  io_read_bytes :: u64
  io_write_bytes :: u64
  io_cancelled_write_bytes :: u64

definition IoCounters_default :: proc_io where
  "IoCounters_default =
     \<lparr>io_rchar = 0, io_wchar = 0, io_syscr = 0, io_syscw = 0, io_read_bytes = 0,
      io_write_bytes = 0, io_cancelled_write_bytes = 0\<rparr>"

definition chars_read :: "'h host_scheme \<Rightarrow> proc_io \<Rightarrow> u64" where
  "chars_read h c = Information_new h Byte (io_rchar c)"

definition chars_written :: "'h host_scheme \<Rightarrow> proc_io \<Rightarrow> u64" where
  "chars_written h c = Information_new h Byte (io_wchar c)"

definition bytes_read :: "'h host_scheme \<Rightarrow> proc_io \<Rightarrow> u64" where
  "bytes_read h c = Information_new h Byte (io_read_bytes c)"

definition bytes_written :: "'h host_scheme \<Rightarrow> proc_io \<Rightarrow> u64" where
  "bytes_written h c = Information_new h Byte (io_write_bytes c)"

definition cancelled_write_bytes :: "'h host_scheme \<Rightarrow> proc_io \<Rightarrow> u64" where
  "cancelled_write_bytes h c = Information_new h Byte (io_cancelled_write_bytes c)"

definition IoCounters_field :: "string \<Rightarrow> (u64 \<Rightarrow> proc_io \<Rightarrow> proc_io) option" where
  "IoCounters_field name =
     (if name = ''rchar:'' then Some (\<lambda>v c. c\<lparr>io_rchar := v\<rparr>)
      else if name = ''wchar:'' then Some (\<lambda>v c. c\<lparr>io_wchar := v\<rparr>)
      else if name = ''syscr:'' then Some (\<lambda>v c. c\<lparr>io_syscr := v\<rparr>)
      else if name = ''syscw:'' then Some (\<lambda>v c. c\<lparr>io_syscw := v\<rparr>)
      else if name = ''read_bytes:'' then Some (\<lambda>v c. c\<lparr>io_read_bytes := v\<rparr>)
      else if name = ''write_bytes:'' then Some (\<lambda>v c. c\<lparr>io_write_bytes := v\<rparr>)
      else if name = ''cancelled_write_bytes:'' then Some (\<lambda>v c. c\<lparr>io_cancelled_write_bytes := v\<rparr>)
      else None)"

fun IoCounters_scan :: "string list \<Rightarrow> proc_io \<Rightarrow> (proc_io, heim_error) outcome" where
  "IoCounters_scan [] counters = Ok counters"
| "IoCounters_scan (line # lines) counters =
     and_then (try_next (split_ascii_whitespace line)) (\<lambda>(name, parts).
       (case IoCounters_field name of
          None \<Rightarrow> IoCounters_scan lines counters
        | Some field \<Rightarrow>
            and_then (try_next parts) (\<lambda>(value, _).
            and_then (from_str_u64 value) (\<lambda>v.
              IoCounters_scan lines (field v counters)))))"

definition IoCounters_from_str :: "string \<Rightarrow> (proc_io, heim_error) outcome" where
  "IoCounters_from_str s = IoCounters_scan (str_lines s) IoCounters_default"

definition io_read :: "i32 \<Rightarrow> 'h host_scheme \<Rightarrow> pid \<Rightarrow> (proc_io, process_error) outcome" where
  "io_read EACCES h pid =
     (case read_to_string h (process_file_path h pid ''io'') of
        Inr contents \<Rightarrow> load (IoCounters_from_str contents)
      | Inl e \<Rightarrow>
          if io_raw_os_error e = Some EACCES then Err (AccessDenied pid)
          else Err (ProcessError_from_io e))"

section \<open>cmdline and environ\<close>

definition command_read :: "'h host_scheme \<Rightarrow> pid \<Rightarrow> (command, process_error) outcome" where
  "command_read h pid =
     (case read_to_string h (process_file_path h pid ''cmdline'') of
        Inr contents \<Rightarrow> Ok (Command_from contents)
      | Inl e \<Rightarrow>
          if io_kind e = NotFound then Err (NoSuchProcess pid) else Err (ProcessError_from_io e))"

text \<open>The parser always returns a value, so the loop's \<open>None\<close> is not reached.\<close>

definition environment_read :: "'h host_scheme \<Rightarrow> pid \<Rightarrow> (environment, process_error) outcome option" where
  "environment_read h pid =
     (case file_data h (process_file_path h pid ''environ'') of
        Inr contents \<Rightarrow> map_option load (Environment_from_bytes contents)
      | Inl e \<Rightarrow> Some (
          if io_kind e = NotFound then Err (NoSuchProcess pid)
          else if io_kind e = PermissionDenied then Err (AccessDenied pid)
          else Err (ProcessError_from_io e)))"

section \<open>The stat line\<close>

text \<open>A line as the kernel prints it, with the groups of fields the parser reads.\<close>

record stat_line =
  sl_pid :: pid
  sl_comm :: string
  sl_state :: char
  sl_ppid :: pid
  sl_ids :: "i32 list"
  sl_flags :: u32
  sl_faults :: "u64 list"
  sl_utime :: u64
  sl_stime :: u64
  sl_cutime :: u64
  sl_cstime :: u64
  sl_prio :: "i64 list"
  sl_start :: u64
  sl_mem :: "i64 list"
  sl_rsslim :: u64
  sl_more :: "string list"

definition stat_tokens :: "stat_line \<Rightarrow> string list" where
  "stat_tokens l =
     [sl_state l] # show_i32 (sl_ppid l) # map show_i32 (sl_ids l) @ show_u32 (sl_flags l) #
     map show_u64 (sl_faults l) @ show_u64 (sl_utime l) # show_u64 (sl_stime l) #
     show_u64 (sl_cutime l) # show_u64 (sl_cstime l) # map show_i64 (sl_prio l) @
     show_u64 (sl_start l) # map show_i64 (sl_mem l) @ show_u64 (sl_rsslim l) # sl_more l"

definition render_stat :: "stat_line \<Rightarrow> string" where
  "render_stat l = show_i32 (sl_pid l) @ '' ('' @ sl_comm l @ '') '' @ join_with [SP] (stat_tokens l) @ [NL]"

text \<open>
  The name is any text, with spaces, brackets and line breaks; the fields the parser ignores at the
  end are any words without a closing bracket.
\<close>

definition stat_line_ok :: "stat_line \<Rightarrow> bool" where
  "stat_line_ok l \<longleftrightarrow> utf8_valid (sl_comm l) \<and> sl_state l \<in> set ''RSDZTtXxKWPI''
     \<and> length (sl_ids l) = 4 \<and> length (sl_faults l) = 4 \<and> length (sl_prio l) = 4
     \<and> length (sl_mem l) = 2 \<and> list_all (\<lambda>t. token t \<and> CHR '')'' \<notin> set t) (sl_more l)"

lemma digit_char_neq_paren: "d < 10 \<Longrightarrow> digit_char d \<noteq> CHR '')''"
  using byte_digit_char [of d] by (auto simp: byte_def)

lemma show_no_paren [simp]:
  "CHR '')'' \<notin> set (show_nat n)" "CHR '')'' \<notin> set (show_int i)"
  "CHR '')'' \<notin> set (show_i32 a)" "CHR '')'' \<notin> set (show_u32 b)" "CHR '')'' \<notin> set (show_u64 c)"
  "CHR '')'' \<notin> set (show_i64 d)"
proof -
  show n: "CHR '')'' \<notin> set (show_nat n)" for n
    using show_nat_digits [of "CHR '')''" n] digit_char_neq_paren by metis
  show i: "CHR '')'' \<notin> set (show_int i)" for i
    using n by (simp add: show_int_def)
  show "CHR '')'' \<notin> set (show_i32 a)" "CHR '')'' \<notin> set (show_u32 b)"
    "CHR '')'' \<notin> set (show_u64 c)" "CHR '')'' \<notin> set (show_i64 d)"
    using n i by (simp_all add: show_i32_def show_u32_def show_u64_def show_i64_def)
qed

lemma token_state: "c \<in> set ''RSDZTtXxKWPI'' \<Longrightarrow> token [c] \<and> c \<noteq> CHR '')'' \<and> char_len c = 1"
  by (auto simp: token_def solid_def ascii_ws1_def char_len_def byte_def)

lemma status_letter: "c \<in> set ''RSDZTtXxKWPI'' \<Longrightarrow> \<exists>st. Status_try_from_char [c] = Ok st"
  by (auto simp: Status_try_from_char_def)

lemma stat_tokens_ok:
  assumes "stat_line_ok l"
  shows "list_all token (stat_tokens l)" "\<forall>t\<in>set (stat_tokens l). CHR '')'' \<notin> set t"
proof -
  note st = token_state [of "sl_state l"]
  show "list_all token (stat_tokens l)"
    using assms st
    by (auto simp: stat_tokens_def stat_line_ok_def list_all_iff u32_str.show_token i64_str.show_token)
  show "\<forall>t\<in>set (stat_tokens l). CHR '')'' \<notin> set t"
    using assms st by (auto simp: stat_tokens_def stat_line_ok_def list_all_iff)
qed

lemma set_join_with: "set (join_with sep ts) \<subseteq> (\<Union>t\<in>set ts. set t) \<union> set sep"
  by (induction sep ts rule: join_with.induct) auto

lemma utf8_valid_hd: "utf8_valid (c # r) \<Longrightarrow> \<not> (0x80 \<le> byte c \<and> byte c \<le> 0xBF)"
  by (auto simp: utf8_valid.simps(2) Let_def split: if_splits)

lemma byte_paren: "byte (CHR '')'') = 41" and byte_SP: "byte SP = 32"
  by (simp_all add: byte_def)

text \<open>The name is cut out between the brackets, whatever it contains.\<close>

lemma comm_slices:
  assumes "utf8_valid comm" "CHR '')'' \<notin> set (SP # rest)" "rest \<noteq> []" "byte (hd rest) < 0x80"
  shows "rfind (CHR '')'') (CHR ''('' # comm @ CHR '')'' # SP # rest) = Some (Suc (length comm))"
    "str_slice (CHR ''('' # comm @ CHR '')'' # SP # rest) 1 (Suc (length comm)) = Ok comm"
    "str_slice_from (CHR ''('' # comm @ CHR '')'' # SP # rest) (Suc (length comm) + 2) = Ok rest"
proof -
  let ?s = "CHR ''('' # comm @ CHR '')'' # SP # rest"
  show "rfind (CHR '')'') ?s = Some (Suc (length comm))"
    using rfind_append [of "CHR '')''" "SP # rest" "CHR ''('' # comm"] assms(2) by simp
  have "is_char_boundary ?s 1"
    using assms(1) utf8_valid_hd by (cases comm) (auto simp: is_char_boundary_def byte_paren)
  moreover have "is_char_boundary ?s (Suc (length comm))"
    by (simp add: is_char_boundary_def nth_append byte_paren)
  ultimately show "str_slice ?s 1 (Suc (length comm)) = Ok comm"
    by (simp add: str_slice_def)
  obtain c rs where r: "rest = c # rs" using assms(3) by (cases rest) auto
  have "is_char_boundary ?s (Suc (length comm) + 2)"
    using assms(4) by (simp add: is_char_boundary_def nth_append r)
  then show "str_slice_from ?s (Suc (length comm) + 2) = Ok rest"
    by (simp add: str_slice_from_def r)
qed

lemma parse_fields_exact:
  "length xs = n \<Longrightarrow> parse_fields from_str_i32 n (map show_i32 xs @ it) = Ok (xs, it)"
  "length ys = n \<Longrightarrow> parse_fields from_str_u64 n (map show_u64 ys @ it) = Ok (ys, it)"
  "length zs = n \<Longrightarrow> parse_fields from_str_i64 n (map show_i64 zs @ it) = Ok (zs, it)"
  using i32_str.parse_fields_show [of xs it] u64_str.parse_fields_show [of ys it]
    i64_str.parse_fields_show [of zs it] by auto

lemma CLOCK_TICKS_ne_0: "CLOCK_TICKS h = Ok clk \<Longrightarrow> clk \<noteq> 0"
  using clock_ticks_pos [of h clk] by (auto simp: CLOCK_TICKS_def split: outcome.splits)

lemma Stat_line_lemma:
  fixes l :: stat_line and h :: "'h host_scheme"
  assumes "stat_line_ok l" "CLOCK_TICKS h = Ok clk"
  defines "seconds \<equiv> \<lambda>v. Time_new h (f_div rnd64 (f64_of_u64 v) (f64_of_u64 clk))"
  shows "\<exists>st. Status_try_from_char [sl_state l] = Ok st \<and>
    Stat_from_str h (render_stat l) =
      Ok \<lparr>stat_pid = sl_pid l, stat_name = sl_comm l, stat_state = st, stat_ppid = sl_ppid l,
          stat_create_time = seconds (sl_start l), stat_utime = seconds (sl_utime l),
          stat_stime = seconds (sl_stime l), stat_cutime = seconds (sl_cutime l),
          stat_cstime = seconds (sl_cstime l)\<rparr>"
proof -
  note ok = assms(1) [unfolded stat_line_ok_def]
  from ok obtain st where st: "Status_try_from_char [sl_state l] = Ok st" using status_letter by blast
  define rest where "rest = join_with [SP] (stat_tokens l) @ [NL]"
  have toks: "stat_tokens l \<noteq> []" by (simp add: stat_tokens_def)
  have hd_rest: "rest \<noteq> []" "hd rest = sl_state l"
    by (auto simp: rest_def stat_tokens_def neq_Nil_conv split: list.splits)
  have no_paren: "CHR '')'' \<notin> set (SP # rest)"
    using stat_tokens_ok(2) [OF assms(1)] set_join_with [of "[SP]" "stat_tokens l"]
    by (auto simp: rest_def)
  have "byte (hd rest) < 0x80" using ok hd_rest(2) by (auto simp: byte_def)
  note slices = comm_slices [OF _ no_paren hd_rest(1) this, of "sl_comm l"]
  have line: "render_stat l =
      show_i32 (sl_pid l) @ SP # (CHR ''('' # sl_comm l @ CHR '')'' # SP # rest)"
    by (simp add: render_stat_def rest_def)
  have split: "splitn 2 SP (render_stat l) =
      [show_i32 (sl_pid l), CHR ''('' # sl_comm l @ CHR '')'' # SP # rest]"
    unfolding line by (rule splitn_2_append) (simp add: token_no_SP)
  have words: "split_whitespace rest = stat_tokens l"
    unfolding rest_def by (rule split_whitespace_join_NL [OF stat_tokens_ok(1) [OF assms(1)] toks])
  have first: "first_char [sl_state l] = Some [sl_state l]"
    using ok token_state by (simp add: first_char_def)
  show ?thesis
    using ok st assms(2) first f_div_u64_not_NaN [OF CLOCK_TICKS_ne_0 [OF assms(2)]]
    by (simp add: Stat_from_str_def split slices [simplified] words stat_tokens_def i32_str.from_str_show
        u32_str.from_str_show u64_str.from_str_show parse_fields_exact seconds_def Let_def
        del: and_then_eq_Ok parse_fields.simps)
qed

text \<open>
  (C5) A stat line is read back exactly: the process id, the parent, the state and the times are the
  printed ones, in seconds, and the name is the text between the first opening and the last closing
  bracket even when it contains spaces, brackets or line breaks itself.
\<close>

theorem Stat_from_str_line:
  fixes l :: stat_line and h :: "'h host_scheme"
  assumes "stat_line_ok l" "CLOCK_TICKS h = Ok clk"
  defines "seconds \<equiv> \<lambda>v. Time_new h (f_div rnd64 (f64_of_u64 v) (f64_of_u64 clk))"
  shows "\<exists>st. Status_try_from_char [sl_state l] = Ok st \<and>
    Stat_from_str h (render_stat l) =
      Ok \<lparr>stat_pid = sl_pid l, stat_name = sl_comm l, stat_state = st, stat_ppid = sl_ppid l,
          stat_create_time = seconds (sl_start l), stat_utime = seconds (sl_utime l),
          stat_stime = seconds (sl_stime l), stat_cutime = seconds (sl_cutime l),
          stat_cstime = seconds (sl_cstime l)\<rparr>"
  unfolding seconds_def by (rule Stat_line_lemma [OF assms(1,2)])

definition sample_stat :: stat_line where
  "sample_stat =
     \<lparr>sl_pid = 42, sl_comm = ''a) S (b'', sl_state = CHR ''R'', sl_ppid = 1, sl_ids = [1, 2, 3, -1],
      sl_flags = 7, sl_faults = [0, 1, 2, 3], sl_utime = 250, sl_stime = 50, sl_cutime = 0,
      sl_cstime = 0, sl_prio = [20, 0, 1, 0], sl_start = 700, sl_mem = [4096, 12],
      sl_rsslim = 0, sl_more = [''1'', ''0'']\<rparr>"

lemma sample_stat_ok: "stat_line_ok sample_stat"
  by (simp add: stat_line_ok_def sample_stat_def utf8_valid_ascii_Cons byte_def token_def solid_def
      ascii_ws1_def)

lemma sample_host_ticks: "CLOCK_TICKS sample_host = Ok 100"
  by (simp add: CLOCK_TICKS_def clock_ticks_def sample_host_def Let_def)

theorem Stat_from_str_line_witness:
  "\<exists>s. Stat_from_str sample_host (render_stat sample_stat) = Ok s \<and>
     stat_pid s = 42 \<and> stat_name s = ''a) S (b'' \<and> stat_state s = Running \<and> stat_ppid s = 1"
  using Stat_from_str_line [OF sample_stat_ok sample_host_ticks]
  by (auto simp: Status_try_from_char_def) (auto simp: sample_stat_def)

text \<open>
  A line that ends right behind the name, or that has nothing but the closing bracket, is not an
  error: the slices behind and inside the brackets are out of range and the parser panics.
\<close>

theorem Stat_from_str_truncated:
  assumes "utf8_valid comm"
  shows "Stat_from_str h (show_i32 pid @ '' ('' @ comm @ '')'') = Panic \<and>
    Stat_from_str h (show_i32 pid @ '' )'') = Panic"
proof -
  have split: "splitn 2 SP (show_i32 pid @ SP # t) = [show_i32 pid, t]" for t
    by (rule splitn_2_append) (simp add: token_no_SP)
  have r: "rfind (CHR '')'') (CHR ''('' # comm @ [CHR '')'']) = Some (Suc (length comm))"
    using rfind_append [of "CHR '')''" "[]" "CHR ''('' # comm"] by simp
  have r0: "rfind (CHR '')'') [CHR '')''] = Some 0"
    using rfind_append [of "CHR '')''" "[]" "[]"] by simp
  have "is_char_boundary (CHR ''('' # comm @ [CHR '')'']) (Suc 0)"
    using assms utf8_valid_hd by (cases comm) (auto simp: is_char_boundary_def byte_paren)
  moreover have "is_char_boundary (CHR ''('' # comm @ [CHR '')'']) (Suc (length comm))"
    by (simp add: is_char_boundary_def nth_append byte_paren)
  ultimately have "Stat_from_str h (show_i32 pid @ SP # CHR ''('' # comm @ [CHR '')'']) = Panic"
    by (simp add: Stat_from_str_def split r i32_str.from_str_show str_slice_def str_slice_from_def)
  moreover have "Stat_from_str h (show_i32 pid @ SP # [CHR '')'']) = Panic"
    by (simp add: Stat_from_str_def split r0 i32_str.from_str_show str_slice_def)
  ultimately show ?thesis by simp
qed

theorem Stat_from_str_truncated_witness:
  "Stat_from_str sample_host (show_i32 7 @ '' ('' @ ''sh'' @ '')'') = Panic"
  using Stat_from_str_truncated [of "''sh''" sample_host 7] by (simp add: utf8_valid_ascii_Cons byte_def)

section \<open>The memory table\<close>

lemma split_statm:
  "split_ascii_whitespace (join_with [SP] (map show_u64 ns)) = map show_u64 ns"
  by (rule split_ascii_whitespace_join) (simp add: list_all_iff)

lemma try_pages_show:
  "unat v * unat (PAGE_SIZE h) < 2 ^ 64 \<Longrightarrow>
   try_pages h (show_u64 v # parts) = Ok (Information_new h Byte (v * PAGE_SIZE h), parts)"
  by (simp add: try_pages_def u64_str.from_str_show u64_mul_exact)

text \<open>
  The memory table: the first five amounts are numbers of pages and come out in bytes, the fifth
  printed number, the unused library size, is skipped whatever it is, and fewer than six numbers are
  an error of kind \<open>InvalidData\<close>.
\<close>

theorem Statm_from_str_line:
  fixes h :: "'h host_scheme" and total resident shared code_size data :: u64
  assumes "\<forall>n\<in>set [total, resident, shared, code_size, data]. unat n * unat (PAGE_SIZE h) < 2 ^ 64"
    and "list_all token extra" "token lib"
  defines "pages \<equiv> \<lambda>n. Information_new h Byte (n * PAGE_SIZE h)"
  shows "Statm_from_str h (join_with [SP] (map show_u64 [total, resident, shared, code_size] @ lib #
      show_u64 data # extra)) =
    Ok \<lparr>pm_size = pages total, pm_resident = pages resident, pm_shared = pages shared,
        pm_text = pages code_size, pm_data = pages data\<rparr> \<and>
    Statm_from_str h (join_with [SP] (map show_u64 [total, resident, shared, code_size] @ [lib])) =
      Err (Error_from_io (Simple InvalidData))"
proof -
  have "split_ascii_whitespace (join_with [SP] (map show_u64 [total, resident, shared, code_size] @ lib #
      show_u64 data # extra)) = map show_u64 [total, resident, shared, code_size] @ lib # show_u64 data # extra"
    "split_ascii_whitespace (join_with [SP] (map show_u64 [total, resident, shared, code_size] @ [lib]))
      = map show_u64 [total, resident, shared, code_size] @ [lib]"
    using assms(2,3) by (intro split_ascii_whitespace_join; simp)+
  then show ?thesis
    using assms(1)
    by (simp add: Statm_from_str_def try_pages_show pages_def del: join_with.simps and_then_eq_Ok)
       (simp add: try_pages_def)
qed

theorem Statm_from_str_line_witness:
  "Statm_from_str sample_host (join_with [SP] (map show_u64 [9, 5, 3, 1] @ ''0'' # show_u64 2 # [''0'']))
     = Ok \<lparr>pm_size = 36864, pm_resident = 20480, pm_shared = 12288, pm_text = 4096, pm_data = 8192\<rparr>"
proof -
  have "PAGE_SIZE sample_host = 4096" by (simp add: PAGE_SIZE_def sample_host_def)
  moreover have "token ''0''" by (simp add: token_def solid_def ascii_ws1_def byte_def)
  moreover have "Information_new sample_host Byte v = v" for v by (simp add: sample_host_def)
  ultimately show ?thesis
    using Statm_from_str_line [of 9 5 3 1 2 sample_host "[''0'']" "''0''"]
    by (simp del: join_with.simps)
qed

section \<open>The I/O table\<close>

text \<open>A line: a key that ends in a colon, a space and a number.\<close>

definition render_io :: "string \<times> u64 \<Rightarrow> string" where
  "render_io e = join_with [SP] [fst e, show_u64 (snd e)]"

definition IoCounters_setter :: "string \<Rightarrow> (string \<times> u64 \<Rightarrow> proc_io \<Rightarrow> proc_io) option" where
  "IoCounters_setter k = map_option (\<lambda>f e. f (snd e)) (IoCounters_field k)"

lemma split_render_io: "token (fst e) \<Longrightarrow> split_ascii_whitespace (render_io e) = [fst e, show_u64 (snd e)]"
  unfolding render_io_def by (rule split_ascii_whitespace_join) simp

interpretation io_scan: keyed_scan "\<lambda>ls r n. IoCounters_scan ls r" render_io fst "\<lambda>e. token (fst e)"
    IoCounters_setter "\<lambda>n. False" Ok
proof
  fix e :: "string \<times> u64" and f ls r and n :: nat
  assume "token (fst e)" "IoCounters_setter (fst e) = Some f"
  then show "IoCounters_scan (render_io e # ls) r = (if False then Ok (f e r) else IoCounters_scan ls (f e r))"
    by (auto simp: IoCounters_setter_def split_render_io u64_str.from_str_show)
next
  fix e :: "string \<times> u64" and ls r and n :: nat
  assume "token (fst e)" "IoCounters_setter (fst e) = None"
  then show "IoCounters_scan (render_io e # ls) r = IoCounters_scan ls r"
    by (auto simp: IoCounters_setter_def split_render_io)
qed simp

lemma line_ok_render_io: "token (fst e) \<Longrightarrow> line_ok (render_io e)"
  using token_last [OF token_show_u64, of "snd e"] token_show_u64 [of "snd e"]
  by (simp add: line_ok_def render_io_def token_no_NL)

definition io_amount :: "(string \<times> u64) list \<Rightarrow> string \<Rightarrow> u64" where
  "io_amount es k = (case map_of es k of None \<Rightarrow> 0 | Some v \<Rightarrow> v)"

lemma IoCounters_setter_get:
  assumes "IoCounters_setter (fst e) = Some f"
  shows "io_rchar (f e r) = (if fst e = ''rchar:'' then snd e else io_rchar r)"
    "io_wchar (f e r) = (if fst e = ''wchar:'' then snd e else io_wchar r)"
    "io_syscr (f e r) = (if fst e = ''syscr:'' then snd e else io_syscr r)"
    "io_syscw (f e r) = (if fst e = ''syscw:'' then snd e else io_syscw r)"
    "io_read_bytes (f e r) = (if fst e = ''read_bytes:'' then snd e else io_read_bytes r)"
    "io_write_bytes (f e r) = (if fst e = ''write_bytes:'' then snd e else io_write_bytes r)"
    "io_cancelled_write_bytes (f e r) =
       (if fst e = ''cancelled_write_bytes:'' then snd e else io_cancelled_write_bytes r)"
  using assms by (auto simp: IoCounters_setter_def IoCounters_field_def split: if_splits)

lemma IoCounters_get:
  assumes get_set: "\<And>e f r. IoCounters_setter (fst e) = Some f \<Longrightarrow>
      get (f e r) = (if fst e = k then snd e else get r)"
    and "distinct (map fst es)" "IoCounters_field k \<noteq> None" "get IoCounters_default = 0"
  shows "get (foldl (apply_entry fst IoCounters_setter) IoCounters_default es) = io_amount es k"
proof -
  have "get (foldl (apply_entry fst IoCounters_setter) IoCounters_default es) =
      (case map_of es k of None \<Rightarrow> get IoCounters_default | Some v \<Rightarrow> v)"
    by (rule pair_entry_get [where val = "\<lambda>v. v"])
       (use get_set assms(2,3) in \<open>auto simp: IoCounters_setter_def\<close>)
  with assms(4) show ?thesis by (simp add: io_amount_def split: option.splits)
qed

lemma IoCounters_apply:
  assumes "distinct (map fst es)"
  shows "foldl (apply_entry fst IoCounters_setter) IoCounters_default es =
    \<lparr>io_rchar = io_amount es ''rchar:'', io_wchar = io_amount es ''wchar:'',
     io_syscr = io_amount es ''syscr:'', io_syscw = io_amount es ''syscw:'',
     io_read_bytes = io_amount es ''read_bytes:'', io_write_bytes = io_amount es ''write_bytes:'',
     io_cancelled_write_bytes = io_amount es ''cancelled_write_bytes:''\<rparr>"
  by (rule proc_io.equality; simp only: proc_io.simps)
     ((rule IoCounters_get [OF _ assms];
       simp add: IoCounters_setter_get IoCounters_field_def IoCounters_default_def)+, simp)

text \<open>
  The I/O table with distinct keys is read exactly, in any order and with any further keys:
  every counter is the printed number of its key, and 0 when the table does not have the key.
\<close>

theorem IoCounters_from_str_table:
  assumes "list_all (\<lambda>e. token (fst e)) es" "distinct (map fst es)"
  shows "IoCounters_from_str (unlines (map render_io es)) =
    Ok \<lparr>io_rchar = io_amount es ''rchar:'', io_wchar = io_amount es ''wchar:'',
        io_syscr = io_amount es ''syscr:'', io_syscw = io_amount es ''syscw:'',
        io_read_bytes = io_amount es ''read_bytes:'', io_write_bytes = io_amount es ''write_bytes:'',
        io_cancelled_write_bytes = io_amount es ''cancelled_write_bytes:''\<rparr>"
proof -
  have "str_lines (unlines (map render_io es)) = map render_io es"
    using assms(1) by (intro str_lines_unlines) (auto simp: list_all_iff line_ok_render_io)
  then show ?thesis
    using io_scan.scan_all [OF assms(1), of 0 IoCounters_default]
    by (simp add: IoCounters_from_str_def IoCounters_apply [OF assms(2)])
qed

theorem IoCounters_from_str_table_witness:
  "\<exists>c. IoCounters_from_str (unlines (map render_io [(''wchar:'', 5), (''rchar:'', 9)])) = Ok c \<and>
     io_rchar c = 9 \<and> io_wchar c = 5 \<and> io_syscr c = 0"
  using IoCounters_from_str_table [of "[(''wchar:'', 5), (''rchar:'', 9)]"]
  by (simp add: token_def solid_def ascii_ws1_def byte_def io_amount_def)

end
