(* ===== verification/Process_Unix.thy ===== *)
theory Process_Unix
  imports Process_Types Common_Stream
begin

text \<open>
  The system calls of \<open>heim-process/src/sys/unix/process.rs\<close> with the errno protocol of
  \<open>sys/unix/bindings.rs\<close>, and \<open>UniqueId\<close> of \<open>sys/common.rs\<close>.

  A system call is a field of \<open>unix_host\<close>: its result, with the value of errno it leaves when it
  fails. What a call answers may change over time; waiting therefore takes a sequence of hosts.

  The theorems: which answers of \<open>kill\<close> mean that a process is gone; sending a signal reports the
  three ways to fail; a priority of \<open>-1\<close> is not mistaken for a failure; waiting returns exactly when
  the process goes away, and never fails.
\<close>

record unix_host = host +
  ESRCH :: i32
  EPERM :: i32
  EACCES :: i32
  kill_call :: "pid \<Rightarrow> i32 \<Rightarrow> i32 \<times> i32"
  waitpid_call :: "pid \<Rightarrow> i32"
  getpriority_call :: "pid \<Rightarrow> i32 \<Rightarrow> i32 \<times> i32"
  setpriority_call :: "pid \<Rightarrow> i32 \<Rightarrow> i32 \<times> i32"
  getpid_call :: pid
  libc_sig :: "sig_const \<Rightarrow> i32"

definition pid_exists :: "'h unix_host_scheme \<Rightarrow> pid \<Rightarrow> bool" where
  "pid_exists u pid =
     (if pid = 0 then True
      else (case kill_call u pid 0 of (result, errno) \<Rightarrow>
        if result = 0 then True
        else if errno = ESRCH u then False
        else if errno = EPERM u then True
        else True))"

definition pid_kill :: "'h unix_host_scheme \<Rightarrow> pid \<Rightarrow> signal \<Rightarrow> (unit, process_error) outcome" where
  "pid_kill u pid signal =
     (case kill_call u pid (Signal_into (libc_sig u) signal) of (result, errno) \<Rightarrow>
        if result = 0 then Ok ()
        else if errno = ESRCH u then Err (NoSuchProcess pid)
        else if errno = EPERM u then Err (AccessDenied pid)
        else Err (ProcessError_from_io (Os errno)))"

text \<open>
  \<open>pid_wait\<close>. \<open>spawned u\<close> is the blocking \<open>waitpid\<close> on the host \<open>u\<close>; after it the loop asks at every
  tick of the interval, on the host of that moment. \<open>ticks i\<close> says that the interval yields an item
  for the \<open>i\<close>-th time. A wait that never ends is \<open>None\<close>.
\<close>

definition waitpid_ok :: "'h unix_host_scheme \<Rightarrow> pid \<Rightarrow> bool" where
  "waitpid_ok u pid \<longleftrightarrow> waitpid_call u pid \<noteq> -1"

definition wait_error :: process_error where
  "wait_error =
     Load (with_message (Error_from_io (Simple Other)) ''Unable to await for process termination'')"

partial_function (option) pid_wait_loop ::
    "(nat \<Rightarrow> bool) \<Rightarrow> (nat \<Rightarrow> 'h unix_host_scheme) \<Rightarrow> pid \<Rightarrow> nat \<Rightarrow> (unit, process_error) outcome option"
  where
  "pid_wait_loop ticks us pid i =
     (if \<not> ticks i then Some (Err wait_error)
      else if \<not> pid_exists (us i) pid then Some (Ok ())
      else pid_wait_loop ticks us pid (Suc i))"

declare pid_wait_loop.simps [code]

definition pid_wait ::
    "(nat \<Rightarrow> bool) \<Rightarrow> 'h unix_host_scheme \<Rightarrow> (nat \<Rightarrow> 'h unix_host_scheme) \<Rightarrow> pid
      \<Rightarrow> (unit, process_error) outcome option" where
  "pid_wait ticks u us pid =
     (if waitpid_ok u pid then Some (Ok ()) else pid_wait_loop ticks us pid 0)"

text \<open>\<open>getpriority\<close> is called with errno cleared, and errno is read back afterwards.\<close>

definition pid_priority :: "'h unix_host_scheme \<Rightarrow> pid \<Rightarrow> (i32, process_error) outcome" where
  "pid_priority u pid =
     (case getpriority_call u pid 0 of (result, errno) \<Rightarrow>
        if errno = 0 then Ok result
        else if errno = ESRCH u then Err (NoSuchProcess pid)
        else if errno = EACCES u \<or> errno = EPERM u then Err (AccessDenied pid)
        else Err (Load (with_ffi (Error_from_raw_os_error errno) ''getpriority'')))"

definition pid_setpriority :: "'h unix_host_scheme \<Rightarrow> pid \<Rightarrow> i32 \<Rightarrow> (unit, process_error) outcome" where
  "pid_setpriority u pid value =
     (case setpriority_call u pid value of (result, errno) \<Rightarrow>
        if result = 0 then Ok () else Err (Load (Error_last_os_error errno)))"

section \<open>Identities\<close>

record unique_id =
  uid_pid :: pid
  uid_create_time :: fval

definition UniqueId_new :: "'h host_scheme \<Rightarrow> pid \<Rightarrow> fval \<Rightarrow> (unique_id, process_error) outcome" where
  "UniqueId_new h pid create_time =
     (let seconds = Time_get h create_time
      in if seconds = NaN then Panic else Ok \<lparr>uid_pid = pid, uid_create_time = seconds\<rparr>)"

definition UniqueId_create_time :: "'h host_scheme \<Rightarrow> unique_id \<Rightarrow> fval" where
  "UniqueId_create_time h uid = Time_new h (uid_create_time uid)"

text \<open>The derived equality, on floats that are not NaN.\<close>

definition UniqueId_eq :: "unique_id \<Rightarrow> unique_id \<Rightarrow> bool" where
  "UniqueId_eq a b \<longleftrightarrow> uid_pid a = uid_pid b \<and> f_eq (uid_create_time a) (uid_create_time b)"

section \<open>Properties\<close>

text \<open>
  Signals: success is reported when the call succeeds, and each failure as its own error; the
  only answer that makes \<open>pid_exists\<close> deny a process is that no such process exists, so a process one
  may not signal still exists.
\<close>

theorem pid_kill_exists:
  assumes "pid \<noteq> 0" "ESRCH u \<noteq> EPERM u"
  shows "(pid_kill u pid s = Ok () \<longleftrightarrow> fst (kill_call u pid (Signal_into (libc_sig u) s)) = 0) \<and>
    (pid_kill u pid s = Err (NoSuchProcess pid) \<longleftrightarrow>
      fst (kill_call u pid (Signal_into (libc_sig u) s)) \<noteq> 0 \<and>
      snd (kill_call u pid (Signal_into (libc_sig u) s)) = ESRCH u) \<and>
    (pid_kill u pid s = Err (AccessDenied pid) \<longleftrightarrow>
      fst (kill_call u pid (Signal_into (libc_sig u) s)) \<noteq> 0 \<and>
      snd (kill_call u pid (Signal_into (libc_sig u) s)) = EPERM u) \<and>
    (\<not> pid_exists u pid \<longleftrightarrow> fst (kill_call u pid 0) \<noteq> 0 \<and> snd (kill_call u pid 0) = ESRCH u)"
  using assms by (auto simp: pid_kill_def pid_exists_def ProcessError_from_io_def split: prod.splits)

definition sample_unix :: unix_host where
  "sample_unix = host.extend sample_host
     \<lparr>ESRCH = 3, EPERM = 1, EACCES = 13, kill_call = (\<lambda>p s. (-1, 3)), waitpid_call = (\<lambda>p. -1),
      getpriority_call = (\<lambda>p e. (-1, e)), setpriority_call = (\<lambda>p v. (0, 0)), getpid_call = 77,
      libc_sig = linux_sig\<rparr>"

theorem pid_kill_exists_witness:
  "pid_kill sample_unix 5 Term = Err (NoSuchProcess 5) \<and> \<not> pid_exists sample_unix 5"
  using pid_kill_exists [of 5 sample_unix Term]
  by (simp add: sample_unix_def host.extend_def)

text \<open>
  Priorities: errno is cleared before the call, so when the call leaves it alone its result is
  returned whatever it is, \<open>-1\<close> included, and an errno left over from an earlier call plays no role;
  when the call sets it, the result is an error.
\<close>

theorem pid_priority_errno:
  "(snd (getpriority_call u pid 0) = 0 \<longrightarrow> pid_priority u pid = Ok (fst (getpriority_call u pid 0))) \<and>
   (snd (getpriority_call u pid 0) \<noteq> 0 \<longrightarrow> (\<exists>e. pid_priority u pid = Err e)) \<and>
   pid_priority (u\<lparr>last_errno := e\<rparr>) pid = pid_priority u pid"
  by (auto simp: pid_priority_def split: prod.splits)

theorem pid_priority_errno_witness: "pid_priority sample_unix 5 = Ok (-1)"
  using pid_priority_errno [of sample_unix 5] by (simp add: sample_unix_def host.extend_def)

lemma pid_wait_loop_alive:
  "\<forall>j. i \<le> j \<and> j < i + k \<longrightarrow> ticks j \<and> pid_exists (us j) pid \<Longrightarrow>
   pid_wait_loop ticks us pid i = pid_wait_loop ticks us pid (i + k)"
proof (induction k arbitrary: i)
  case (Suc k)
  then have "ticks i" "pid_exists (us i) pid" by auto
  then have "pid_wait_loop ticks us pid i = pid_wait_loop ticks us pid (Suc i)"
    by (subst pid_wait_loop.simps) simp
  also have "\<dots> = pid_wait_loop ticks us pid (Suc i + k)"
    using Suc.prems by (intro Suc.IH) auto
  finally show ?case by simp
qed simp

lemma pid_wait_loop_returned:
  "pid_wait_loop ticks us pid i = Some r \<Longrightarrow> (\<exists>i. \<not> ticks i) \<or> (\<exists>i. \<not> pid_exists (us i) pid)"
  by (rule pid_wait_loop.raw_induct
        [where P = "\<lambda>ticks us pid i r. (\<exists>i. \<not> ticks i) \<or> (\<exists>i. \<not> pid_exists (us i) pid)"])
     (auto split: if_splits)

lemma pid_wait_loop_diverges:
  assumes "\<And>i. ticks i" "\<And>i. pid_exists (us i) pid"
  shows "pid_wait_loop ticks us pid i = None"
  using pid_wait_loop_returned [of ticks us pid i] assms
  by (cases "pid_wait_loop ticks us pid i") auto

text \<open>
  (C9) Waiting for a process that is not a child, with a timer that keeps ticking: the wait returns
  success as soon as the process is gone at some tick, it never returns an error, and as long as the
  process stays it does not return.
\<close>

theorem pid_wait_returns:
  assumes "\<And>i. ticks i" "\<not> waitpid_ok u pid"
  shows "((\<exists>i. \<not> pid_exists (us i) pid) \<longrightarrow> pid_wait ticks u us pid = Some (Ok ())) \<and>
    ((\<forall>i. pid_exists (us i) pid) \<longrightarrow> pid_wait ticks u us pid = None)"
proof (intro conjI impI)
  assume "\<exists>i. \<not> pid_exists (us i) pid"
  then obtain k where k: "\<not> pid_exists (us k) pid" "\<forall>j<k. pid_exists (us j) pid"
    using exists_least_iff [of "\<lambda>i. \<not> pid_exists (us i) pid"] by auto
  have "pid_wait_loop ticks us pid 0 = pid_wait_loop ticks us pid k"
    using pid_wait_loop_alive [of 0 k ticks us pid] k(2) assms(1) by simp
  also have "\<dots> = Some (Ok ())" using k(1) assms(1) by (subst pid_wait_loop.simps) simp
  finally show "pid_wait ticks u us pid = Some (Ok ())" using assms(2) by (simp add: pid_wait_def)
next
  assume "\<forall>i. pid_exists (us i) pid"
  then show "pid_wait ticks u us pid = None"
    using assms pid_wait_loop_diverges [of ticks us pid 0] by (simp add: pid_wait_def)
qed

theorem pid_wait_returns_witness:
  "pid_wait (\<lambda>_. True) sample_unix (\<lambda>i. if i < 3 then sample_unix\<lparr>kill_call := \<lambda>p s. (0, 0)\<rparr> else sample_unix) 9
     = Some (Ok ())"
proof -
  let ?us = "\<lambda>i. if i < (3::nat) then sample_unix\<lparr>kill_call := \<lambda>p s. (0, 0)\<rparr> else sample_unix"
  have "\<not> pid_exists (?us 3) 9" by (simp add: pid_exists_def sample_unix_def host.extend_def)
  then have "\<exists>i. \<not> pid_exists (?us i) 9" by blast
  moreover have "\<not> waitpid_ok sample_unix 9" by (simp add: waitpid_ok_def sample_unix_def host.extend_def)
  ultimately show ?thesis using pid_wait_returns [of "\<lambda>_. True" sample_unix 9 ?us] by simp
qed

text \<open>
  Identities: making one panics exactly for a creation time that is NaN; made identities are
  equal exactly when process id and creation time agree, and this is an equivalence.
\<close>

theorem UniqueId_equality:
  assumes "UniqueId_new h p s = Ok a" "UniqueId_new h q t = Ok b"
  shows "(UniqueId_eq a b \<longleftrightarrow> p = q \<and> Time_get h s = Time_get h t) \<and> (UniqueId_eq a b \<longleftrightarrow> a = b) \<and>
    (UniqueId_new h r v = Panic \<longleftrightarrow> Time_get h v = NaN)"
proof -
  have "f_eq x y \<longleftrightarrow> x = y" if "x \<noteq> NaN" "y \<noteq> NaN" for x y
    using that by (cases x; cases y) auto
  with assms show ?thesis
    by (auto simp: UniqueId_new_def UniqueId_eq_def Let_def split: if_splits)
qed

theorem UniqueId_equality_witness:
  "UniqueId_eq \<lparr>uid_pid = 1, uid_create_time = Fin 5\<rparr> \<lparr>uid_pid = 1, uid_create_time = Fin 6\<rparr> \<longleftrightarrow> False"
  using UniqueId_equality [of sample_host 1 "Fin 5" "\<lparr>uid_pid = 1, uid_create_time = Fin 5\<rparr>" 1 "Fin 6"
      "\<lparr>uid_pid = 1, uid_create_time = Fin 6\<rparr>"]
  by (simp add: UniqueId_new_def sample_host_def)

end
