(* ===== verification/Process_Handle.thy ===== *)
theory Process_Handle
  imports Process_Unix
begin

text \<open>
  The contract of process handles, shared by every system: a handle keeps the identity its process had
  when it was made, and sending a signal first asks whether the process with that id still has that
  identity. The locale states what the operations of one system promise; the theories of the systems
  interpret it on their definitions.
\<close>

lemma f_eq_iff: "x \<noteq> NaN \<Longrightarrow> y \<noteq> NaN \<Longrightarrow> f_eq x y \<longleftrightarrow> x = y"
  by (cases x; cases y) auto

lemma UniqueId_eq_iff:
  fixes a b :: unique_id
  shows "uid_create_time a \<noteq> NaN \<Longrightarrow> uid_create_time b \<noteq> NaN \<Longrightarrow> UniqueId_eq a b \<longleftrightarrow> a = b"
  by (cases a; cases b) (simp add: UniqueId_eq_def f_eq_iff)

lemma UniqueId_new_Ok:
  "UniqueId_new h pid t = Ok uid \<Longrightarrow> uid_pid uid = pid \<and> uid_create_time uid \<noteq> NaN"
  by (auto simp: UniqueId_new_def Let_def split: if_splits)

text \<open>
  \<open>send c v p s\<close> makes the check in the world \<open>c\<close> and sends in the world \<open>v\<close>; \<open>kill\<close> is the bare
  system call with its errors translated.
\<close>

locale process_handle =
  fixes get :: "'w \<Rightarrow> pid \<Rightarrow> ('p, process_error) outcome"
    and pid_of :: "'p \<Rightarrow> pid"
    and id_of :: "'p \<Rightarrow> unique_id"
    and running :: "'w \<Rightarrow> 'p \<Rightarrow> (bool, process_error) outcome"
    and kill :: "'w \<Rightarrow> pid \<Rightarrow> signal \<Rightarrow> (unit, process_error) outcome"
    and send :: "'w \<Rightarrow> 'w \<Rightarrow> 'p \<Rightarrow> signal \<Rightarrow> (unit, process_error) outcome"
  assumes get_id: "get w pid = Ok p \<Longrightarrow>
      pid_of p = pid \<and> uid_pid (id_of p) = pid \<and> uid_create_time (id_of p) \<noteq> NaN"
    and running_get: "running w p = map_ok (\<lambda>q. UniqueId_eq (id_of q) (id_of p)) (get w (pid_of p))"
    and send_checks: "send c v p s = and_then (running c p) (\<lambda>yes.
      if yes then kill v (pid_of p) s else Err (NoSuchProcess (pid_of p)))"
begin

lemma running_iff:
  assumes "get w0 pid = Ok p" "get w pid = Ok q"
  shows "running w p = Ok (id_of q = id_of p)"
  using get_id [OF assms(1)] get_id [OF assms(2)] assms(2)
  by (simp add: running_get UniqueId_eq_iff)

lemma running_fresh: "get w pid = Ok p \<Longrightarrow> running w p = Ok True"
  by (simp add: running_iff)

lemma send_reused:
  assumes "get w0 pid = Ok p" "get c pid = Ok q" "id_of q \<noteq> id_of p"
  shows "send c v p s = Err (NoSuchProcess pid)"
  using running_iff [OF assms(1,2)] get_id [OF assms(1)] assms(3) by (simp add: send_checks)

lemma send_same:
  assumes "get w0 pid = Ok p" "get c pid = Ok q" "id_of q = id_of p"
  shows "send c v p s = kill v pid s"
  using running_iff [OF assms(1,2)] get_id [OF assms(1)] assms(3) by (simp add: send_checks)

lemma send_gone: "get c (pid_of p) = Err e \<Longrightarrow> send c v p s = Err e"
  by (simp add: send_checks running_get)

lemma send_Ok:
  assumes "send c v p s = Ok u"
  shows "running c p = Ok True \<and> kill v (pid_of p) s = Ok u"
  using assms by (cases "running c p") (auto simp: send_checks split: if_splits)

end

end
