(* ===== verification/Net_Linux.thy ===== *)
theory Net_Linux
  imports Keyed_Table
begin

text \<open>
  \<open>heim-net\<close> on Linux: the interface counters of \<open>sys/linux/counters.rs\<close> and the interface list of
  \<open>sys/unix/nic.rs\<close>. The socket address types of \<open>nix\<close>, \<open>std::net\<close> and \<open>macaddr\<close> are type
  variables; \<open>getifaddrs\<close> and \<open>if_nametoindex\<close> are parameters.

  The theorems: a printed counter table is read back exactly, one item per line in order, and a
  malformed line spoils only its own item; interfaces in the list always have an address, and reading
  it panics only for address families the code does not know.
\<close>

section \<open>Counters\<close>

record net_counters =
  nc_interface :: string
  nc_rx_bytes :: u64
  nc_rx_packets :: u64
  nc_rx_errs :: u64
  nc_rx_drop :: u64
  nc_rx_fifo :: u64
  nc_rx_frame :: u64
  nc_rx_compressed :: u64
  nc_rx_multicast :: u64
  nc_tx_bytes :: u64
  nc_tx_packets :: u64
  nc_tx_errs :: u64
  nc_tx_drop :: u64
  nc_tx_fifo :: u64
  nc_tx_frame :: u64
  nc_tx_compressed :: u64
  nc_tx_multicast :: u64

definition NetCounters_from_str :: "'h host_scheme \<Rightarrow> string \<Rightarrow> (net_counters, heim_error) outcome" where
  "NetCounters_from_str h s =
     (case split_whitespace s of
        [] \<Rightarrow> Err (Error_missing_key ''Interface'' (utf8_lossy (procfs h) @ ''/net/dev''))
      | str # parts \<Rightarrow>
          (let interface = trim_end_matches (CHR '':'') str in
           and_then (try_parse_next from_str_u64 parts) (\<lambda>(rx_bytes, parts).
           and_then (try_parse_next from_str_u64 parts) (\<lambda>(rx_packets, parts).
           and_then (try_parse_next from_str_u64 parts) (\<lambda>(rx_errs, parts).
           and_then (try_parse_next from_str_u64 parts) (\<lambda>(rx_drop, parts).
           and_then (try_parse_next from_str_u64 parts) (\<lambda>(rx_fifo, parts).
           and_then (try_parse_next from_str_u64 parts) (\<lambda>(rx_frame, parts).
           and_then (try_parse_next from_str_u64 parts) (\<lambda>(rx_compressed, parts).
           and_then (try_parse_next from_str_u64 parts) (\<lambda>(rx_multicast, parts).
           and_then (try_parse_next from_str_u64 parts) (\<lambda>(tx_bytes, parts).
           and_then (try_parse_next from_str_u64 parts) (\<lambda>(tx_packets, parts).
           and_then (try_parse_next from_str_u64 parts) (\<lambda>(tx_errs, parts).
           and_then (try_parse_next from_str_u64 parts) (\<lambda>(tx_drop, parts).
           and_then (try_parse_next from_str_u64 parts) (\<lambda>(tx_fifo, parts).
           and_then (try_parse_next from_str_u64 parts) (\<lambda>(tx_frame, parts).
           and_then (try_parse_next from_str_u64 parts) (\<lambda>(tx_compressed, parts).
           and_then (try_parse_next from_str_u64 parts) (\<lambda>(tx_multicast, parts).
             Ok \<lparr>nc_interface = interface, nc_rx_bytes = Information_new h Byte rx_bytes,
                 nc_rx_packets = rx_packets, nc_rx_errs = rx_errs, nc_rx_drop = rx_drop,
                 nc_rx_fifo = rx_fifo, nc_rx_frame = rx_frame, nc_rx_compressed = rx_compressed,
                 nc_rx_multicast = rx_multicast, nc_tx_bytes = Information_new h Byte tx_bytes,
                 nc_tx_packets = tx_packets, nc_tx_errs = tx_errs, nc_tx_drop = tx_drop,
                 nc_tx_fifo = tx_fifo, nc_tx_frame = tx_frame, nc_tx_compressed = tx_compressed,
                 nc_tx_multicast = tx_multicast\<rparr>))))))))))))))))))"

definition net_inner ::
    "'h host_scheme \<Rightarrow> path \<Rightarrow> ((net_counters, heim_error) outcome list, heim_error) outcome" where
  "net_inner h path =
     (case read_lines h path of
        Inl e \<Rightarrow> Err (with_file (Error_from_io e) path)
      | Inr lines \<Rightarrow>
          Ok (map (\<lambda>line. and_then (of_io line) (NetCounters_from_str h)) (drop 2 lines)))"

definition net_io_counters ::
    "'h host_scheme \<Rightarrow> ((net_counters, heim_error) outcome list, heim_error) outcome" where
  "net_io_counters h = net_inner h (join_path (procfs h) ''net/dev'')"

definition net_io_counters_for_pid ::
    "'h host_scheme \<Rightarrow> i32 \<Rightarrow> ((net_counters, heim_error) outcome list, heim_error) outcome" where
  "net_io_counters_for_pid h pid =
     net_inner h (join_path (join_path (procfs h) (show_i32 pid)) ''net/dev'')"

section \<open>Interfaces\<close>

text \<open>Socket addresses as \<open>nix\<close> gives them, and the crate's own \<open>Address\<close>.\<close>

datatype ('v4, 'v6, 'mac, 'o) sock_addr = InetV4 'v4 | InetV6 'v6 | SockLink 'mac | SockOther 'o

datatype ('v4, 'v6, 'mac) address = Inet 'v4 | Inet6 'v6 | Link 'mac

fun Address_from :: "('v4, 'v6, 'mac, 'o) sock_addr \<Rightarrow> (('v4, 'v6, 'mac) address, 'e) outcome" where
  "Address_from (InetV4 a) = Ok (Inet a)"
| "Address_from (InetV6 a) = Ok (Inet6 a)"
| "Address_from (SockLink a) = Ok (Link a)"
| "Address_from (SockOther a) = Panic"

record ('v4, 'v6, 'mac, 'o) nic =
  nic_name :: string
  nic_flags :: u32
  nic_addr :: "('v4, 'v6, 'mac, 'o) sock_addr option"
  nic_netmask_addr :: "('v4, 'v6, 'mac, 'o) sock_addr option"
  nic_broadcast_addr :: "('v4, 'v6, 'mac, 'o) sock_addr option"
  nic_destination_addr :: "('v4, 'v6, 'mac, 'o) sock_addr option"

definition Nic_index :: "(string \<Rightarrow> nix_error + u32) \<Rightarrow> ('v4, 'v6, 'mac, 'o) nic \<Rightarrow> u32 option" where
  "Nic_index if_nametoindex n =
     (case if_nametoindex (nic_name n) of Inl e \<Rightarrow> None | Inr i \<Rightarrow> Some i)"

definition Nic_address :: "('v4, 'v6, 'mac, 'o) nic \<Rightarrow> (('v4, 'v6, 'mac) address, 'e) outcome" where
  "Nic_address n = and_then (expect (nic_addr n)) Address_from"

fun opt_address ::
    "('v4, 'v6, 'mac, 'o) sock_addr option \<Rightarrow> (('v4, 'v6, 'mac) address option, 'e) outcome" where
  "opt_address None = Ok None"
| "opt_address (Some a) = map_ok Some (Address_from a)"

definition Nic_netmask where "Nic_netmask n = opt_address (nic_netmask_addr n)"
definition Nic_broadcast where "Nic_broadcast n = opt_address (nic_broadcast_addr n)"
definition Nic_destination where "Nic_destination n = opt_address (nic_destination_addr n)"

text \<open>\<open>InterfaceFlags::contains\<close>; the flag bits are the C library's.\<close>

definition flags_contain :: "u32 \<Rightarrow> u32 \<Rightarrow> bool" where
  "flags_contain flags bits \<longleftrightarrow> and flags bits = bits"

record if_flags =
  IFF_UP :: u32
  IFF_RUNNING :: u32
  IFF_BROADCAST :: u32
  IFF_LOOPBACK :: u32
  IFF_POINTOPOINT :: u32
  IFF_MULTICAST :: u32

definition Nic_is_up where "Nic_is_up c n = flags_contain (nic_flags n) (IFF_UP c)"
definition Nic_is_running where "Nic_is_running c n = flags_contain (nic_flags n) (IFF_RUNNING c)"
definition Nic_is_broadcast where "Nic_is_broadcast c n = flags_contain (nic_flags n) (IFF_BROADCAST c)"
definition Nic_is_loopback where "Nic_is_loopback c n = flags_contain (nic_flags n) (IFF_LOOPBACK c)"
definition Nic_is_point_to_point where
  "Nic_is_point_to_point c n = flags_contain (nic_flags n) (IFF_POINTOPOINT c)"
definition Nic_is_multicast where "Nic_is_multicast c n = flags_contain (nic_flags n) (IFF_MULTICAST c)"

definition nic_list ::
    "nix_error + ('v4, 'v6, 'mac, 'o) nic list
      \<Rightarrow> ((('v4, 'v6, 'mac, 'o) nic, heim_error) outcome list, heim_error) outcome" where
  "nic_list getifaddrs =
     (case getifaddrs of
        Inl e \<Rightarrow> Err (Error_from_nix e)
      | Inr addrs \<Rightarrow> Ok (List.map_filter (\<lambda>a. if nic_addr a \<noteq> None then Some (Ok a) else None) addrs))"

section \<open>Properties\<close>

text \<open>A line of the counter table: the name with a colon and sixteen numbers.\<close>

definition net_fields :: "net_counters \<Rightarrow> u64 list" where
  "net_fields c =
     [nc_rx_bytes c, nc_rx_packets c, nc_rx_errs c, nc_rx_drop c, nc_rx_fifo c, nc_rx_frame c,
      nc_rx_compressed c, nc_rx_multicast c, nc_tx_bytes c, nc_tx_packets c, nc_tx_errs c,
      nc_tx_drop c, nc_tx_fifo c, nc_tx_frame c, nc_tx_compressed c, nc_tx_multicast c]"

definition render_net :: "net_counters \<Rightarrow> string" where
  "render_net c = join_with [SP] ((nc_interface c @ '':'') # map show_u64 (net_fields c))"

definition net_ok :: "net_counters \<Rightarrow> bool" where
  "net_ok c \<longleftrightarrow> token (nc_interface c) \<and> last (nc_interface c) \<noteq> CHR '':''"

lemma trim_end_matches_colon: "s \<noteq> [] \<Longrightarrow> last s \<noteq> c \<Longrightarrow> trim_end_matches c (s @ [c]) = s"
  by (cases s rule: rev_cases) (auto simp: trim_end_matches_def)

lemma token_colon: "token t \<Longrightarrow> token (t @ '':'')"
  by (simp add: token_def solid_def ascii_ws1_def byte_def)

lemma split_render_net:
  "net_ok c \<Longrightarrow> split_whitespace (render_net c) = (nc_interface c @ '':'') # map show_u64 (net_fields c)"
  unfolding render_net_def
  by (rule split_whitespace_join) (simp add: net_ok_def token_colon list_all_iff)

lemma NetCounters_line:
  assumes "net_ok c" "\<And>v. Information_new h Byte v = v"
  shows "NetCounters_from_str h (render_net c) = Ok c"
  using assms
  by (simp add: NetCounters_from_str_def split_render_net net_fields_def u64_str.from_str_show
      trim_end_matches_colon net_ok_def token_def del: and_then_eq_Ok)

lemma line_ok_render_net: "net_ok c \<Longrightarrow> line_ok (render_net c)"
  unfolding render_net_def
  by (rule line_ok_join_tokens) (simp_all add: net_ok_def token_colon list_all_iff)

text \<open>
  The counter table: after the two header lines, every printed interface is read back exactly, in
  order, and a line that is not one gives an error item in its place without disturbing the others.
\<close>

theorem net_io_counters_table:
  assumes "file_data h (join_path (procfs h) ''net/dev'') =
      Inr (unlines (hd1 # hd2 # map render_net cs @ bad # map render_net ds))"
    and "list_all line_ok [hd1, hd2, bad]" "list_all net_ok (cs @ ds)"
    and "list_all (\<lambda>c. utf8_valid (render_net c)) (cs @ ds)" "utf8_valid bad"
    and "\<And>v. Information_new h Byte v = v"
  shows "net_io_counters h = Ok (map Ok cs @ NetCounters_from_str h bad # map Ok ds)"
proof -
  have "str_lines (unlines (hd1 # hd2 # map render_net cs @ bad # map render_net ds)) =
      hd1 # hd2 # map render_net cs @ bad # map render_net ds"
    by (rule str_lines_unlines) (use assms(2,3) in \<open>auto simp: list_all_iff line_ok_render_net\<close>)
  moreover have "map (\<lambda>c. and_then (of_io (utf8_checked (render_net c))) (NetCounters_from_str h)) es = map Ok es"
    if "set es \<subseteq> set (cs @ ds)" for es
    using that assms(3,4,6) by (induction es) (auto simp: list_all_iff utf8_checked_ok NetCounters_line)
  from this [of cs] this [of ds]
  have "map (\<lambda>c. and_then (of_io (utf8_checked (render_net c))) (NetCounters_from_str h)) cs = map Ok cs"
    "map (\<lambda>c. and_then (of_io (utf8_checked (render_net c))) (NetCounters_from_str h)) ds = map Ok ds"
    by auto
  ultimately show ?thesis
    using assms(1,5)
    by (simp add: net_io_counters_def net_inner_def read_lines_def comp_def utf8_checked_ok
        del: map_eq_conv)
qed

definition sample_net :: net_counters where
  "sample_net =
     \<lparr>nc_interface = ''lo'', nc_rx_bytes = 10, nc_rx_packets = 2, nc_rx_errs = 0, nc_rx_drop = 0,
      nc_rx_fifo = 0, nc_rx_frame = 0, nc_rx_compressed = 0, nc_rx_multicast = 0, nc_tx_bytes = 7,
      nc_tx_packets = 1, nc_tx_errs = 0, nc_tx_drop = 0, nc_tx_fifo = 0, nc_tx_frame = 0,
      nc_tx_compressed = 0, nc_tx_multicast = 0\<rparr>"

theorem net_io_counters_table_witness:
  "net_io_counters (sample_host\<lparr>file_data := \<lambda>_.
       Inr (unlines (''a'' # ''b'' # map render_net [sample_net] @ ''junk'' # map render_net []))\<rparr>)
     = Ok [Ok sample_net, Err (Error_from_io (Simple InvalidData))]"
proof -
  let ?h = "sample_host\<lparr>file_data := \<lambda>_.
    Inr (unlines (''a'' # ''b'' # map render_net [sample_net] @ ''junk'' # map render_net []))\<rparr>"
  have lo: "token ''lo''" "token ''junk''" "net_ok sample_net"
    by (simp_all add: net_ok_def sample_net_def token_def solid_def ascii_ws1_def byte_def)
  have "utf8_valid (render_net sample_net)"
    using utf8_valid_show_nat [of _ "[]"]
    by (simp add: render_net_def sample_net_def net_fields_def show_u64_def utf8_valid_ascii_Cons byte_def
        utf8_valid_show_nat)
  then have "net_io_counters ?h = Ok (map Ok [sample_net] @ NetCounters_from_str ?h ''junk'' # map Ok [])"
    by (intro net_io_counters_table [of _ "''a''" "''b''"])
       (simp_all add: lo line_ok_def utf8_valid_ascii_Cons byte_def, simp add: sample_host_def)
  moreover have "NetCounters_from_str ?h ''junk'' = Err (Error_from_io (Simple InvalidData))"
    by (simp add: NetCounters_from_str_def lo)
  ultimately show ?thesis by simp
qed

text \<open>
  Every interface in the list has an address, so reading the address never fails on a missing one;
  it panics exactly when the address belongs to a family the code does not know.
\<close>

theorem nic_address_total:
  assumes "nic_list (Inr addrs) = Ok items" "Ok n \<in> set items"
  shows "n \<in> set addrs \<and>
    ((\<exists>a. Nic_address n = (Ok a :: (_, heim_error) outcome)) \<longleftrightarrow> (\<nexists>x. nic_addr n = Some (SockOther x)))"
proof -
  have "n \<in> set addrs" "nic_addr n \<noteq> None"
    using assms by (auto simp: nic_list_def map_filter_def split: if_splits)
  then show ?thesis
    by (cases "the (nic_addr n)") (auto simp: Nic_address_def)
qed

definition sample_nic :: "(nat, nat, nat, nat) nic" where
  "sample_nic =
     \<lparr>nic_name = ''lo'', nic_flags = 1, nic_addr = Some (InetV4 1), nic_netmask_addr = None,
      nic_broadcast_addr = None, nic_destination_addr = None\<rparr>"

theorem nic_address_total_witness:
  "\<exists>a. Nic_address sample_nic = (Ok a :: (_, heim_error) outcome)"
proof -
  have "nic_list (Inr [sample_nic]) = Ok [Ok sample_nic]"
    by (simp add: nic_list_def map_filter_def sample_nic_def)
  from nic_address_total [OF this, of sample_nic] show ?thesis by (simp add: sample_nic_def)
qed

end
