(* ===== verification/Cpu_Linux.thy ===== *)
theory Cpu_Linux
  imports Keyed_Table
begin

text \<open>
  \<open>heim-cpu\<close> on Linux: \<open>sys/linux/count/\<close>, \<open>sys/linux/freq.rs\<close>, \<open>sys/linux/stats.rs\<close>,
  \<open>sys/linux/times.rs\<close>, \<open>sys/unix.rs\<close> and \<open>usage.rs\<close>.

  The theorems: the three ways to count logical CPUs and their order; the fallback for physical CPUs
  fails on every line of the kernel's shape; the average frequency is exact while sums fit, and the
  averaged limits count CPUs that have none; statistics and times are read back exactly.
\<close>

section \<open>Logical CPUs\<close>

definition sysconf_count :: "'h host_scheme \<Rightarrow> (u64, heim_error) outcome" where
  "sysconf_count h =
     (let result = sysconf_val h (SC_NPROCESSORS_ONLN h)
      in if sint result < 0
         then Err (with_sysconf (Error_last_os_error (last_errno h)) (SC_NPROCESSORS_ONLN h))
         else Ok result)"

text \<open>Counting the lines with a prefix; the first unreadable line ends the count with its error.\<close>

fun count_prefix :: "string \<Rightarrow> (io_error + string) list \<Rightarrow> u64 \<Rightarrow> (u64, heim_error) outcome" where
  "count_prefix pre [] count = Ok count"
| "count_prefix pre (line # lines) count =
     and_then (of_io line) (\<lambda>l.
       count_prefix pre lines (if starts_with l pre then count + 1 else count))"

definition cpuinfo_count :: "'h host_scheme \<Rightarrow> (u64, heim_error) outcome" where
  "cpuinfo_count h =
     and_then (of_io (read_lines h (join_path (procfs h) ''cpuinfo''))) (\<lambda>lines.
       count_prefix ''processor'' lines 0)"

definition stat_count :: "'h host_scheme \<Rightarrow> (u64, heim_error) outcome" where
  "stat_count h =
     and_then (of_io (read_lines h (join_path (procfs h) ''stat''))) (\<lambda>lines.
       count_prefix ''cpu'' (drop 1 lines) 0)"

definition logical_count :: "'h host_scheme \<Rightarrow> (u64, heim_error) outcome" where
  "logical_count h =
     (case sysconf_count h of
        Ok value \<Rightarrow> Ok value
      | Err _ \<Rightarrow>
          (case cpuinfo_count h of
             Ok value \<Rightarrow> Ok value
           | Err _ \<Rightarrow> stat_count h
           | Panic \<Rightarrow> Panic)
      | Panic \<Rightarrow> Panic)"

section \<open>Physical CPUs\<close>

fun topology_loop ::
    "'h host_scheme \<Rightarrow> (io_error + path) list \<Rightarrow> u64 list \<Rightarrow> (u64 list, heim_error) outcome" where
  "topology_loop h [] acc = Ok acc"
| "topology_loop h (entry # entries) acc =
     and_then (of_io entry) (\<lambda>path.
     and_then (of_io (read_to_string h path)) (\<lambda>contents.
     and_then (from_str_u64 (trim contents)) (\<lambda>core_id.
       topology_loop h entries (List.insert core_id acc))))"

definition topology :: "'h host_scheme \<Rightarrow> (u64, heim_error) outcome" where
  "topology h =
     and_then (expect (glob_paths h
         (utf8_lossy (join_path (sysfs h) ''devices/system/cpu/cpu[0-9]/topology/core_id'')))) (\<lambda>entries.
     and_then (topology_loop h entries []) (\<lambda>acc.
       if acc \<noteq> [] then Ok (of_nat (length acc))
       else Err (Error_from_io (Simple InvalidData))))"

record collector =
  col_physical_id :: "u64 option"
  col_group :: "(u64 \<times> u64) list"

definition parse_line :: "string \<Rightarrow> (u64, heim_error) outcome" where
  "parse_line line =
     (case drop 2 (split_char (CHR '':'') line) of
        [] \<Rightarrow> Err (Error_from_io (Simple InvalidData))
      | value # _ \<Rightarrow> from_str_u64 (trim value))"

fun cpu_info_loop ::
    "(io_error + string) list \<Rightarrow> collector \<Rightarrow> (collector, heim_error) outcome" where
  "cpu_info_loop [] acc = Ok acc"
| "cpu_info_loop (line # lines) acc =
     and_then (of_io line) (\<lambda>l.
       if starts_with l ''physical id'' then
         and_then (parse_line l) (\<lambda>core_id.
           if col_physical_id acc = None
           then cpu_info_loop lines (acc\<lparr>col_physical_id := Some core_id\<rparr>)
           else Panic)
       else if starts_with l ''core id'' then
         and_then (parse_line l) (\<lambda>core_id.
           (case col_physical_id acc of
              Some physical_id \<Rightarrow>
                cpu_info_loop lines
                  (acc\<lparr>col_physical_id := None,
                       col_group := List.insert (physical_id, core_id) (col_group acc)\<rparr>)
            | None \<Rightarrow> Panic))
       else cpu_info_loop lines acc)"

definition cpu_info :: "'h host_scheme \<Rightarrow> (u64 option, heim_error) outcome" where
  "cpu_info h =
     and_then (of_io (read_lines h (join_path (procfs h) ''cpuinfo''))) (\<lambda>lines.
     and_then (cpu_info_loop lines \<lparr>col_physical_id = None, col_group = []\<rparr>) (\<lambda>acc.
       if col_group acc \<noteq> [] then Ok (Some (of_nat (length (col_group acc)))) else Ok None))"

definition physical_count :: "'h host_scheme \<Rightarrow> (u64 option, heim_error) outcome" where
  "physical_count h =
     (case topology h of
        Ok count \<Rightarrow> Ok (Some count)
      | Err _ \<Rightarrow> cpu_info h
      | Panic \<Rightarrow> Panic)"

section \<open>Frequencies\<close>

record cpu_frequency =
  freq_current :: u64
  freq_min :: "u64 option"
  freq_max :: "u64 option"

fun opt_add :: "bool \<Rightarrow> u64 option \<Rightarrow> u64 option \<Rightarrow> (u64 option, heim_error) outcome" where
  "opt_add oc (Some left) (Some right) = map_ok Some (u64_add oc left right)"
| "opt_add oc (Some left) None = Ok (Some left)"
| "opt_add oc None (Some right) = Ok (Some right)"
| "opt_add oc None None = Ok None"

definition CpuFrequency_add ::
    "bool \<Rightarrow> cpu_frequency \<Rightarrow> cpu_frequency \<Rightarrow> (cpu_frequency, heim_error) outcome" where
  "CpuFrequency_add oc self rhs =
     and_then (u64_add oc (freq_current self) (freq_current rhs)) (\<lambda>current.
     and_then (opt_add oc (freq_min self) (freq_min rhs)) (\<lambda>min.
     and_then (opt_add oc (freq_max self) (freq_max rhs)) (\<lambda>max.
       Ok \<lparr>freq_current = current, freq_min = min, freq_max = max\<rparr>)))"

definition read_freq :: "'h host_scheme \<Rightarrow> path \<Rightarrow> (u64, heim_error) outcome" where
  "read_freq h path =
     and_then (of_io (read_to_string h path)) (\<lambda>contents.
       map_ok (Frequency_new h) (from_str_u64 (trim_end contents)))"

definition current_freq :: "'h host_scheme \<Rightarrow> path \<Rightarrow> (u64, heim_error) outcome" where
  "current_freq h path = read_freq h (join_path path ''scaling_cur_freq'')"

definition max_freq :: "'h host_scheme \<Rightarrow> path \<Rightarrow> (u64 option, heim_error) outcome" where
  "max_freq h path = ok_opt (read_freq h (join_path path ''scaling_max_freq''))"

definition min_freq :: "'h host_scheme \<Rightarrow> path \<Rightarrow> (u64 option, heim_error) outcome" where
  "min_freq h path = ok_opt (read_freq h (join_path path ''scaling_min_freq''))"

definition frequency_at :: "'h host_scheme \<Rightarrow> io_error + path \<Rightarrow> (cpu_frequency, heim_error) outcome" where
  "frequency_at h try_path =
     and_then (of_io try_path) (\<lambda>path.
     and_then (current_freq h path) (\<lambda>current.
     and_then (max_freq h path) (\<lambda>max.
     and_then (min_freq h path) (\<lambda>min.
       Ok \<lparr>freq_current = current, freq_min = min, freq_max = max\<rparr>))))"

definition frequencies :: "'h host_scheme \<Rightarrow> ((cpu_frequency, heim_error) outcome list, heim_error) outcome" where
  "frequencies h =
     map_ok (map (frequency_at h))
       (expect (glob_paths h (utf8_lossy (join_path (sysfs h) ''devices/system/cpu/cpu[0-9]/cpufreq/''))))"

fun frequency_loop ::
    "bool \<Rightarrow> (cpu_frequency, heim_error) outcome list \<Rightarrow> cpu_frequency \<Rightarrow> u64
      \<Rightarrow> (cpu_frequency \<times> u64, heim_error) outcome" where
  "frequency_loop oc [] acc amount = Ok (acc, amount)"
| "frequency_loop oc (freq # freqs) acc amount =
     and_then freq (\<lambda>f.
     and_then (CpuFrequency_add oc acc f) (\<lambda>acc'.
     and_then (u64_add oc amount 1) (\<lambda>amount'.
       frequency_loop oc freqs acc' amount')))"

fun opt_div :: "u64 option \<Rightarrow> u64 \<Rightarrow> (u64 option, heim_error) outcome" where
  "opt_div None n = Ok None"
| "opt_div (Some v) n = map_ok Some (u64_div v n)"

definition frequency :: "'h host_scheme \<Rightarrow> (cpu_frequency, heim_error) outcome" where
  "frequency h =
     and_then (frequencies h) (\<lambda>freqs.
     and_then (frequency_loop (overflow_checks h) freqs
         \<lparr>freq_current = 0, freq_min = None, freq_max = None\<rparr> 0) (\<lambda>(acc, amount).
       if 0 < amount then
         and_then (u64_div (freq_current acc) amount) (\<lambda>current.
         and_then (opt_div (freq_min acc) amount) (\<lambda>min.
         and_then (opt_div (freq_max acc) amount) (\<lambda>max.
           Ok \<lparr>freq_current = current, freq_min = min, freq_max = max\<rparr>)))
       else Err (with_message (Error_from_io (Simple InvalidData))
         ''No CPU frequencies was found, running in VM?'')))"

section \<open>Statistics\<close>

record cpu_stats =
  ctx_switches :: u64
  interrupts :: u64
  soft_interrupts :: u64

definition CpuStats_field :: "string \<Rightarrow> (u64 \<Rightarrow> cpu_stats \<Rightarrow> cpu_stats) option" where
  "CpuStats_field name =
     (if name = ''ctxt'' then Some (\<lambda>v s. s\<lparr>ctx_switches := v\<rparr>)
      else if name = ''intr'' then Some (\<lambda>v s. s\<lparr>interrupts := v\<rparr>)
      else if name = ''softirq'' then Some (\<lambda>v s. s\<lparr>soft_interrupts := v\<rparr>)
      else None)"

fun CpuStats_scan ::
    "'h host_scheme \<Rightarrow> string list \<Rightarrow> cpu_stats \<Rightarrow> nat \<Rightarrow> (cpu_stats, heim_error) outcome" where
  "CpuStats_scan h [] stats matched_lines = Ok stats"
| "CpuStats_scan h (line # lines) stats matched_lines =
     (case split_char SP line of
        [] \<Rightarrow> CpuStats_scan h lines stats matched_lines
      | name # parts \<Rightarrow>
          (case CpuStats_field name of
             None \<Rightarrow> CpuStats_scan h lines stats matched_lines
           | Some field \<Rightarrow>
               (case parts of
                  [] \<Rightarrow> Err (Error_missing_key name (path_debug (procfs h) @ ''/stat''))
                | raw_value # _ \<Rightarrow>
                    and_then (from_str_u64 (trim_end raw_value)) (\<lambda>v.
                      if Suc matched_lines = 3 then Ok (field v stats)
                      else CpuStats_scan h lines (field v stats) (Suc matched_lines)))))"

definition CpuStats_from_str :: "'h host_scheme \<Rightarrow> string \<Rightarrow> (cpu_stats, heim_error) outcome" where
  "CpuStats_from_str h s =
     CpuStats_scan h (str_lines s) \<lparr>ctx_switches = 0, interrupts = 0, soft_interrupts = 0\<rparr> 0"

definition cpu_stats_get :: "'h host_scheme \<Rightarrow> (cpu_stats, heim_error) outcome" where
  "cpu_stats_get h = read_into h (CpuStats_from_str h) (join_path (procfs h) ''stat'')"

section \<open>Times\<close>

record cpu_time =
  ct_user :: fval
  ct_nice :: fval
  ct_system :: fval
  ct_idle :: fval
  ct_io_wait :: fval
  ct_irq :: fval
  ct_soft_irq :: fval
  ct_steal :: fval
  ct_guest :: "fval option"
  ct_guest_nice :: "fval option"

definition CpuTime_default :: cpu_time where
  "CpuTime_default =
     \<lparr>ct_user = Fin 0, ct_nice = Fin 0, ct_system = Fin 0, ct_idle = Fin 0, ct_io_wait = Fin 0,
      ct_irq = Fin 0, ct_soft_irq = Fin 0, ct_steal = Fin 0, ct_guest = None, ct_guest_nice = None\<rparr>"

text \<open>The match on the column number; \<open>None\<close> leaves the loop.\<close>

definition CpuTime_column :: "nat \<Rightarrow> fval \<Rightarrow> cpu_time \<Rightarrow> cpu_time option" where
  "CpuTime_column idx v t =
     (if idx = 0 then Some (t\<lparr>ct_user := v\<rparr>)
      else if idx = 1 then Some (t\<lparr>ct_nice := v\<rparr>)
      else if idx = 2 then Some (t\<lparr>ct_system := v\<rparr>)
      else if idx = 3 then Some (t\<lparr>ct_idle := v\<rparr>)
      else if idx = 4 then Some (t\<lparr>ct_io_wait := v\<rparr>)
      else if idx = 5 then Some (t\<lparr>ct_irq := v\<rparr>)
      else if idx = 6 then Some (t\<lparr>ct_soft_irq := v\<rparr>)
      else if idx = 7 then Some (t\<lparr>ct_steal := v\<rparr>)
      else if idx = 8 then Some (t\<lparr>ct_guest := Some v\<rparr>)
      else if idx = 9 then Some (t\<lparr>ct_guest_nice := Some v\<rparr>)
      else None)"

fun CpuTime_columns ::
    "'h host_scheme \<Rightarrow> fval \<Rightarrow> nat \<Rightarrow> string list \<Rightarrow> cpu_time \<Rightarrow> (cpu_time, heim_error) outcome" where
  "CpuTime_columns h ticks idx [] ts = Ok ts"
| "CpuTime_columns h ticks idx (part # parts) ts =
     and_then (from_str_f64 part) (\<lambda>value.
       (case CpuTime_column idx (Time_new h (f_div rnd64 value ticks)) ts of
          None \<Rightarrow> Ok ts
        | Some ts' \<Rightarrow> CpuTime_columns h ticks (Suc idx) parts ts'))"

definition CpuTime_from_str :: "'h host_scheme \<Rightarrow> string \<Rightarrow> (cpu_time, heim_error) outcome" where
  "CpuTime_from_str h value =
     and_then (CLOCK_TICKS h) (\<lambda>clk.
       CpuTime_columns h (f64_of_u64 clk) 0 (drop 1 (split_whitespace value)) CpuTime_default)"

definition cpu_time_get :: "'h host_scheme \<Rightarrow> (cpu_time, heim_error) outcome" where
  "cpu_time_get h =
     and_then (read_lines_into h (CpuTime_from_str h) (join_path (procfs h) ''stat'')) (\<lambda>lines.
       (case lines of
          line # _ \<Rightarrow> line
        | [] \<Rightarrow> Err (Error_missing_key ''cumulative time line'' (path_debug (procfs h) @ ''/stat''))))"

definition cpu_times_item ::
    "'h host_scheme \<Rightarrow> io_error + string \<Rightarrow> (cpu_time, heim_error) outcome option" where
  "cpu_times_item h try_line =
     (case try_line of
        Inr line \<Rightarrow> if starts_with line ''cpu'' then Some (CpuTime_from_str h line) else None
      | Inl e \<Rightarrow> Some (Err (Error_from_io e)))"

definition cpu_times :: "'h host_scheme \<Rightarrow> ((cpu_time, heim_error) outcome list, heim_error) outcome" where
  "cpu_times h =
     map_ok (\<lambda>lines. List.map_filter (cpu_times_item h) (drop 1 lines))
       (of_io (read_lines h (join_path (procfs h) ''stat'')))"

section \<open>Usage and load\<close>

text \<open>\<open>secs\<close> is the time between the two measurements, as \<open>Duration::as_secs_f64\<close> gives it.\<close>

record cpu_usage =
  cu_count :: u64
  cu_user :: fval
  cu_system :: fval

definition CpuUsage_sub :: "'h host_scheme \<Rightarrow> fval \<Rightarrow> cpu_usage \<Rightarrow> cpu_usage \<Rightarrow> fval" where
  "CpuUsage_sub h secs self rhs =
     (let delta_proc = f_add rnd64 (f_sub rnd64 (cu_user self) (cu_user rhs))
            (f_sub rnd64 (cu_system self) (cu_system rhs));
          delta_time_secs = f_mul rnd64 secs (f64_of_u64 (cu_count self))
      in if \<not> f_eq delta_time_secs (Fin 0) then
           let overall_cpus_ratio = f_div rnd64 (Time_get h delta_proc) delta_time_secs;
               single_cpu_ratio = f_mul rnd64 overall_cpus_ratio (f64_of_u64 (cu_count self))
           in Ratio_new h (f64_to_f32 single_cpu_ratio)
         else Ratio_new h (Fin 0))"

text \<open>The two measurements are joined.\<close>

definition cpu_usage_get :: "bool \<Rightarrow> 'h host_scheme \<Rightarrow> (cpu_usage, heim_error) outcome" where
  "cpu_usage_get race h =
     map_ok (\<lambda>(t, n). \<lparr>cu_count = n, cu_user = ct_user t, cu_system = ct_system t\<rparr>)
       (try_join race (cpu_time_get h) (logical_count h))"

definition loadavg ::
    "'h host_scheme \<Rightarrow> i32 \<times> fval \<times> fval \<times> fval \<Rightarrow> (fval \<times> fval \<times> fval, heim_error) outcome" where
  "loadavg h getloadavg =
     (case getloadavg of (result, d0, d1, d2) \<Rightarrow>
        if result = 3
        then Ok (Ratio_new h (f64_to_f32 d0), Ratio_new h (f64_to_f32 d1), Ratio_new h (f64_to_f32 d2))
        else Err (with_ffi (Error_last_os_error (last_errno h)) ''getloadavg''))"

section \<open>Properties of the counts\<close>

lemma count_prefix_lines:
  "count_prefix pre (map Inr ls) n = Ok (n + of_nat (length (filter (\<lambda>l. starts_with l pre) ls)))"
  by (induction ls arbitrary: n) (simp_all add: algebra_simps)

lemma read_lines_valid:
  "file_data h p = Inr b \<Longrightarrow> list_all utf8_valid (str_lines b) \<Longrightarrow> read_lines h p = Inr (map Inr (str_lines b))"
  by (simp add: read_lines_def list_all_iff utf8_checked_ok)

text \<open>
  Logical CPUs: the number \<open>sysconf\<close> reports is taken unless it is negative; then the
  \<open>processor\<close> lines of cpuinfo are counted, and if that file cannot be opened, the \<open>cpu\<close> lines of stat
  without its first line, which is the sum.
\<close>

theorem logical_count_fallbacks:
  assumes "sint (sysconf_val h (SC_NPROCESSORS_ONLN h)) < 0"
    and "file_data h (join_path (procfs h) ''stat'') = Inr stat" "list_all utf8_valid (str_lines stat)"
  shows "(\<forall>b. file_data h (join_path (procfs h) ''cpuinfo'') = Inr b \<longrightarrow> list_all utf8_valid (str_lines b) \<longrightarrow>
      logical_count h = Ok (of_nat (length (filter (\<lambda>l. starts_with l ''processor'') (str_lines b))))) \<and>
    (\<forall>e. file_data h (join_path (procfs h) ''cpuinfo'') = Inl e \<longrightarrow>
      logical_count h = Ok (of_nat (length (filter (\<lambda>l. starts_with l ''cpu'') (drop 1 (str_lines stat))))))"
proof (intro conjI allI impI)
  have s: "sysconf_count h = Err (with_sysconf (Error_last_os_error (last_errno h)) (SC_NPROCESSORS_ONLN h))"
    using assms(1) by (simp add: sysconf_count_def Let_def)
  fix b
  assume "file_data h (join_path (procfs h) ''cpuinfo'') = Inr b" "list_all utf8_valid (str_lines b)"
  then show "logical_count h = Ok (of_nat (length (filter (\<lambda>l. starts_with l ''processor'') (str_lines b))))"
    using s by (simp add: logical_count_def cpuinfo_count_def read_lines_valid count_prefix_lines)
next
  have s: "sysconf_count h = Err (with_sysconf (Error_last_os_error (last_errno h)) (SC_NPROCESSORS_ONLN h))"
    using assms(1) by (simp add: sysconf_count_def Let_def)
  fix e
  assume "file_data h (join_path (procfs h) ''cpuinfo'') = Inl e"
  then have "cpuinfo_count h = Err (Error_from_io e)" by (simp add: cpuinfo_count_def read_lines_def)
  moreover have "stat_count h =
      Ok (of_nat (length (filter (\<lambda>l. starts_with l ''cpu'') (drop 1 (str_lines stat)))))"
    using assms(2,3) by (simp add: stat_count_def read_lines_valid drop_map count_prefix_lines)
  ultimately show "logical_count h =
      Ok (of_nat (length (filter (\<lambda>l. starts_with l ''cpu'') (drop 1 (str_lines stat)))))"
    using s by (simp add: logical_count_def)
qed

theorem logical_count_fallbacks_witness:
  "logical_count (sample_host\<lparr>sysconf_val := \<lambda>_. -1,
     file_data := \<lambda>p. if p = ''/proc/stat'' then Inr (unlines [''cpu 1'', ''cpu0 1'', ''cpu1 1'', ''intr 4''])
       else Inl (Os 2)\<rparr>) = Ok 2"
proof -
  let ?b = "unlines [''cpu 1'', ''cpu0 1'', ''cpu1 1'', ''intr 4'']"
  let ?h = "sample_host\<lparr>sysconf_val := \<lambda>_. -1,
     file_data := \<lambda>p. if p = ''/proc/stat'' then Inr ?b else Inl (Os 2)\<rparr>"
  have "str_lines ?b = [''cpu 1'', ''cpu0 1'', ''cpu1 1'', ''intr 4'']"
    by (rule str_lines_unlines) (simp add: line_ok_def)
  moreover have "join_path (procfs ?h) ''stat'' = ''/proc/stat''" "join_path (procfs ?h) ''cpuinfo'' = ''/proc/cpuinfo''"
    by (simp_all add: sample_host_def join_path_def starts_with_def)
  ultimately show ?thesis
    using logical_count_fallbacks [of ?h ?b]
    by (simp add: utf8_valid_ascii_Cons byte_def starts_with_def)
qed

lemma parse_line_one_colon:
  assumes "CHR '':'' \<notin> set k" "CHR '':'' \<notin> set v"
  shows "parse_line (k @ CHR '':'' # v) = Err (Error_from_io (Simple InvalidData))"
  using assms by (simp add: parse_line_def split_char_append)

lemma cpu_info_loop_skip:
  "\<forall>l\<in>set ls. \<not> starts_with l ''physical id'' \<and> \<not> starts_with l ''core id'' \<Longrightarrow>
   cpu_info_loop (map Inr ls @ ms) acc = cpu_info_loop ms acc"
  by (induction ls) auto

text \<open>
  The fallback for physical CPUs cannot succeed: it takes the third colon-separated field of a
  line, and the lines of cpuinfo have one colon. On every table that has a \<open>physical id\<close> line of that
  shape the result is an error of kind \<open>InvalidData\<close>; the panic for a missing partner line is not
  reached either.
\<close>

theorem cpu_info_always_fails:
  assumes "file_data h (join_path (procfs h) ''cpuinfo'') = Inr b" "list_all utf8_valid (str_lines b)"
    and "str_lines b = ls @ (''physical id'' @ pad @ CHR '':'' # v) # ms"
    and "\<forall>l\<in>set ls. \<not> starts_with l ''physical id'' \<and> \<not> starts_with l ''core id''"
    and "CHR '':'' \<notin> set pad" "CHR '':'' \<notin> set v"
  shows "cpu_info h = Err (Error_from_io (Simple InvalidData))"
proof -
  have p: "parse_line (''physical id'' @ pad @ CHR '':'' # v) = Err (Error_from_io (Simple InvalidData))"
    using parse_line_one_colon [of "''physical id'' @ pad" v] assms(5,6) by simp
  have "cpu_info_loop (map Inr (str_lines b)) acc = Err (Error_from_io (Simple InvalidData))" for acc
    using p unfolding assms(3) map_append cpu_info_loop_skip [OF assms(4)]
    by (simp add: starts_with_def)
  then show ?thesis
    by (simp add: cpu_info_def read_lines_valid [OF assms(1,2)])
qed

theorem cpu_info_always_fails_witness:
  "cpu_info (sample_host\<lparr>file_data := \<lambda>_. Inr (unlines
     [''processor : 0'', ''physical id'' @ [TAB] @ '': 0'', ''core id : 0''])\<rparr>) = Err (Error_from_io (Simple InvalidData))"
proof -
  let ?l = "[''processor : 0'', ''physical id'' @ [TAB] @ '': 0'', ''core id : 0'']"
  have "str_lines (unlines ?l) = ?l" by (rule str_lines_unlines) (simp add: line_ok_def)
  then show ?thesis
    using cpu_info_always_fails [of "sample_host\<lparr>file_data := \<lambda>_. Inr (unlines ?l)\<rparr>" "unlines ?l"
        "[''processor : 0'']" "[TAB]" "'' 0''" "[''core id : 0'']"]
    by (simp add: utf8_valid_ascii_Cons byte_def starts_with_def)
qed

section \<open>Properties of the frequencies\<close>

text \<open>The sum the loop builds, as natural numbers, and when it fits into 64 bits.\<close>

definition sum_current :: "cpu_frequency list \<Rightarrow> nat" where
  "sum_current fs = (\<Sum>f\<leftarrow>fs. unat (freq_current f))"

definition sum_opt :: "(cpu_frequency \<Rightarrow> u64 option) \<Rightarrow> cpu_frequency list \<Rightarrow> nat" where
  "sum_opt sel fs = (\<Sum>f\<leftarrow>fs. case sel f of None \<Rightarrow> 0 | Some v \<Rightarrow> unat v)"

definition opt_nat :: "u64 option \<Rightarrow> nat" where
  "opt_nat o' = (case o' of None \<Rightarrow> 0 | Some v \<Rightarrow> unat v)"

lemma opt_nat_simps [simp]: "opt_nat None = 0" "opt_nat (Some v) = unat v"
  by (simp_all add: opt_nat_def)

lemma opt_add_exact:
  assumes "opt_nat a + opt_nat b < 2 ^ 64"
  shows "\<exists>c. opt_add oc a b = Ok c \<and> opt_nat c = opt_nat a + opt_nat b \<and> (c = None \<longleftrightarrow> a = None \<and> b = None)"
  using assms
  by (cases a; cases b) (auto simp: opt_nat_def u64_add_exact unat_u64_add)

lemma frequency_loop_sum:
  assumes "unat (freq_current acc) + sum_current fs < 2 ^ 64" "opt_nat (freq_min acc) + sum_opt freq_min fs < 2 ^ 64"
    "opt_nat (freq_max acc) + sum_opt freq_max fs < 2 ^ 64" "unat n + length fs < 2 ^ 64"
  shows "\<exists>acc'. frequency_loop oc (map Ok fs) acc n = Ok (acc', n + of_nat (length fs)) \<and>
    unat (freq_current acc') = unat (freq_current acc) + sum_current fs \<and>
    opt_nat (freq_min acc') = opt_nat (freq_min acc) + sum_opt freq_min fs \<and>
    opt_nat (freq_max acc') = opt_nat (freq_max acc) + sum_opt freq_max fs \<and>
    (freq_min acc' = None \<longleftrightarrow> freq_min acc = None \<and> (\<forall>f\<in>set fs. freq_min f = None))"
  using assms
proof (induction fs arbitrary: acc n)
  case Nil
  then show ?case by (simp add: sum_current_def sum_opt_def)
next
  case (Cons f fs)
  have sums: "sum_current (f # fs) = unat (freq_current f) + sum_current fs"
    "sum_opt freq_min (f # fs) = opt_nat (freq_min f) + sum_opt freq_min fs"
    "sum_opt freq_max (f # fs) = opt_nat (freq_max f) + sum_opt freq_max fs"
    by (simp_all add: sum_current_def sum_opt_def opt_nat_def)
  have "opt_nat (freq_min acc) + opt_nat (freq_min f) < 2 ^ 64" using Cons.prems(2) sums by linarith
  from opt_add_exact [OF this, of oc] obtain mn where mn: "opt_add oc (freq_min acc) (freq_min f) = Ok mn"
    "opt_nat mn = opt_nat (freq_min acc) + opt_nat (freq_min f)"
    "mn = None \<longleftrightarrow> freq_min acc = None \<and> freq_min f = None" by blast
  have "opt_nat (freq_max acc) + opt_nat (freq_max f) < 2 ^ 64" using Cons.prems(3) sums by linarith
  from opt_add_exact [OF this, of oc] obtain mx where mx: "opt_add oc (freq_max acc) (freq_max f) = Ok mx"
    "opt_nat mx = opt_nat (freq_max acc) + opt_nat (freq_max f)" by blast
  have cur: "unat (freq_current acc) + unat (freq_current f) < 2 ^ 64" using Cons.prems(1) sums by linarith
  have n1: "unat n + unat (1 :: u64) < 2 ^ 64" using Cons.prems(4) by simp
  let ?acc = "\<lparr>freq_current = freq_current acc + freq_current f, freq_min = mn, freq_max = mx\<rparr>"
  have step: "frequency_loop oc (map Ok (f # fs)) acc n = frequency_loop oc (map Ok fs) ?acc (n + 1)"
    using cur n1 mn(1) mx(1) by (simp add: CpuFrequency_add_def u64_add_exact)
  have "\<exists>acc'. frequency_loop oc (map Ok fs) ?acc (n + 1) = Ok (acc', n + 1 + of_nat (length fs)) \<and>
    unat (freq_current acc') = unat (freq_current ?acc) + sum_current fs \<and>
    opt_nat (freq_min acc') = opt_nat (freq_min ?acc) + sum_opt freq_min fs \<and>
    opt_nat (freq_max acc') = opt_nat (freq_max ?acc) + sum_opt freq_max fs \<and>
    (freq_min acc' = None \<longleftrightarrow> freq_min ?acc = None \<and> (\<forall>f\<in>set fs. freq_min f = None))"
    using Cons.prems sums mn(2) mx(2) cur n1
    by (intro Cons.IH) (simp_all add: unat_u64_add)
  then show ?case
    unfolding step using sums mn mx cur by (auto simp: unat_u64_add algebra_simps)
qed

text \<open>
  The average frequency: when the sums fit into 64 bits, the current frequency is the integer
  average over all CPUs. The limits are divided by the number of all CPUs too, those that report no
  limit included, so a CPU without a limit counts as one with limit zero.
\<close>

theorem frequency_average:
  assumes "glob_paths h (utf8_lossy (join_path (sysfs h) ''devices/system/cpu/cpu[0-9]/cpufreq/'')) = Some ps"
    and "map (frequency_at h) ps = map Ok fs" "fs \<noteq> []" "length fs < 2 ^ 64"
    and "sum_current fs < 2 ^ 64" "sum_opt freq_min fs < 2 ^ 64" "sum_opt freq_max fs < 2 ^ 64"
  shows "\<exists>r. frequency h = Ok r \<and> unat (freq_current r) = sum_current fs div length fs \<and>
    ((\<exists>f\<in>set fs. freq_min f \<noteq> None) \<longrightarrow>
      (\<exists>m. freq_min r = Some m \<and> unat m = sum_opt freq_min fs div length fs))"
proof -
  let ?z = "\<lparr>freq_current = 0, freq_min = None, freq_max = None\<rparr> :: cpu_frequency"
  have pre: "unat (freq_current ?z) + sum_current fs < 2 ^ 64" "opt_nat (freq_min ?z) + sum_opt freq_min fs < 2 ^ 64"
    "opt_nat (freq_max ?z) + sum_opt freq_max fs < 2 ^ 64" "unat (0 :: u64) + length fs < 2 ^ 64"
    using assms(4-7) by simp_all
  from frequency_loop_sum [OF pre, of "overflow_checks h"] obtain acc where a:
    "frequency_loop (overflow_checks h) (map Ok fs) ?z 0 = Ok (acc, 0 + of_nat (length fs)) \<and>
     unat (freq_current acc) = unat (freq_current ?z) + sum_current fs \<and>
     opt_nat (freq_min acc) = opt_nat (freq_min ?z) + sum_opt freq_min fs \<and>
     opt_nat (freq_max acc) = opt_nat (freq_max ?z) + sum_opt freq_max fs \<and>
     (freq_min acc = None \<longleftrightarrow> freq_min ?z = None \<and> (\<forall>f\<in>set fs. freq_min f = None))" ..
  from a have acc: "frequency_loop (overflow_checks h) (map Ok fs) ?z 0 = Ok (acc, of_nat (length fs))"
    "unat (freq_current acc) = sum_current fs" "opt_nat (freq_min acc) = sum_opt freq_min fs"
    "freq_min acc = None \<longleftrightarrow> (\<forall>f\<in>set fs. freq_min f = None)"
    by simp_all
  have n: "unat (of_nat (length fs) :: u64) = length fs" "(of_nat (length fs) :: u64) \<noteq> 0"
    using assms(3,4) by (simp_all add: unat_of_nat flip: unat_eq_0)
  then have pos: "0 < (of_nat (length fs) :: u64)" by (simp add: word_gt_0)
  have fr: "frequencies h = Ok (map Ok fs)" using assms(1,2) by (simp add: frequencies_def)
  obtain mn where mn: "opt_div (freq_min acc) (of_nat (length fs)) = Ok mn"
    "mn = map_option (\<lambda>v. v div of_nat (length fs)) (freq_min acc)"
    using n(2) by (cases "freq_min acc") (auto simp: u64_div_def)
  obtain mx where mx: "opt_div (freq_max acc) (of_nat (length fs)) = Ok mx"
    using n(2) by (cases "freq_max acc") (auto simp: u64_div_def)
  have "frequency h = Ok \<lparr>freq_current = freq_current acc div of_nat (length fs), freq_min = mn, freq_max = mx\<rparr>"
    using acc(1) pos n(2) mn(1) mx by (simp add: frequency_def fr u64_div_def)
  then show ?thesis
    using acc n(1) mn(2) by (auto simp: unat_div opt_nat_def split: option.splits)
qed

definition sample_freq_host :: host where
  "sample_freq_host = sample_host\<lparr>glob_paths := \<lambda>_. Some [Inr ''/c0'', Inr ''/c1''],
     file_data := \<lambda>p.
       if p = ''/c0/scaling_cur_freq'' then Inr (''100'' @ [NL])
       else if p = ''/c1/scaling_cur_freq'' then Inr (''300'' @ [NL])
       else if p = ''/c0/scaling_min_freq'' then Inr (''50'' @ [NL])
       else Inl (Os 2)\<rparr>"

lemma sample_frequencies:
  "map (frequency_at sample_freq_host) [Inr ''/c0'', Inr ''/c1''] =
   map Ok [\<lparr>freq_current = 100000, freq_min = Some 50000, freq_max = None\<rparr>,
     \<lparr>freq_current = 300000, freq_min = None, freq_max = None\<rparr>]"
  by code_simp

theorem frequency_average_witness:
  "\<exists>r. frequency sample_freq_host = Ok r \<and> unat (freq_current r) = 200000 \<and>
     (\<exists>m. freq_min r = Some m \<and> unat m = 25000)"
  using frequency_average [OF _ sample_frequencies]
  by (simp add: sample_freq_host_def sum_current_def sum_opt_def flip: numeral_2_eq_2)

section \<open>Properties of the statistics and times\<close>

text \<open>A line of the statistics: a key, a number, and possibly more columns.\<close>

record stat_entry =
  se_key :: string
  se_val :: u64
  se_rest :: string

definition render_se :: "stat_entry \<Rightarrow> string" where
  "render_se e = se_key e @ [SP] @ show_u64 (se_val e) @ se_rest e"

definition good_se :: "stat_entry \<Rightarrow> bool" where
  "good_se e \<longleftrightarrow> token (se_key e) \<and> (se_rest e = [] \<or> hd (se_rest e) = SP) \<and> line_ok (se_rest e)"

definition CpuStats_setter :: "string \<Rightarrow> (stat_entry \<Rightarrow> cpu_stats \<Rightarrow> cpu_stats) option" where
  "CpuStats_setter k = map_option (\<lambda>f e. f (se_val e)) (CpuStats_field k)"

lemma split_render_se:
  assumes "good_se e"
  shows "\<exists>rest. split_char SP (render_se e) = se_key e # show_u64 (se_val e) # rest"
proof -
  have k: "SP \<notin> set (se_key e)" using assms by (simp add: good_se_def token_no_SP)
  have v: "SP \<notin> set (show_u64 (se_val e))" by (simp add: token_no_SP)
  show ?thesis
  proof (cases "se_rest e")
    case Nil
    with k v show ?thesis by (simp add: render_se_def split_char_append)
  next
    case (Cons c cs)
    with assms have "c = SP" by (simp add: good_se_def)
    with Cons k v show ?thesis by (simp add: render_se_def split_char_append)
  qed
qed

interpretation stats_scan: keyed_scan "CpuStats_scan h" render_se se_key good_se CpuStats_setter
    "\<lambda>n. n = 3" Ok for h :: "'h host_scheme"
proof
  fix e f ls r n
  assume g: "good_se e" and "CpuStats_setter (se_key e) = Some f"
  then obtain f' where f': "CpuStats_field (se_key e) = Some f'" "f = (\<lambda>e. f' (se_val e))"
    by (auto simp: CpuStats_setter_def)
  have "trim_end (show_u64 (se_val e)) = show_u64 (se_val e)"
    using token_show_u64 [of "se_val e"] by (simp add: trim_end_solid token_def)
  with g f' split_render_se [OF g] show "CpuStats_scan h (render_se e # ls) r n =
      (if Suc n = 3 then Ok (f e r) else CpuStats_scan h ls (f e r) (Suc n))"
    by (auto simp: u64_str.from_str_show)
next
  fix e ls r n
  assume "good_se e" "CpuStats_setter (se_key e) = None"
  then show "CpuStats_scan h (render_se e # ls) r n = CpuStats_scan h ls r n"
    using split_render_se [of e] by (auto simp: CpuStats_setter_def)
qed simp

lemma CpuStats_setter_get:
  assumes "CpuStats_setter (se_key e) = Some f"
  shows "ctx_switches (f e r) = (if se_key e = ''ctxt'' then se_val e else ctx_switches r)"
    "interrupts (f e r) = (if se_key e = ''intr'' then se_val e else interrupts r)"
    "soft_interrupts (f e r) = (if se_key e = ''softirq'' then se_val e else soft_interrupts r)"
  using assms by (auto simp: CpuStats_setter_def CpuStats_field_def split: if_splits)

lemma line_ok_render_se: "good_se e \<Longrightarrow> line_ok (render_se e)"
  using token_last [OF token_show_u64, of "se_val e"] token_show_u64 [of "se_val e"]
  by (cases "se_rest e = []") (auto simp: line_ok_def render_se_def good_se_def token_no_NL)

lemma CpuStats_keys: "CpuStats_setter k \<noteq> None \<longleftrightarrow> k \<in> set [''ctxt'', ''intr'', ''softirq'']"
  by (simp add: CpuStats_setter_def CpuStats_field_def)

text \<open>
  CPU statistics: in a stat table with distinct keys, in any order, each of the three counters is
  the first number on its line; a counter whose line is missing is 0, without an error.
\<close>

theorem CpuStats_from_str_table:
  assumes "list_all good_se es" "distinct (map se_key es)"
  shows "\<exists>s. CpuStats_from_str h (unlines (map render_se es)) = Ok s \<and>
    (\<forall>e\<in>set es. (se_key e = ''ctxt'' \<longrightarrow> ctx_switches s = se_val e) \<and>
      (se_key e = ''intr'' \<longrightarrow> interrupts s = se_val e) \<and>
      (se_key e = ''softirq'' \<longrightarrow> soft_interrupts s = se_val e)) \<and>
    (''ctxt'' \<notin> se_key ` set es \<longrightarrow> ctx_switches s = 0) \<and>
    (''intr'' \<notin> se_key ` set es \<longrightarrow> interrupts s = 0) \<and>
    (''softirq'' \<notin> se_key ` set es \<longrightarrow> soft_interrupts s = 0)"
proof -
  let ?z = "\<lparr>ctx_switches = 0, interrupts = 0, soft_interrupts = 0\<rparr> :: cpu_stats"
  let ?s = "foldl (apply_entry se_key CpuStats_setter) ?z es"
  have "str_lines (unlines (map render_se es)) = map render_se es"
    using assms(1) by (intro str_lines_unlines) (auto simp: list_all_iff line_ok_render_se)
  then have ok: "CpuStats_from_str h (unlines (map render_se es)) = Ok ?s"
    using stats_scan.scan_counted [OF assms _ _ CpuStats_keys, of h ?z]
    by (simp add: CpuStats_from_str_def numeral_3_eq_3)
  have keys: "CpuStats_setter ''ctxt'' \<noteq> None" "CpuStats_setter ''intr'' \<noteq> None"
    "CpuStats_setter ''softirq'' \<noteq> None"
    by (simp_all add: CpuStats_setter_def CpuStats_field_def)
  note get = entry_get [where val = se_val and key = se_key and setter = CpuStats_setter, OF _ assms(2)]
  have "ctx_switches ?s = se_val e" if "e \<in> set es" "se_key e = ''ctxt''" for e
    by (rule get [OF _ that keys(1)]) (simp add: CpuStats_setter_get)
  moreover have "interrupts ?s = se_val e" if "e \<in> set es" "se_key e = ''intr''" for e
    by (rule get [OF _ that keys(2)]) (simp add: CpuStats_setter_get)
  moreover have "soft_interrupts ?s = se_val e" if "e \<in> set es" "se_key e = ''softirq''" for e
    by (rule get [OF _ that keys(3)]) (simp add: CpuStats_setter_get)
  moreover have "(''ctxt'' \<notin> se_key ` set es \<longrightarrow> ctx_switches ?s = ctx_switches ?z) \<and>
      (''intr'' \<notin> se_key ` set es \<longrightarrow> interrupts ?s = interrupts ?z) \<and>
      (''softirq'' \<notin> se_key ` set es \<longrightarrow> soft_interrupts ?s = soft_interrupts ?z)"
    by (intro conjI impI)
       (rule entry_get_absent [where val = se_val and key = se_key]; simp add: CpuStats_setter_get)+
  ultimately show ?thesis using ok by simp
qed

theorem CpuStats_from_str_table_witness:
  "\<exists>s. CpuStats_from_str sample_host (unlines (map render_se
     [\<lparr>se_key = ''intr'', se_val = 5, se_rest = '' 1 4''\<rparr>, \<lparr>se_key = ''ctxt'', se_val = 8, se_rest = ''''\<rparr>])) = Ok s \<and>
     interrupts s = 5 \<and> ctx_switches s = 8 \<and> soft_interrupts s = 0"
proof -
  let ?es = "[\<lparr>se_key = ''intr'', se_val = 5, se_rest = '' 1 4''\<rparr>, \<lparr>se_key = ''ctxt'', se_val = 8, se_rest = ''''\<rparr>]"
  have "list_all good_se ?es"
    by (simp add: good_se_def token_def solid_def ascii_ws1_def byte_def line_ok_def)
  from CpuStats_from_str_table [OF this, of sample_host] show ?thesis by simp
qed

text \<open>
  CPU times: in a line of the stat table, whatever its label, the first ten numbers are the ten
  times in seconds in the kernel's order, and what follows them is ignored.
\<close>

theorem CpuTime_from_str_line:
  fixes h :: "'h host_scheme" and clk :: u64
  assumes "CLOCK_TICKS h = Ok clk" "token label" "list_all token extra"
    and "extra = [] \<or> (\<exists>v. from_str_f64 (hd extra) = Ok v)"
  defines "sec \<equiv> \<lambda>n. Time_new h (f_div rnd64 (rnd64 (of_nat n)) (f64_of_u64 clk))"
  shows "CpuTime_from_str h (join_with [SP]
      (label # map show_nat [user, nice, system, idle, io_wait, irq, soft_irq, steal, guest, guest_nice] @ extra)) =
    Ok \<lparr>ct_user = sec user, ct_nice = sec nice, ct_system = sec system, ct_idle = sec idle,
        ct_io_wait = sec io_wait, ct_irq = sec irq, ct_soft_irq = sec soft_irq, ct_steal = sec steal,
        ct_guest = Some (sec guest), ct_guest_nice = Some (sec guest_nice)\<rparr>"
proof -
  let ?ns = "[user, nice, system, idle, io_wait, irq, soft_irq, steal, guest, guest_nice]"
  have "split_whitespace (join_with [SP] (label # map show_nat ?ns @ extra)) =
      label # map show_nat ?ns @ extra"
    by (rule split_whitespace_join) (use assms(2,3) in \<open>simp add: list_all_iff\<close>)
  then have split: "drop 1 (split_whitespace (join_with [SP] (label # map show_nat ?ns @ extra))) =
      map show_nat ?ns @ extra" by (simp del: join_with.simps)
  have tail: "CpuTime_columns h ticks 10 extra ts = Ok ts" for ticks ts
    using assms(4) by (cases extra) (auto simp: CpuTime_column_def)
  have num: "from_str_f64 (show_nat n) = Ok (rnd64 (of_nat n))" for n
    by (simp add: from_str_f64_def parse_f64_show_nat)
  show ?thesis
    unfolding CpuTime_from_str_def split
    using assms(1) tail [simplified eval_nat_numeral]
    by (simp add: num CpuTime_column_def CpuTime_default_def sec_def eval_nat_numeral del: and_then_eq_Ok)
qed

theorem CpuTime_from_str_line_witness:
  "\<exists>t. CpuTime_from_str sample_host (join_with [SP]
     (''cpu0'' # map show_nat [700, 0, 300, 0, 0, 0, 0, 0, 0, 0] @ [])) = Ok t \<and>
     ct_user t = rnd64 7 \<and> ct_system t = rnd64 3"
proof -
  have "CLOCK_TICKS sample_host = Ok 100"
    by (simp add: CLOCK_TICKS_def clock_ticks_def sample_host_def Let_def)
  moreover have "token ''cpu0''" by (simp add: token_def solid_def ascii_ws1_def byte_def)
  moreover have "rnd64 700 = Fin 700" "rnd64 300 = Fin 300" "f64_of_u64 100 = Fin 100"
    using rnd64_of_nat_exact [of 700] rnd64_of_nat_exact [of 300] rnd64_of_nat_exact [of 100]
    by (simp_all add: f64_of_u64_def)
  ultimately show ?thesis
    using CpuTime_from_str_line [of sample_host 100 "''cpu0''" "[]" 700 0 300 0 0 0 0 0 0 0]
    by (simp del: join_with.simps list.map add: sample_host_def)
qed

end
