(* ===== verification/Process_Linux.thy ===== *)
theory Process_Linux
  imports Process_Procfs Process_Handle Net_Linux Cpu_Linux
begin

text \<open>
  Processes on Linux: \<open>heim-process/src/sys/linux/process/mod.rs\<close>, \<open>sys/linux/pids.rs\<close>.

  A handle keeps a process id and the creation time it had when the handle was made. Operations read
  the host they run on; an operation with two effects (checking, then signalling) takes the host at
  either moment, since the system may change in between. The step relation \<open>signal_step\<close> runs
  \<open>_signal\<close> next to arbitrary changes of the host, one step for each of its three waits. Which changes a
  system really makes is left open, so what holds of all runs holds of the real ones.

  The theorems: handles never panic unless the boot time is NaN; a signal is only sent after a check
  that read the identity of the handle, and reaches its process when nothing changes in between; the
  name is extended from the command line only by a text it is a prefix of.
\<close>

record process =
  proc_pid :: pid
  proc_unique_id :: unique_id

definition Process_get :: "'h host_scheme \<Rightarrow> pid \<Rightarrow> (process, process_error) outcome" where
  "Process_get h pid =
     and_then (stat_read h pid) (\<lambda>st.
     and_then (UniqueId_new h pid (stat_create_time st)) (\<lambda>uid.
       Ok \<lparr>proc_pid = pid, proc_unique_id = uid\<rparr>))"

definition Process_current :: "'h unix_host_scheme \<Rightarrow> (process, process_error) outcome" where
  "Process_current u = Process_get u (getpid_call u)"

text \<open>Equality of handles: that of their identities.\<close>

definition Process_eq :: "process \<Rightarrow> process \<Rightarrow> bool" where
  "Process_eq a b \<longleftrightarrow> UniqueId_eq (proc_unique_id a) (proc_unique_id b)"

definition Process_parent_pid :: "'h host_scheme \<Rightarrow> process \<Rightarrow> (pid, process_error) outcome" where
  "Process_parent_pid h p = map_ok stat_ppid (stat_read h (proc_pid p))"

text \<open>
  \<open>Path::file_name\<close>: the last component, if it is an ordinary one. Empty components and dots are
  skipped, except a leading dot, which is a component of its own.
\<close>

definition path_components :: "bytes \<Rightarrow> bytes list" where
  "path_components p =
     (case split_char (CHR ''/'') p of
        [] \<Rightarrow> []
      | c # cs \<Rightarrow> filter (\<lambda>c. c \<noteq> []) [c] @ filter (\<lambda>c. c \<noteq> [] \<and> c \<noteq> ''.'') cs)"

definition Path_file_name :: "bytes \<Rightarrow> bytes option" where
  "Path_file_name p =
     (case rev (path_components p) of
        [] \<Rightarrow> None
      | c # _ \<Rightarrow> if c = ''..'' \<or> c = ''.'' then None else Some c)"

text \<open>The first argument of a command line, from one call of the iterator.\<close>

definition Command_first :: "command \<Rightarrow> (bytes option, process_error) outcome" where
  "Command_first c = load (map_ok fst (CommandIter_next (Command_into_iter c)))"

definition Process_name :: "'h host_scheme \<Rightarrow> process \<Rightarrow> (string, process_error) outcome" where
  "Process_name h p =
     and_then (stat_read h (proc_pid p)) (\<lambda>st.
       let name = stat_name st in
       if 15 \<le> length name then
         (case command_read h (proc_pid p) of
            Ok command \<Rightarrow>
              and_then (Command_first command) (\<lambda>arg.
                (case Option.bind arg Path_file_name of
                   Some exe \<Rightarrow> if starts_with exe name then Ok (utf8_lossy exe) else Ok name
                 | None \<Rightarrow> Ok name))
          | Err _ \<Rightarrow> Ok name
          | Panic \<Rightarrow> Panic)
       else Ok name)"

definition Process_exe :: "'h unix_host_scheme \<Rightarrow> process \<Rightarrow> (path, process_error) outcome" where
  "Process_exe u p =
     (case link_target u (process_file_path u (proc_pid p) ''exe'') of
        Inr path \<Rightarrow> Ok path
      | Inl _ \<Rightarrow>
          if pid_exists u (proc_pid p) then Ok [] else Err (ZombieProcess (proc_pid p)))"

definition Process_command :: "'h host_scheme \<Rightarrow> process \<Rightarrow> (command, process_error) outcome" where
  "Process_command h p = command_read h (proc_pid p)"

definition Process_cwd :: "'h unix_host_scheme \<Rightarrow> process \<Rightarrow> (path, process_error) outcome" where
  "Process_cwd u p =
     (case link_target u (process_file_path u (proc_pid p) ''cwd'') of
        Inr path \<Rightarrow> Ok path
      | Inl e \<Rightarrow>
          if io_kind e = PermissionDenied then Err (AccessDenied (proc_pid p))
          else if pid_exists u (proc_pid p) then Err (ZombieProcess (proc_pid p))
          else Err (AccessDenied (proc_pid p)))"

definition Process_status :: "'h host_scheme \<Rightarrow> process \<Rightarrow> (status, process_error) outcome" where
  "Process_status h p = map_ok stat_state (stat_read h (proc_pid p))"

definition Process_environment ::
    "'h host_scheme \<Rightarrow> process \<Rightarrow> (environment, process_error) outcome option" where
  "Process_environment h p = environment_read h (proc_pid p)"

definition Process_create_time :: "'h host_scheme \<Rightarrow> process \<Rightarrow> (fval, process_error) outcome" where
  "Process_create_time h p = Ok (UniqueId_create_time h (proc_unique_id p))"

definition Process_cpu_time :: "'h host_scheme \<Rightarrow> process \<Rightarrow> (proc_cpu_time, process_error) outcome" where
  "Process_cpu_time h p = map_ok CpuTime_from_stat (stat_read h (proc_pid p))"

definition Process_memory :: "'h host_scheme \<Rightarrow> process \<Rightarrow> (proc_memory, process_error) outcome" where
  "Process_memory h p = stat_memory h (proc_pid p)"

definition Process_niceness :: "'h unix_host_scheme \<Rightarrow> process \<Rightarrow> (i32, process_error) outcome" where
  "Process_niceness u p = pid_priority u (proc_pid p)"

definition Process_set_niceness ::
    "'h unix_host_scheme \<Rightarrow> process \<Rightarrow> i32 \<Rightarrow> (unit, process_error) outcome" where
  "Process_set_niceness u p value = pid_setpriority u (proc_pid p) value"

definition Process_is_running :: "'h host_scheme \<Rightarrow> process \<Rightarrow> (bool, process_error) outcome" where
  "Process_is_running h p = map_ok (\<lambda>other. Process_eq other p) (Process_get h (proc_pid p))"

text \<open>\<open>_signal\<close>: checked on the host \<open>h\<close>, sent on the host \<open>u\<close>.\<close>

definition Process_signal ::
    "'g host_scheme \<Rightarrow> 'h unix_host_scheme \<Rightarrow> process \<Rightarrow> signal \<Rightarrow> (unit, process_error) outcome" where
  "Process_signal h u p signal =
     and_then (Process_is_running h p) (\<lambda>running.
       if running then pid_kill u (proc_pid p) signal else Err (NoSuchProcess (proc_pid p)))"

definition Process_suspend where "Process_suspend h u p = Process_signal h u p Stop"
definition Process_resume where "Process_resume h u p = Process_signal h u p Cont"
definition Process_terminate where "Process_terminate h u p = Process_signal h u p Term"
definition Process_kill where "Process_kill h u p = Process_signal h u p Kill"

definition Process_wait where "Process_wait ticks u us p = pid_wait ticks u us (proc_pid p)"

definition Process_io_counters :: "'h unix_host_scheme \<Rightarrow> process \<Rightarrow> (proc_io, process_error) outcome" where
  "Process_io_counters u p = io_read (EACCES u) u (proc_pid p)"

definition Process_net_io_counters ::
    "'h host_scheme \<Rightarrow> process \<Rightarrow> ((net_counters, process_error) outcome list, process_error) outcome" where
  "Process_net_io_counters h p =
     (case net_io_counters_for_pid h (proc_pid p) of
        Ok items \<Rightarrow> Ok (map load items)
      | Err e \<Rightarrow>
          if Error_kind e = NotFound then
            (case Process_status h p of
               Ok Zombie \<Rightarrow> Err (ZombieProcess (proc_pid p))
             | Panic \<Rightarrow> Panic
             | _ \<Rightarrow> Err (Load e))
          else Err (Load e)
      | Panic \<Rightarrow> Panic)"

section \<open>Listing\<close>

definition pids_item :: "io_error + string \<Rightarrow> (pid, heim_error) outcome option" where
  "pids_item entry =
     (case entry of
        Inl e \<Rightarrow> Some (Err (Error_from_io e))
      | Inr name \<Rightarrow>
          if utf8_valid name then (case parse_i32 name of Ok pid \<Rightarrow> Some (Ok pid) | _ \<Rightarrow> None) else None)"

definition pids :: "'h host_scheme \<Rightarrow> ((pid, heim_error) outcome list, heim_error) outcome" where
  "pids h = map_ok (List.map_filter pids_item) (of_io (dir_entries h (procfs h)))"

definition processes :: "'h host_scheme \<Rightarrow> ((process, process_error) outcome list, heim_error) outcome" where
  "processes h = map_ok (map (\<lambda>pid. and_then (load pid) (Process_get h))) (pids h)"

section \<open>Signalling next to a changing system\<close>

text \<open>
  \<open>_signal\<close> waits three times: for the stat file of the process, for the boot time, and for the signal to be
  sent. The system may be another one after each of them. What \<open>is_running\<close> does up to the first file, and
  from there on:
\<close>

definition stat_file :: "'h host_scheme \<Rightarrow> pid \<Rightarrow> (stat, process_error) outcome" where
  "stat_file h pid =
     (let path = process_file_path h pid ''stat'' in
      case read_to_string h path of
        Inl e \<Rightarrow>
          if io_kind e = NotFound then Err (NoSuchProcess pid)
          else Err (Load (with_file (Error_from_io e) path))
      | Inr contents \<Rightarrow> load (Stat_from_str h contents))"

definition is_running_rest :: "'h host_scheme \<Rightarrow> process \<Rightarrow> stat \<Rightarrow> (bool, process_error) outcome" where
  "is_running_rest h p stats =
     and_then (load (boot_time h)) (\<lambda>boot.
     and_then (UniqueId_new h (proc_pid p) (f_add rnd64 (stat_create_time stats) boot)) (\<lambda>uid.
       Ok (Process_eq \<lparr>proc_pid = proc_pid p, proc_unique_id = uid\<rparr> p)))"

text \<open>\<open>is_running\<close> and \<open>_signal\<close> with the file read on \<open>f\<close>, the boot time on \<open>b\<close>, the signal sent on \<open>v\<close>.\<close>

definition Process_is_running_between ::
    "'f host_scheme \<Rightarrow> 'b host_scheme \<Rightarrow> process \<Rightarrow> (bool, process_error) outcome" where
  "Process_is_running_between f b p = and_then (stat_file f (proc_pid p)) (is_running_rest b p)"

definition Process_signal_between ::
    "'f host_scheme \<Rightarrow> 'b host_scheme \<Rightarrow> 'h unix_host_scheme \<Rightarrow> process \<Rightarrow> signal \<Rightarrow> (unit, process_error) outcome" where
  "Process_signal_between f b v p signal =
     and_then (Process_is_running_between f b p) (\<lambda>running.
       if running then pid_kill v (proc_pid p) signal else Err (NoSuchProcess (proc_pid p)))"

lemma map_ok_and_then: "map_ok f (and_then r g) = and_then r (\<lambda>x. map_ok f (g x))"
  by (cases r) simp_all

lemma Process_is_running_steps: "Process_is_running_between h h p = Process_is_running h p"
  by (simp add: Process_is_running_between_def Process_is_running_def Process_get_def stat_read_def stat_file_def
      is_running_rest_def [abs_def] Let_def and_then_assoc map_ok_and_then split: sum.splits)

lemma Process_signal_steps: "Process_signal_between h h v p s = Process_signal h v p s"
  by (simp add: Process_signal_between_def Process_signal_def Process_is_running_steps)

text \<open>
  The phases of one call: each remembers the hosts of the steps done so far. Between any two of them the
  host may change in any way.
\<close>

datatype 'u phase =
    Unchecked | File_read 'u stat | Checked 'u 'u | Refused process_error
  | Sent 'u 'u 'u "(unit, process_error) outcome"

type_synonym 'h signal_state = "'h unix_host_scheme \<times> 'h unix_host_scheme phase"

inductive signal_step :: "process \<Rightarrow> signal \<Rightarrow> 'h signal_state \<Rightarrow> 'h signal_state \<Rightarrow> bool"
  for p :: process and s :: signal where
  Change: "signal_step p s (u, ph) (u', ph)"
| Read_file: "stat_file u (proc_pid p) = Ok st \<Longrightarrow> signal_step p s (u, Unchecked) (u, File_read u st)"
| File_error: "stat_file u (proc_pid p) = Err e \<Longrightarrow> signal_step p s (u, Unchecked) (u, Refused e)"
| Check_running: "is_running_rest u p st = Ok True \<Longrightarrow> signal_step p s (u, File_read f st) (u, Checked f u)"
| Check_other: "is_running_rest u p st = Ok False \<Longrightarrow>
    signal_step p s (u, File_read f st) (u, Refused (NoSuchProcess (proc_pid p)))"
| Check_error: "is_running_rest u p st = Err e \<Longrightarrow> signal_step p s (u, File_read f st) (u, Refused e)"
| Send: "signal_step p s (u, Checked f b) (u, Sent f b u (pid_kill u (proc_pid p) s))"

inductive_cases signal_stepE: "signal_step p s x y"

inductive signal_run :: "process \<Rightarrow> signal \<Rightarrow> 'h signal_state \<Rightarrow> 'h signal_state \<Rightarrow> bool"
  for p :: process and s :: signal where
  run_refl: "signal_run p s x x"
| run_step: "signal_run p s x y \<Longrightarrow> signal_step p s y z \<Longrightarrow> signal_run p s x z"

definition phase_ok :: "process \<Rightarrow> signal \<Rightarrow> 'h unix_host_scheme phase \<Rightarrow> bool" where
  "phase_ok p s ph \<longleftrightarrow>
     (case ph of
        Unchecked \<Rightarrow> True
      | File_read f st \<Rightarrow> stat_file f (proc_pid p) = Ok st
      | Checked f b \<Rightarrow> Process_is_running_between f b p = Ok True
      | Refused e \<Rightarrow> \<exists>(f :: 'h unix_host_scheme) (b :: 'h unix_host_scheme). Process_is_running_between f b p \<noteq> Ok True \<and>
          (\<forall>v :: 'h unix_host_scheme. Process_signal_between f b v p s = Err e)
      | Sent f b u r \<Rightarrow> Process_is_running_between f b p = Ok True \<and> r = pid_kill u (proc_pid p) s)"

lemma Refused_ok:
  fixes f b :: "'h unix_host_scheme"
  assumes "Process_is_running_between f b p \<noteq> Ok True" "\<And>v :: 'h unix_host_scheme. Process_signal_between f b v p s = Err e"
  shows "phase_ok p s (Refused e :: 'h unix_host_scheme phase)"
  using assms unfolding phase_ok_def by auto

lemma phase_ok_step: "signal_step p s x y \<Longrightarrow> phase_ok p s (snd x) \<Longrightarrow> phase_ok p s (snd y)"
proof (erule signal_stepE, goal_cases)
  case (3 u e)
  then show ?case
    using Refused_ok [of u u p s e] by (simp add: Process_is_running_between_def Process_signal_between_def)
next
  case (5 u st f)
  then show ?case using Refused_ok [of f u p s]
    by (simp add: phase_ok_def Process_is_running_between_def Process_signal_between_def)
next
  case (6 u st e f)
  then show ?case using Refused_ok [of f u p s e]
    by (simp add: phase_ok_def Process_is_running_between_def Process_signal_between_def)
qed (auto simp: phase_ok_def Process_is_running_between_def)

lemma phase_ok_run: "signal_run p s x y \<Longrightarrow> phase_ok p s (snd x) \<Longrightarrow> phase_ok p s (snd y)"
  by (induction rule: signal_run.induct) (auto dest: phase_ok_step)

section \<open>Properties\<close>

text \<open>Time is counted in seconds: the conversions of \<open>uom\<close> are the identity on the base unit.\<close>

definition seconds_base :: "'h host_scheme \<Rightarrow> bool" where
  "seconds_base h \<longleftrightarrow> (\<forall>x. Time_new h x = x) \<and> (\<forall>x. Time_get h x = x)"

text \<open>
  A small system: process 42 with a given stat line and command line, booted at second 1570; every
  signal is delivered.
\<close>

definition small_host :: "stat_line \<Rightarrow> bytes \<Rightarrow> unix_host" where
  "small_host l cmd = sample_unix\<lparr>
     file_data := \<lambda>p.
       if p = ''/proc/42/stat'' then Inr (render_stat l)
       else if p = ''/proc/42/cmdline'' then Inr cmd
       else Inr (''btime '' @ show_nat 1570 @ [NL]),
     kill_call := \<lambda>_ _. (0, 0)\<rparr>"

lemma small_host_simps:
  "CLOCK_TICKS (small_host l cmd) = Ok 100" "procfs (small_host l cmd) = ''/proc''"
  "seconds_base (small_host l cmd)"
  by (simp_all add: small_host_def sample_unix_def sample_host_def host.extend_def CLOCK_TICKS_def
      clock_ticks_def Let_def seconds_base_def)

lemma show_42: "show_i32 42 = ''42''"
  by code_simp

lemma small_host_path:
  "process_file_path (small_host l cmd) 42 ''stat'' = ''/proc/42/stat''"
  "process_file_path (small_host l cmd) 42 ''cmdline'' = ''/proc/42/cmdline''"
  by (simp_all add: process_file_path_def small_host_simps show_42 join_path_def starts_with_def)

lemma utf8_valid_numbers:
  "utf8_valid (show_i32 a @ r) = utf8_valid r" "utf8_valid (show_u32 b @ r) = utf8_valid r"
  "utf8_valid (show_u64 c @ r) = utf8_valid r" "utf8_valid (show_i64 d @ r) = utf8_valid r"
  by (simp_all add: show_i32_def show_u32_def show_u64_def show_i64_def show_int_def utf8_valid_show_nat
      utf8_valid_ascii_Cons byte_def)

lemma btime_boot_time:
  assumes "seconds_base h" "procfs h = ''/proc''" "n < 2 ^ 53"
    and "file_data h ''/proc/stat'' = Inr (''btime '' @ show_nat n @ [NL])"
  shows "boot_time h = Ok (Fin (of_nat n))"
proof -
  let ?c = "''btime '' @ show_nat n @ [NL]"
  have "line_ok (show_nat n)" by (simp add: line_ok_token)
  then have "str_lines ?c = [''btime '' @ show_nat n]"
    using str_lines_unlines [of "[''btime '' @ show_nat n]"]
    by (simp add: unlines_def line_ok_def)
  moreover have "utf8_valid ?c"
    by (simp add: utf8_valid_show_nat utf8_valid_ascii_Cons byte_def)
  moreover have "boot_time_scan h [''btime '' @ show_nat n] = Ok (rnd64 (of_nat n))"
    unfolding boot_time_scan.simps splitn_btime
    using assms(1) by (simp add: starts_with_def from_str_f64_def parse_f64_show_nat seconds_base_def)
  ultimately show ?thesis
    using rnd64_of_nat_exact [OF assms(3)] assms(2,4)
    by (simp add: boot_time_def read_to_string_def utf8_checked_ok join_path_def starts_with_def)
qed

lemma small_boot_time: "boot_time (small_host l cmd) = Ok (Fin 1570)"
  using btime_boot_time [OF small_host_simps(3,2), of 1570 l cmd] by (simp add: small_host_def)

lemma small_stat_read:
  assumes "stat_line_ok l" "utf8_valid (render_stat l)"
  shows "\<exists>st. stat_read (small_host l cmd) 42 = Ok st \<and> stat_name st = sl_comm l \<and>
     stat_create_time st = f_add rnd64 (f_div rnd64 (f64_of_u64 (sl_start l)) (f64_of_u64 100)) (Fin 1570)"
proof -
  from Stat_line_lemma [OF assms(1) small_host_simps(1) [of l cmd]] small_host_simps(3) [of l cmd]
  obtain st0 where "Stat_from_str (small_host l cmd) (render_stat l) = Ok st0" "stat_name st0 = sl_comm l"
    "stat_create_time st0 = f_div rnd64 (f64_of_u64 (sl_start l)) (f64_of_u64 100)"
    by (auto simp: seconds_base_def)
  moreover have "read_to_string (small_host l cmd) ''/proc/42/stat'' = Inr (render_stat l)"
    unfolding read_to_string_Inr using assms(2) by (simp add: small_host_def)
  ultimately show ?thesis
    by (simp add: stat_read_def small_host_path small_boot_time Let_def)
qed

abbreviation reuse_host :: "u64 \<Rightarrow> unix_host" where
  "reuse_host start \<equiv> small_host (sample_stat\<lparr>sl_start := start\<rparr>) []"

lemma reuse_stat_read:
  "\<exists>st. stat_read (reuse_host start) 42 = Ok st \<and>
     stat_create_time st = f_add rnd64 (f_div rnd64 (f64_of_u64 start) (f64_of_u64 100)) (Fin 1570)"
proof -
  have "stat_line_ok (sample_stat\<lparr>sl_start := start\<rparr>)"
    using sample_stat_ok by (simp add: stat_line_ok_def)
  moreover have "utf8_valid (render_stat (sample_stat\<lparr>sl_start := start\<rparr>))"
    by (simp add: render_stat_def stat_tokens_def sample_stat_def utf8_valid_numbers utf8_valid_ascii_Cons byte_def)
  ultimately show ?thesis using small_stat_read [of "sample_stat\<lparr>sl_start := start\<rparr>" "[]"] by auto
qed

lemma Stat_from_str_time:
  assumes "Stat_from_str h s = Ok st" "seconds_base h"
  shows "stat_create_time st \<noteq> NaN"
  using assms
  by (auto simp: Stat_from_str_def Let_def seconds_base_def split: prod.splits if_splits)

lemma stat_read_time:
  assumes "stat_read h pid = Ok st" "seconds_base h" "boot_time h = Ok (Fin b)"
  shows "stat_create_time st \<noteq> NaN"
proof -
  from assms(1,3) obtain c st0 where "Stat_from_str h c = Ok st0"
    "st = st0\<lparr>stat_create_time := f_add rnd64 (stat_create_time st0) (Fin b)\<rparr>"
    by (auto simp: stat_read_def Let_def split: sum.splits if_splits)
  with Stat_from_str_time [OF _ assms(2)] show ?thesis by (simp add: f_add_NaN)
qed

lemma Process_get_stat:
  assumes "stat_read h pid = Ok st" "seconds_base h" "boot_time h = Ok (Fin b)"
  shows "Process_get h pid =
    Ok \<lparr>proc_pid = pid, proc_unique_id = \<lparr>uid_pid = pid, uid_create_time = stat_create_time st\<rparr>\<rparr>"
  using stat_read_time [OF assms] assms(1,2)
  by (simp add: Process_get_def UniqueId_new_def seconds_base_def Let_def)

lemma reuse_get:
  "Process_get (reuse_host start) 42 = Ok \<lparr>proc_pid = 42, proc_unique_id = \<lparr>uid_pid = 42,
     uid_create_time = f_add rnd64 (f_div rnd64 (f64_of_u64 start) (f64_of_u64 100)) (Fin 1570)\<rparr>\<rparr>"
  using reuse_stat_read [of start] Process_get_stat [OF _ small_host_simps(3) small_boot_time]
  by auto

definition handle_at :: "rat \<Rightarrow> process" where
  "handle_at t = \<lparr>proc_pid = 42, proc_unique_id = \<lparr>uid_pid = 42, uid_create_time = Fin t\<rparr>\<rparr>"

lemma reuse_get_700_900:
  "Process_get (reuse_host 700) 42 = Ok (handle_at 1577)"
  "Process_get (reuse_host 900) 42 = Ok (handle_at 1579)"
  using rnd64_of_nat_exact [of 700] rnd64_of_nat_exact [of 900] rnd64_of_nat_exact [of 100]
    rnd64_of_nat_exact [of 7] rnd64_of_nat_exact [of 9] rnd64_of_nat_exact [of 1577]
    rnd64_of_nat_exact [of 1579]
  by (simp_all add: reuse_get f64_of_u64_def handle_at_def)

lemma reuse_running:
  "Process_is_running (reuse_host 700) (handle_at 1577) = Ok True"
  "Process_is_running (reuse_host 900) (handle_at 1577) = Ok False"
  by (simp_all add: Process_is_running_def reuse_get_700_900 handle_at_def [of 1577]
      Process_eq_def UniqueId_eq_def) (simp_all add: handle_at_def reuse_get_700_900 [unfolded handle_at_def])

text \<open>
  Making a handle from a readable stat file never panics when the boot time is an ordinary
  number, and the handle then carries the creation time of that file.
\<close>

theorem Process_get_no_panic:
  assumes "stat_read h pid = Ok st" "seconds_base h" "boot_time h = Ok (Fin b)"
  shows "Process_get h pid =
    Ok \<lparr>proc_pid = pid, proc_unique_id = \<lparr>uid_pid = pid, uid_create_time = stat_create_time st\<rparr>\<rparr>"
  by (rule Process_get_stat [OF assms])

theorem Process_get_no_panic_witness:
  "\<exists>st. stat_read (reuse_host 700) 42 = Ok st \<and> Process_get (reuse_host 700) 42 =
     Ok \<lparr>proc_pid = 42, proc_unique_id = \<lparr>uid_pid = 42, uid_create_time = stat_create_time st\<rparr>\<rparr>"
  using reuse_stat_read [of 700] Process_get_no_panic [OF _ small_host_simps(3) small_boot_time] by blast

lemma Process_get_Ok:
  "Process_get h pid = Ok p \<Longrightarrow> proc_pid p = pid \<and> uid_pid (proc_unique_id p) = pid \<and>
   uid_create_time (proc_unique_id p) \<noteq> NaN"
  by (auto simp: Process_get_def UniqueId_new_def Let_def split: if_splits)

interpretation linux_handle: process_handle Process_get proc_pid proc_unique_id Process_is_running
    pid_kill Process_signal
  by unfold_locales
     (auto simp: Process_get_Ok Process_is_running_def Process_eq_def Process_signal_def dest: Process_get_Ok)

lemma process_eqI:
  fixes p q :: process
  assumes "proc_pid p = proc_pid q" "proc_unique_id p = proc_unique_id q"
  shows "p = q"
  using assms by (cases p; cases q) simp

text \<open>
  (C7) Reused process ids are detected: for a handle made on one host and a later host where the same
  id belongs to some process, \<open>is_running\<close> says whether that process has the creation time of the
  handle, and signalling on an unchanged host is refused with \<open>NoSuchProcess\<close> when it has not.
\<close>

theorem is_running_detects_reuse:
  fixes h0 u :: "'h unix_host_scheme"
  assumes "Process_get h0 pid = Ok p" "Process_get u pid = Ok q"
  shows "Process_is_running u p = Ok (q = p) \<and>
    (q \<noteq> p \<longrightarrow> Process_signal u u p s = Err (NoSuchProcess pid)) \<and>
    (q = p \<longrightarrow> Process_signal u u p s = pid_kill u pid s)"
proof -
  have "proc_unique_id q = proc_unique_id p \<longleftrightarrow> q = p"
    using Process_get_Ok [OF assms(1)] Process_get_Ok [OF assms(2)] by (auto intro: process_eqI)
  then show ?thesis
    using linux_handle.running_iff [OF assms] linux_handle.send_reused [OF assms]
      linux_handle.send_same [OF assms] by simp
qed

theorem is_running_detects_reuse_witness:
  "Process_is_running (reuse_host 900) (handle_at 1577) = Ok False \<and>
   Process_signal (reuse_host 900) (reuse_host 900) (handle_at 1577) Kill = Err (NoSuchProcess 42)"
  using is_running_detects_reuse [OF reuse_get_700_900, of Kill] by (simp add: handle_at_def)

text \<open>
  (C4) In every run of \<open>_signal\<close> next to arbitrary changes of the system, a signal is only sent after a check
  that found the identity of the handle in what it read: the stat file on one host and the boot time on a
  later one. The outcome is the one of the sequential function on these hosts and the host of the
  sending; when the system stays the same from the file to the boot time, this is \<open>is_running\<close> and \<open>_signal\<close>
  on that host. A call that ends without sending has one of the errors of the check.
\<close>

theorem signal_only_after_check:
  fixes u0 u :: "'h unix_host_scheme"
  assumes "signal_run p s (u0, Unchecked) (u, ph)"
  shows "(\<forall>f b v r. ph = Sent f b v r \<longrightarrow>
      Process_is_running_between f b p = Ok True \<and> r = Process_signal_between f b v p s \<and>
      (f = b \<longrightarrow> Process_is_running f p = Ok True \<and> r = Process_signal f v p s)) \<and>
    (\<forall>e. ph = Refused e \<longrightarrow> (\<exists>(f :: 'h unix_host_scheme) (b :: 'h unix_host_scheme).
      Process_is_running_between f b p \<noteq> Ok True \<and> Process_signal_between f b u p s = Err e))"
proof -
  have ok: "phase_ok p s ph" using phase_ok_run [OF assms] by (simp add: phase_ok_def)
  show ?thesis
  proof (intro conjI allI impI; (elim conjE)?)
    fix f b v r
    assume "ph = Sent f b v r"
    with ok have sent: "Process_is_running_between f b p = Ok True" "r = pid_kill v (proc_pid p) s"
      by (simp_all add: phase_ok_def)
    then show "Process_is_running_between f b p = Ok True" "r = Process_signal_between f b v p s"
      by (simp_all add: Process_signal_between_def)
    show "Process_is_running f p = Ok True" "r = Process_signal f v p s" if "f = b"
      using sent that by (simp_all add: Process_signal_def Process_is_running_steps)
  next
    fix e
    assume "ph = Refused e"
    with ok show "\<exists>(f :: 'h unix_host_scheme) (b :: 'h unix_host_scheme).
        Process_is_running_between f b p \<noteq> Ok True \<and> Process_signal_between f b u p s = Err e"
      unfolding phase_ok_def by auto
  qed
qed

lemma run_check_send:
  assumes "Process_is_running_between f b p = Ok True"
  shows "signal_run p s (f, Unchecked) (v, Sent f b v (pid_kill v (proc_pid p) s))"
proof -
  from assms obtain st where st: "stat_file f (proc_pid p) = Ok st" "is_running_rest b p st = Ok True"
    by (cases "stat_file f (proc_pid p)") (auto simp: Process_is_running_between_def)
  have "signal_run p s (f, Unchecked) (f, File_read f st)"
    using st(1) by (intro run_step [OF run_refl] Read_file)
  then have "signal_run p s (f, Unchecked) (b, File_read f st)"
    by (rule run_step) (rule Change)
  then have "signal_run p s (f, Unchecked) (b, Checked f b)"
    by (rule run_step) (rule Check_running [OF st(2)])
  then have "signal_run p s (f, Unchecked) (v, Checked f b)"
    by (rule run_step) (rule Change)
  then show ?thesis by (rule run_step) (rule Send)
qed

theorem signal_only_after_check_witness:
  "Process_is_running (reuse_host 700) (handle_at 1577) = Ok True \<and>
   pid_kill (reuse_host 900) 42 Term = Process_signal (reuse_host 700) (reuse_host 900) (handle_at 1577) Term"
proof -
  have "Process_is_running_between (reuse_host 700) (reuse_host 700) (handle_at 1577) = Ok True"
    by (simp add: Process_is_running_steps reuse_running)
  from signal_only_after_check [OF run_check_send [OF this, of Term "reuse_host 900"]]
  show ?thesis by (simp add: handle_at_def Process_signal_steps)
qed

lemma Command_first_render:
  assumes "NUL \<notin> set a"
  shows "Command_first (Command_from (render_args NUL (a # args))) = Ok (Some a)"
proof -
  let ?c = "Command_from (render_args NUL (a # args))"
  have "last (a @ NUL # render_args NUL args) = NUL"
    using last_render_args [of args NUL] by (cases "args = []") (simp_all add: render_args_def)
  then have d: "cmd_delimiter ?c = Null" "cmd_line ?c = a @ NUL # render_args NUL args"
    by (simp_all add: Command_from_def Delimiter_from_def render_args_def)
  then have "memchr NUL (cmd_line ?c) = Some (length a)" using assms by simp
  with d show ?thesis by (simp add: Command_first_def CommandIter_next_spec Command_into_iter_def)
qed

text \<open>
  Process names: a name shorter than the kernel's limit is returned as it is. A longer one may
  be cut off; it is replaced by the file name of the first argument exactly when that continues it.
\<close>

theorem Process_name_extends:
  assumes "stat_read h (proc_pid p) = Ok st"
    and "command_read h (proc_pid p) = Ok (Command_from (render_args NUL ((dir @ ''/'' @ exe) # args)))"
    and "NUL \<notin> set (dir @ exe)" "\<forall>a\<in>set args. NUL \<notin> set a"
    and "CHR ''/'' \<notin> set exe" "exe \<notin> {[], ''.'', ''..''}" "utf8_valid exe"
  shows "Process_name h p =
    Ok (if 15 \<le> length (stat_name st) \<and> starts_with exe (stat_name st) then exe else stat_name st)"
proof -
  let ?c = "Command_from (render_args NUL ((dir @ ''/'' @ exe) # args))"
  have first: "Command_first ?c = Ok (Some (dir @ ''/'' @ exe))"
    by (rule Command_first_render) (use assms(3) in simp)
  have "last (split_char (CHR ''/'') (dir @ CHR ''/'' # exe)) = exe \<and> 2 \<le> length (split_char (CHR ''/'') (dir @ CHR ''/'' # exe))"
  proof (induction dir)
    case Nil
    show ?case using assms(5) split_char_append [of "CHR ''/''" "[]" exe] by simp
  next
    case (Cons x xs)
    then show ?case
      by (cases "split_char (CHR ''/'') (xs @ CHR ''/'' # exe)") (auto simp: split_char_def)
  qed
  then obtain c cs where cs: "split_char (CHR ''/'') (dir @ CHR ''/'' # exe) = c # cs" "cs \<noteq> []" "last cs = exe"
    by (cases "split_char (CHR ''/'') (dir @ CHR ''/'' # exe)") (auto split: if_splits)
  then obtain cs' where "cs = cs' @ [exe]" by (metis append_butlast_last_id)
  then have "Path_file_name (dir @ ''/'' @ exe) = Some exe"
    using cs assms(6) by (simp add: Path_file_name_def path_components_def)
  then show ?thesis
    using assms(1,2,7) first by (simp add: Process_name_def Let_def utf8_lossy_valid)
qed

theorem Process_name_extends_witness:
  "Process_name (small_host (sample_stat\<lparr>sl_comm := ''gnome-session-b''\<rparr>)
       (render_args NUL [''/usr/bin'' @ ''/'' @ ''gnome-session-binary'', ''-v''])) (handle_at 1577) =
     Ok ''gnome-session-binary''"
proof -
  let ?l = "sample_stat\<lparr>sl_comm := ''gnome-session-b''\<rparr>"
  let ?cmd = "render_args NUL [''/usr/bin'' @ ''/'' @ ''gnome-session-binary'', ''-v'']"
  have ok: "stat_line_ok ?l" "utf8_valid (render_stat ?l)"
    using sample_stat_ok
    by (simp_all add: stat_line_ok_def render_stat_def stat_tokens_def sample_stat_def utf8_valid_numbers
        utf8_valid_ascii_Cons byte_def)
  obtain st where st: "stat_read (small_host ?l ?cmd) 42 = Ok st" "stat_name st = ''gnome-session-b''"
    using small_stat_read [OF ok] by fastforce
  have "utf8_valid ?cmd" by (simp add: render_args_def utf8_valid_ascii_Cons byte_def)
  then have "read_to_string (small_host ?l ?cmd) ''/proc/42/cmdline'' = Inr ?cmd"
    unfolding read_to_string_Inr by (simp add: small_host_def)
  then have "command_read (small_host ?l ?cmd) 42 = Ok (Command_from ?cmd)"
    by (simp add: command_read_def small_host_path)
  then show ?thesis
    using st Process_name_extends [of "small_host ?l ?cmd" "handle_at 1577" st "''/usr/bin''"
        "''gnome-session-binary''" "[''-v'']"]
    by (simp add: handle_at_def utf8_valid_ascii_Cons byte_def starts_with_def)
qed

text \<open>What the process directory lists: process ids, other names, and entries that fail to be read.\<close>

datatype dir_item = PidName pid | OtherName string | Unreadable io_error

fun dir_entry :: "dir_item \<Rightarrow> io_error + string" where
  "dir_entry (PidName p) = Inr (show_i32 p)"
| "dir_entry (OtherName n) = Inr n"
| "dir_entry (Unreadable e) = Inl e"

fun pid_item :: "dir_item \<Rightarrow> (pid, heim_error) outcome list" where
  "pid_item (PidName p) = [Ok p]"
| "pid_item (OtherName n) = []"
| "pid_item (Unreadable e) = [Err (Error_from_io e)]"

text \<open>
  Listing the process directory: the entries that print a process id are listed, in order;
  entries that are no numbers are left out, and an entry that cannot be read is an error item without
  ending the list.
\<close>

theorem pids_listing:
  assumes "dir_entries h (procfs h) = Inr (map dir_entry xs)"
    and "\<forall>n. OtherName n \<in> set xs \<longrightarrow> \<not> is_ok (parse_i32 n)"
  shows "pids h = Ok (concat (map pid_item xs))"
proof -
  have num: "utf8_valid (show_i32 q)" for q using utf8_valid_numbers(1) [of q "[]"] by simp
  have "List.map_filter pids_item (map dir_entry xs) = concat (map pid_item xs)"
    using assms(2)
  proof (induction xs)
    case (Cons x xs)
    have "pids_item (dir_entry x) = (case pid_item x of [] \<Rightarrow> None | y # _ \<Rightarrow> Some y)"
      using Cons.prems num
      by (cases x) (auto simp: pids_item_def is_ok_iff split: outcome.splits)
    with Cons show ?case by (cases x) (auto simp: map_filter_simps)
  qed (simp add: map_filter_simps)
  then show ?thesis using assms(1) by (simp add: pids_def)
qed

theorem pids_listing_witness:
  "pids (sample_host\<lparr>dir_entries := \<lambda>_. Inr (map dir_entry [PidName 1, OtherName ''self'', PidName 42])\<rparr>)
     = Ok [Ok 1, Ok 42]"
proof -
  have "\<not> is_ok (parse_i32 ''self'')" by code_simp
  then show ?thesis
    using pids_listing [of "sample_host\<lparr>dir_entries := \<lambda>_. Inr (map dir_entry
        [PidName 1, OtherName ''self'', PidName 42])\<rparr>" "[PidName 1, OtherName ''self'', PidName 42]"]
    by simp
qed

end
