(* ===== verification/Process_Identity.thy ===== *)
theory Process_Identity
  imports Process_Linux
begin

text \<open>
  The identity of a Linux process as a floating point number: its creation time is the start of the
  process in clock ticks, divided by the ticks of a second, plus the boot time, with a rounding after
  each step. The lemmas bound the rounding error of 64-bit floats and conclude that equal creation times
  come from the same tick of the wall clock.
\<close>

lemma round_even_half: "\<bar>of_int (round_even x) - x\<bar> \<le> 1 / 2"
proof -
  have "of_int \<lfloor>x\<rfloor> \<le> x" "x < of_int \<lfloor>x\<rfloor> + 1" by linarith+
  then show ?thesis by (auto simp: round_even_def Let_def)
qed

lemma round_even_nonneg: "0 \<le> x \<Longrightarrow> 0 \<le> round_even x"
  by (auto simp: round_even_def Let_def)

text \<open>Below \<open>2 ^ k\<close>, rounding to 53 bits moves a number by at most half of the last place.\<close>

lemma rnd64_near:
  assumes "0 \<le> q" "q < pow2 k" "- 1021 \<le> k" "k \<le> 1023"
  shows "\<exists>r. rnd64 q = Fin r \<and> 0 \<le> r \<and> \<bar>r - q\<bar> \<le> pow2 (k - 54)"
proof (cases "q = 0")
  case False
  define e where "e = max (- 1074) (exp2 q - 53 + 1)"
  define r where "r = of_int (round_even (q / pow2 e)) * pow2 e"
  have "exp2 q < k" using False assms by (intro exp2_less) auto
  with assms(3) have e: "e \<le> k - 53" by (simp add: e_def)
  have half: "pow2 (k - 53) = 2 * pow2 (k - 54)" using pow2_add [of 1 "k - 54"] by (simp add: pow2_def)
  have "r - q = (of_int (round_even (q / pow2 e)) - q / pow2 e) * pow2 e"
    using pow2_pos [of e] by (simp add: r_def left_diff_distrib less_imp_neq [symmetric])
  then have "\<bar>r - q\<bar> \<le> 1 / 2 * pow2 e"
    using mult_right_mono [OF round_even_half, of "pow2 e" "q / pow2 e"] by (simp add: abs_mult)
  also have "\<dots> \<le> pow2 (k - 54)" using e half pow2_le_iff [of e "k - 53"] by simp
  finally have near: "\<bar>r - q\<bar> \<le> pow2 (k - 54)" .
  have "pow2 (k - 54) \<le> pow2 k" by (simp add: pow2_le_iff)
  with near assms(2) have "r < 2 * pow2 k" by linarith
  also have "2 * pow2 k = pow2 (k + 1)" using pow2_add [of k 1] by (simp add: pow2_def)
  also have "\<dots> \<le> pow2 1024" using assms(4) by (simp add: pow2_le_iff)
  finally have "rnd64 q = Fin r"
    using False assms(1) by (simp add: rnd64_def rnd_def Let_def e_def r_def)
  moreover have "0 \<le> r" using assms(1) by (simp add: r_def round_even_nonneg)
  ultimately show ?thesis using near by blast
qed (simp add: rnd64_def rnd_def)

text \<open>The creation time of a process that started at tick \<open>s\<close> of a system booted at \<open>b\<close>.\<close>

definition created :: "u64 \<Rightarrow> u64 \<Rightarrow> nat \<Rightarrow> fval" where
  "created s clk b = f_add rnd64 (f_div rnd64 (f64_of_u64 s) (f64_of_u64 clk)) (Fin (of_nat b))"

lemma f64_of_u64_exact: "unat w < 2 ^ 53 \<Longrightarrow> f64_of_u64 w = Fin (of_nat (unat w))"
  by (simp add: f64_of_u64_def rnd64_of_nat_exact del: of_nat_unat)

text \<open>For an uptime and a boot time of less than \<open>2 ^ 32\<close> and \<open>2 ^ 33\<close> seconds the error is below \<open>2 ^ -19\<close>.\<close>

lemma created_near:
  assumes "0 < unat clk" "unat clk \<le> 10000" "unat s < 2 ^ 32 * unat clk" "b < 2 ^ 33"
  shows "\<exists>r. created s clk b = Fin r \<and>
    \<bar>r - (of_nat (unat s) / of_nat (unat clk) + of_nat b)\<bar> \<le> 5 / 2 ^ 22"
proof -
  define q :: rat where "q = of_nat (unat s) / of_nat (unat clk)"
  have "unat s < 2 ^ 53" "unat clk < 2 ^ 53" using assms(2,3) by simp_all
  then have div: "f_div rnd64 (f64_of_u64 s) (f64_of_u64 clk) = rnd64 q"
    using assms(1) by (simp add: f64_of_u64_exact q_def del: of_nat_unat)
  have "rat_of_nat (unat s) < rat_of_nat (2 ^ 32 * unat clk)" using assms(3) by (simp only: of_nat_less_iff)
  then have q: "0 \<le> q" "q < 2 ^ 32" using assms(1) by (simp_all add: q_def divide_less_eq del: of_nat_unat)
  then obtain t where t: "rnd64 q = Fin t" "0 \<le> t" "\<bar>t - q\<bar> \<le> 1 / 2 ^ 22"
    using rnd64_near [of q 32] by (auto simp: pow2_def)
  have b: "rat_of_nat b < 2 ^ 33" using assms(4) by (simp flip: of_nat_less_iff)
  have "t - q \<le> 1 / 2 ^ 22" "(1::rat) / 2 ^ 22 \<le> 1" using abs_le_D1 [OF t(3)] by simp_all
  then have "t \<le> q + 1" by linarith
  moreover have "(2::rat) ^ 32 + 1 + 2 ^ 33 \<le> 2 ^ 34" by simp
  ultimately have "0 \<le> t + of_nat b" "t + of_nat b < 2 ^ 34" using t(2) q b by linarith+
  then obtain r where r: "rnd64 (t + of_nat b) = Fin r" "\<bar>r - (t + of_nat b)\<bar> \<le> 1 / 2 ^ 20"
    using rnd64_near [of "t + of_nat b" 34] by (auto simp: pow2_def)
  moreover have "(1::rat) / 2 ^ 20 + 1 / 2 ^ 22 = 5 / 2 ^ 22" by simp
  ultimately have "\<bar>r - (q + of_nat b)\<bar> \<le> 5 / 2 ^ 22" using t(3) by linarith
  with t(1) r(1) div show ?thesis by (simp add: created_def q_def del: of_nat_unat)
qed

lemma of_nat_apart: "m \<noteq> n \<Longrightarrow> 1 \<le> \<bar>rat_of_nat m - rat_of_nat n\<bar>"
proof -
  assume "m \<noteq> n"
  then have "1 \<le> \<bar>int m - int n\<bar>" by linarith
  then have "rat_of_int 1 \<le> rat_of_int \<bar>int m - int n\<bar>" by (simp only: of_int_le_iff)
  then show ?thesis by simp
qed

text \<open>
  Equal creation times come from the same tick of the wall clock: one tick is far above the error. So where
  only the start or only the boot time differs, the creation times differ.
\<close>

definition wall_ticks :: "u64 \<Rightarrow> u64 \<Rightarrow> nat \<Rightarrow> nat" where
  "wall_ticks s clk b = unat s + b * unat clk"

lemma created_tick:
  assumes "0 < unat clk" "unat clk \<le> 10000"
    and "unat s < 2 ^ 32 * unat clk" "b < 2 ^ 33" "unat s' < 2 ^ 32 * unat clk" "b' < 2 ^ 33"
    and "created s clk b = created s' clk b'"
  shows "wall_ticks s clk b = wall_ticks s' clk b'"
proof (rule ccontr)
  define C S S' where "C = rat_of_nat (unat clk)" and "S = rat_of_nat (unat s)" and "S' = rat_of_nat (unat s')"
  have C: "0 < C" "C \<le> 10000" using assms(1,2) by (simp_all add: C_def del: of_nat_unat)
  from assms(7) created_near [OF assms(1-4)] created_near [OF assms(1,2,5,6)]
  obtain r where "\<bar>r - (S / C + of_nat b)\<bar> \<le> 5 / 2 ^ 22" "\<bar>r - (S' / C + of_nat b')\<bar> \<le> 5 / 2 ^ 22"
    unfolding S_def S'_def C_def by auto
  moreover have "(5::rat) / 2 ^ 22 < 1 / 20000" by simp
  ultimately have close: "\<bar>(S / C + of_nat b) - (S' / C + of_nat b')\<bar> < 1 / 10000" by linarith
  have "(S / C + of_nat b) - (S' / C + of_nat b') = ((S + of_nat b * C) - (S' + of_nat b' * C)) / C"
    using C(1) by (simp add: field_simps)
  with close C have "\<bar>(S + of_nat b * C) - (S' + of_nat b' * C)\<bar> < 1"
    by (simp add: divide_less_eq)
  moreover assume "wall_ticks s clk b \<noteq> wall_ticks s' clk b'"
  then have "1 \<le> \<bar>rat_of_nat (wall_ticks s clk b) - rat_of_nat (wall_ticks s' clk b')\<bar>" by (rule of_nat_apart)
  ultimately show False by (simp add: wall_ticks_def S_def S'_def C_def del: of_nat_unat)
qed

text \<open>Whole seconds are not rounded at all.\<close>

lemma created_whole:
  assumes "0 < unat clk" "unat clk \<le> 10000" "unat s < 2 ^ 32 * unat clk" "b < 2 ^ 33" "unat clk dvd unat s"
  shows "created s clk b = Fin (of_nat (unat s div unat clk + b))"
proof -
  from assms(5) obtain c where c: "unat s = c * unat clk" by (metis dvdE mult.commute)
  then have "c < 2 ^ 32" using assms(1,3) by simp
  moreover have "unat s < 2 ^ 53" "unat clk < 2 ^ 53" using assms(2,3) by simp_all
  moreover have "rat_of_nat (unat s) / rat_of_nat (unat clk) = of_nat c" using assms(1) c by (simp del: of_nat_unat)
  ultimately have "f_div rnd64 (f64_of_u64 s) (f64_of_u64 clk) = Fin (of_nat c)"
    using assms(1) by (simp add: f64_of_u64_exact rnd64_of_nat_exact del: of_nat_unat)
  moreover have "rnd64 (of_nat (c + b)) = Fin (of_nat (c + b))"
    using \<open>c < 2 ^ 32\<close> assms(4) by (intro rnd64_of_nat_exact) simp
  moreover have "unat s div unat clk = c" using assms(1) c by simp
  ultimately show ?thesis by (simp add: created_def)
qed

lemma wall_ticks_whole:
  assumes "0 < unat clk" "unat clk dvd unat s" "unat clk dvd unat s'" "wall_ticks s clk b = wall_ticks s' clk b'"
  shows "unat s div unat clk + b = unat s' div unat clk + b'"
proof -
  obtain c c' where "unat s = unat clk * c" "unat s' = unat clk * c'" using assms(2,3) by (blast elim: dvdE)
  with assms(1,4) show ?thesis by (simp add: wall_ticks_def mult.commute [of _ "unat clk"] flip: distrib_left)
qed

text \<open>What a handle carries, from the files it is read from.\<close>

lemma Process_get_line:
  assumes "read_to_string h (process_file_path h pid ''stat'') = Inr (render_stat l)" "stat_line_ok l"
    and "CLOCK_TICKS h = Ok clk" "seconds_base h" "boot_time h = Ok (Fin (of_nat b))"
  shows "Process_get h pid =
    Ok \<lparr>proc_pid = pid, proc_unique_id = \<lparr>uid_pid = pid, uid_create_time = created (sl_start l) clk b\<rparr>\<rparr>"
proof -
  obtain st0 where "Stat_from_str h (render_stat l) = Ok st0"
    "stat_create_time st0 = f_div rnd64 (f64_of_u64 (sl_start l)) (f64_of_u64 clk)"
    using Stat_line_lemma [OF assms(2,3)] assms(4) by (auto simp: seconds_base_def)
  with assms(1,5) have "stat_read h pid =
      Ok (st0\<lparr>stat_create_time := created (sl_start l) clk b\<rparr>)"
    by (simp add: stat_read_def Let_def created_def)
  from Process_get_stat [OF this assms(4,5)] show ?thesis by simp
qed

lemma reuse_file:
  "read_to_string (reuse_host n) (process_file_path (reuse_host n) 42 ''stat'') =
     Inr (render_stat (sample_stat\<lparr>sl_start := n\<rparr>))"
proof -
  have "utf8_valid (render_stat (sample_stat\<lparr>sl_start := n\<rparr>))"
    by (simp add: render_stat_def stat_tokens_def sample_stat_def utf8_valid_numbers utf8_valid_ascii_Cons byte_def)
  then show ?thesis
    unfolding read_to_string_Inr small_host_path by (simp add: small_host_def)
qed

text \<open>The same system after its clock was set: the kernel reports the boot at second \<open>b\<close>.\<close>

definition clock_set_host :: "nat \<Rightarrow> u64 \<Rightarrow> unix_host" where
  "clock_set_host b start = (reuse_host start)\<lparr>
     file_data := \<lambda>p.
       if p = ''/proc/42/stat'' then Inr (render_stat (sample_stat\<lparr>sl_start := start\<rparr>))
       else Inr (''btime '' @ show_nat b @ [NL])\<rparr>"

lemma clock_set_host_simps:
  "CLOCK_TICKS (clock_set_host b n) = Ok 100" "procfs (clock_set_host b n) = ''/proc''"
  "seconds_base (clock_set_host b n)"
  by (simp_all add: clock_set_host_def small_host_def sample_unix_def sample_host_def host.extend_def CLOCK_TICKS_def
      clock_ticks_def Let_def seconds_base_def)

lemma clock_set_boot_time: "b < 2 ^ 53 \<Longrightarrow> boot_time (clock_set_host b n) = Ok (Fin (of_nat b))"
  using btime_boot_time [OF clock_set_host_simps(3,2)] by (simp add: clock_set_host_def)

lemma clock_set_file:
  "read_to_string (clock_set_host b n) (process_file_path (clock_set_host b n) 42 ''stat'') =
     Inr (render_stat (sample_stat\<lparr>sl_start := n\<rparr>))"
proof -
  have "utf8_valid (render_stat (sample_stat\<lparr>sl_start := n\<rparr>))"
    by (simp add: render_stat_def stat_tokens_def sample_stat_def utf8_valid_numbers utf8_valid_ascii_Cons byte_def)
  moreover have "process_file_path (clock_set_host b n) 42 ''stat'' = ''/proc/42/stat''"
    by (simp add: process_file_path_def clock_set_host_simps show_42 join_path_def starts_with_def)
  ultimately show ?thesis unfolding read_to_string_Inr by (simp add: clock_set_host_def)
qed

end
