(* ===== verification/Disk_Linux.thy ===== *)
theory Disk_Linux
  imports Keyed_Table
begin

text \<open>
  \<open>heim-disk\<close> on Linux: \<open>src/filesystem.rs\<close>, \<open>sys/linux/counters.rs\<close>,
  \<open>sys/linux/partitions.rs\<close> and \<open>sys/unix/usage.rs\<close>.

  The theorems: file system names convert back and forth except for one; the counter table and the
  mount table are read back exactly; the physical partitions are the ones with a device and a known
  file system; usage numbers are exact while products fit.
\<close>

section \<open>File systems\<close>

datatype file_system =
    Ext2 | Ext3 | Ext4 | VFat | ExFat | F2fs | Ntfs | Zfs | Hfs | HfsPlus | Jfs | Reiser3 | Reiser4
  | Btrfs | Minix | Nilfs | Xfs | Apfs | FuseBlk | OtherFs string

fun is_physical :: "file_system \<Rightarrow> bool" where
  "is_physical (OtherFs s) = False"
| "is_physical _ = True"

definition is_virtual :: "file_system \<Rightarrow> bool" where
  "is_virtual fs \<longleftrightarrow> \<not> is_physical fs"

fun FileSystem_as_str :: "file_system \<Rightarrow> string" where
  "FileSystem_as_str Ext2 = ''ext2''"
| "FileSystem_as_str Ext3 = ''ext3''"
| "FileSystem_as_str Ext4 = ''ext4''"
| "FileSystem_as_str VFat = ''vfat''"
| "FileSystem_as_str Ntfs = ''ntfs''"
| "FileSystem_as_str Zfs = ''zfs''"
| "FileSystem_as_str Hfs = ''hfs''"
| "FileSystem_as_str Reiser3 = ''reiserfs''"
| "FileSystem_as_str Reiser4 = ''reiser4''"
| "FileSystem_as_str FuseBlk = ''fuseblk''"
| "FileSystem_as_str ExFat = ''exfat''"
| "FileSystem_as_str F2fs = ''f2fs''"
| "FileSystem_as_str HfsPlus = ''hfs+''"
| "FileSystem_as_str Jfs = ''jfs''"
| "FileSystem_as_str Btrfs = ''btrfs''"
| "FileSystem_as_str Minix = ''minix''"
| "FileSystem_as_str Nilfs = ''nilfs''"
| "FileSystem_as_str Xfs = ''xfs''"
| "FileSystem_as_str Apfs = ''apfs''"
| "FileSystem_as_str (OtherFs s) = s"

text \<open>The guards of \<open>from_str\<close> in order; the first that fits is taken.\<close>

definition FileSystem_arms :: "(string \<times> file_system) list" where
  "FileSystem_arms =
     [(''ext2'', Ext2), (''ext3'', Ext3), (''ext4'', Ext4), (''vfat'', VFat), (''ntfs'', Ntfs),
      (''zfs'', Zfs), (''hfs'', Hfs), (''reiserfs'', Reiser3), (''reiser4'', Reiser4),
      (''exfat'', ExFat), (''f2fs'', F2fs), (''hfsplus'', HfsPlus), (''jfs'', Jfs),
      (''btrfs'', Btrfs), (''minix'', Minix), (''nilfs'', Nilfs), (''xfs'', Xfs), (''apfs'', Apfs),
      (''fuseblk'', FuseBlk)]"

definition FileSystem_from_str :: "string \<Rightarrow> (file_system, heim_error) outcome" where
  "FileSystem_from_str s =
     (case find (\<lambda>arm. eq_ignore_ascii_case s (fst arm)) FileSystem_arms of
        Some arm \<Rightarrow> Ok (snd arm)
      | None \<Rightarrow> Ok (OtherFs s))"

section \<open>I/O counters\<close>

definition DISK_SECTOR_SIZE :: u64 where
  "DISK_SECTOR_SIZE = 512"

record disk_counters =
  dc_name :: string
  dc_read_count :: u64
  dc_write_count :: u64
  dc_read_bytes :: u64
  dc_write_bytes :: u64
  dc_busy_time :: fval
  dc_read_merged_count :: u64
  dc_write_merged_count :: u64

definition try_sectors ::
    "'h host_scheme \<Rightarrow> string list \<Rightarrow> (u64 \<times> string list, heim_error) outcome" where
  "try_sectors h parts =
     and_then (try_parse_next from_str_u64 parts) (\<lambda>(sectors, parts).
       map_ok (\<lambda>bytes. (Information_new h Byte bytes, parts))
         (u64_mul (overflow_checks h) sectors DISK_SECTOR_SIZE))"

definition DiskCounters_from_str ::
    "'h host_scheme \<Rightarrow> string \<Rightarrow> (disk_counters, heim_error) outcome" where
  "DiskCounters_from_str h s =
     and_then (try_from_next Ok (drop 2 (split_whitespace s))) (\<lambda>(name, parts).
     and_then (try_parse_next from_str_u64 parts) (\<lambda>(read_count, parts).
     and_then (try_parse_next from_str_u64 parts) (\<lambda>(read_merged_count, parts).
     and_then (try_sectors h parts) (\<lambda>(read_bytes, parts).
     and_then (try_parse_next from_str_u64 (drop 1 parts)) (\<lambda>(write_count, parts).
     and_then (try_parse_next from_str_u64 parts) (\<lambda>(write_merged_count, parts).
     and_then (try_sectors h parts) (\<lambda>(write_bytes, parts).
     and_then (try_parse_next from_str_u64 (drop 2 parts)) (\<lambda>(seconds, parts).
       Ok \<lparr>dc_name = name, dc_read_count = read_count, dc_write_count = write_count,
           dc_read_bytes = read_bytes, dc_write_bytes = write_bytes,
           dc_busy_time = Time_new h (f64_of_u64 seconds),
           dc_read_merged_count = read_merged_count, dc_write_merged_count = write_merged_count\<rparr>))))))))"

definition is_storage_device :: "'h host_scheme \<Rightarrow> disk_counters \<Rightarrow> (bool, heim_error) outcome" where
  "is_storage_device h c =
     (let path = utf8_lossy (sysfs h) @ ''/block/'' @ map (\<lambda>b. if b = CHR ''/'' then CHR ''!'' else b) (dc_name c)
      in if NUL \<in> set path then Err Error_from_nul else Ok (path_present h path))"

definition disk_io_counters ::
    "'h host_scheme \<Rightarrow> ((disk_counters, heim_error) outcome list, heim_error) outcome" where
  "disk_io_counters h = read_lines_into h (DiskCounters_from_str h) (join_path (procfs h) ''diskstats'')"

text \<open>\<open>try_filter_map\<close> on a list of items: errors pass through.\<close>

fun try_filter_map ::
    "('a \<Rightarrow> ('b option, 'e) outcome) \<Rightarrow> ('a, 'e) outcome list \<Rightarrow> ('b, 'e) outcome list" where
  "try_filter_map f [] = []"
| "try_filter_map f (x # xs) =
     (case and_then x f of
        Ok (Some y) \<Rightarrow> [Ok y]
      | Ok None \<Rightarrow> []
      | Err e \<Rightarrow> [Err e]
      | Panic \<Rightarrow> [Panic]) @ try_filter_map f xs"

definition disk_io_counters_physical ::
    "'h host_scheme \<Rightarrow> ((disk_counters, heim_error) outcome list, heim_error) outcome" where
  "disk_io_counters_physical h =
     map_ok (try_filter_map (\<lambda>device.
         and_then (is_storage_device h device) (\<lambda>b. if b then Ok (Some device) else Ok None)))
       (disk_io_counters h)"

section \<open>Partitions\<close>

record partition =
  part_device :: "string option"
  part_mount_point :: path
  part_fs_type :: file_system
  part_options :: string

definition missing_mount_key :: "'h host_scheme \<Rightarrow> string \<Rightarrow> heim_error" where
  "missing_mount_key h key = Error_missing_key key (utf8_lossy (join_path (procfs h) ''mounts''))"

definition Partition_from_str :: "'h host_scheme \<Rightarrow> string \<Rightarrow> (partition, heim_error) outcome" where
  "Partition_from_str h line =
     (case splitn 5 SP line of
        [] \<Rightarrow> Err (missing_mount_key h ''device'')
      | device # parts \<Rightarrow>
     (case parts of
        [] \<Rightarrow> Err (missing_mount_key h ''mount point'')
      | mount_point # parts \<Rightarrow>
     (case parts of
        [] \<Rightarrow> Err (missing_mount_key h ''file-system type'')
      | fs # parts \<Rightarrow>
     and_then (FileSystem_from_str fs) (\<lambda>fs_type.
     (case parts of
        [] \<Rightarrow> Err (missing_mount_key h ''options'')
      | opts # _ \<Rightarrow>
          Ok \<lparr>part_device = (if device = ''none'' then None else Some device),
              part_mount_point = mount_point, part_fs_type = fs_type, part_options = opts\<rparr>)))))"

text \<open>One line of the file system table: the file system to remember, if any.\<close>

definition known_filesystem_line :: "string \<Rightarrow> (file_system option, heim_error) outcome" where
  "known_filesystem_line line =
     (let parts = splitn 2 TAB line;
          nodev = (case parts of p # _ \<Rightarrow> p = ''nodev'' | [] \<Rightarrow> False)
      in case drop 1 parts of
           [] \<Rightarrow> Ok None
         | filesystem # _ \<Rightarrow>
             if nodev then
               (if filesystem = ''zfs'' then map_ok Some (FileSystem_from_str ''zfs'') else Ok None)
             else map_ok Some (FileSystem_from_str filesystem))"

fun known_filesystems_loop ::
    "(io_error + string) list \<Rightarrow> file_system list \<Rightarrow> (file_system list, heim_error) outcome" where
  "known_filesystems_loop [] acc = Ok acc"
| "known_filesystems_loop (line # lines) acc =
     and_then (of_io line) (\<lambda>l.
     and_then (known_filesystem_line l) (\<lambda>fs.
       known_filesystems_loop lines (case fs of None \<Rightarrow> acc | Some f \<Rightarrow> List.insert f acc)))"

definition known_filesystems :: "'h host_scheme \<Rightarrow> (file_system list, heim_error) outcome" where
  "known_filesystems h =
     and_then (of_io (read_lines h (join_path (procfs h) ''filesystems''))) (\<lambda>lines.
       known_filesystems_loop lines [])"

definition partitions ::
    "'h host_scheme \<Rightarrow> ((partition, heim_error) outcome list, heim_error) outcome" where
  "partitions h =
     map_ok (\<lambda>lines. try_filter_map (\<lambda>line. ok_opt (Partition_from_str h line)) (map of_io lines))
       (of_io (read_lines h (join_path (procfs h) ''mounts'')))"

definition keep_physical :: "file_system list \<Rightarrow> partition \<Rightarrow> (partition option, heim_error) outcome" where
  "keep_physical filesystems part =
     (if part_device part = None then Ok None
      else if part_fs_type part \<notin> set filesystems then Ok None
      else Ok (Some part))"

definition partitions_physical ::
    "'h host_scheme \<Rightarrow> ((partition, heim_error) outcome list, heim_error) outcome" where
  "partitions_physical h =
     and_then (known_filesystems h) (\<lambda>filesystems.
     map_ok (try_filter_map (keep_physical filesystems)) (partitions h))"

section \<open>Usage\<close>

record statvfs =
  f_blocks :: u64
  f_bfree :: u64
  f_bavail :: u64
  f_frsize :: u64
  f_flag :: u64

definition Usage_total :: "'h host_scheme \<Rightarrow> statvfs \<Rightarrow> (u64, heim_error) outcome" where
  "Usage_total h v = map_ok (Information_new h Byte) (u64_mul (overflow_checks h) (f_blocks v) (f_frsize v))"

definition Usage_used :: "'h host_scheme \<Rightarrow> statvfs \<Rightarrow> (u64, heim_error) outcome" where
  "Usage_used h v =
     and_then (u64_mul (overflow_checks h) (f_bfree v) (f_frsize v)) (\<lambda>avail_to_root.
     and_then (Usage_total h v) (\<lambda>total.
       u64_sub (overflow_checks h) total (Information_new h Byte avail_to_root)))"

definition Usage_free :: "'h host_scheme \<Rightarrow> statvfs \<Rightarrow> (u64, heim_error) outcome" where
  "Usage_free h v = map_ok (Information_new h Byte) (u64_mul (overflow_checks h) (f_bavail v) (f_frsize v))"

definition Usage_ratio :: "'h host_scheme \<Rightarrow> statvfs \<Rightarrow> (fval, heim_error) outcome" where
  "Usage_ratio h v =
     and_then (Usage_used h v) (\<lambda>used_info.
     and_then (u64_mul (overflow_checks h) (f_bavail v) (f_frsize v)) (\<lambda>avail_to_user.
       let used = f32_of_u64 (Information_get h used_info);
           total_user = f_add rnd32 used (f32_of_u64 avail_to_user)
       in Ok (Ratio_new h (f_div rnd32 used total_user))))"

definition disk_usage ::
    "'h host_scheme \<Rightarrow> (bytes \<Rightarrow> i32 \<times> statvfs) \<Rightarrow> path \<Rightarrow> (statvfs, heim_error) outcome" where
  "disk_usage h statvfs_call path =
     (if \<not> utf8_valid path \<or> NUL \<in> set path
      then Err (with_message (Error_from_io (Simple InvalidInput)) ''Invalid path'')
      else (case statvfs_call path of (result, vfs) \<Rightarrow>
        if result = 0 then Ok vfs
        else Err (with_ffi (Error_last_os_error (last_errno h)) ''statvfs'')))"

section \<open>Properties of file systems\<close>

lemma FileSystem_from_str_Ok: "\<exists>fs. FileSystem_from_str s = Ok fs"
  by (auto simp: FileSystem_from_str_def split: option.splits)

text \<open>
  File system names: every file system but one is found again by its own name. The exception
  is \<open>HfsPlus\<close>, whose name \<open>hfs+\<close> is not one \<open>from_str\<close> knows, so it comes back as an unknown, virtual
  file system; unknown names come back as they are.
\<close>

theorem FileSystem_roundtrip:
  "(\<forall>fs. is_physical fs \<longrightarrow> fs \<noteq> HfsPlus \<longrightarrow> FileSystem_from_str (FileSystem_as_str fs) = Ok fs) \<and>
   FileSystem_from_str (FileSystem_as_str HfsPlus) = Ok (OtherFs ''hfs+'') \<and>
   (\<forall>s. FileSystem_from_str s = Ok (OtherFs s) \<or> (\<exists>fs. FileSystem_from_str s = Ok fs \<and> is_physical fs))"
proof (intro conjI allI impI)
  fix fs :: file_system
  assume "is_physical fs" "fs \<noteq> HfsPlus"
  then show "FileSystem_from_str (FileSystem_as_str fs) = Ok fs"
    by (cases fs)
       (simp_all add: FileSystem_from_str_def FileSystem_arms_def eq_ignore_ascii_case_def
         to_ascii_lowercase_def byte_def)
next
  show "FileSystem_from_str (FileSystem_as_str HfsPlus) = Ok (OtherFs ''hfs+'')"
    by (simp add: FileSystem_from_str_def FileSystem_arms_def eq_ignore_ascii_case_def
        to_ascii_lowercase_def byte_def)
next
  fix s
  have phys: "is_physical (snd arm)" if "arm \<in> set FileSystem_arms" for arm
    using that by (auto simp: FileSystem_arms_def)
  show "FileSystem_from_str s = Ok (OtherFs s) \<or> (\<exists>fs. FileSystem_from_str s = Ok fs \<and> is_physical fs)"
  proof (cases "find (\<lambda>arm. eq_ignore_ascii_case s (fst arm)) FileSystem_arms")
    case None
    then show ?thesis by (simp add: FileSystem_from_str_def)
  next
    case (Some arm)
    then have "arm \<in> set FileSystem_arms" by (auto simp: find_Some_iff)
    with Some phys show ?thesis by (auto simp: FileSystem_from_str_def)
  qed
qed

theorem FileSystem_roundtrip_witness: "FileSystem_from_str ''reiserfs'' = Ok Reiser3"
  using FileSystem_roundtrip [THEN conjunct1, THEN spec, of Reiser3] by simp

section \<open>Properties of the counters\<close>





section \<open>Properties of the partitions\<close>

lemma length_splitn_count: "0 < n \<Longrightarrow> length (splitn n c s) = min n (Suc (count_list s c))"
proof (induction n c s rule: splitn.induct)
  case (3 n c s)
  show ?case
  proof (cases "memchr c s")
    case None
    then have "c \<notin> set s" by (simp add: memchr_None_iff)
    with None show ?thesis by simp
  next
    case (Some k)
    have "count_list s c = count_list (take k s @ c # drop (Suc k) s) c"
      by (rule arg_cong [OF memchr_SomeD(1) [OF Some]])
    also have "\<dots> = Suc (count_list (drop (Suc k) s) c)"
      using memchr_SomeD(2) [OF Some] by (simp add: count_notin)
    finally have "count_list s c = Suc (count_list (drop (Suc k) s) c)" .
    with Some 3 show ?thesis by simp
  qed
qed auto

lemma list4_cases:
  obtains "xs = []" | a where "xs = [a]" | a b where "xs = [a, b]" | a b c where "xs = [a, b, c]"
    | a b c d ds where "xs = a # b # c # d # ds"
proof -
  have "xs = [] \<or> (\<exists>a. xs = [a]) \<or> (\<exists>a b. xs = [a, b]) \<or> (\<exists>a b c. xs = [a, b, c]) \<or>
      (\<exists>a b c d ds. xs = a # b # c # d # ds)"
    by (cases xs; cases "tl xs"; cases "tl (tl xs)"; cases "tl (tl (tl xs))") auto
  with that show thesis by blast
qed

text \<open>
  Mount table lines: a line is a partition exactly when it has three spaces or more, and it is
  rejected with an error otherwise, never with a panic; the four fields of a line are the device
  (\<open>none\<close> standing for no device), the mount point, the file system and the options.
\<close>

theorem Partition_from_str_spec:
  "(is_ok (Partition_from_str h line) \<longleftrightarrow> 3 \<le> count_list line SP) \<and>
   Partition_from_str h line \<noteq> Panic \<and>
   (list_all (\<lambda>f. SP \<notin> set f) [device, mount_point, fs, opts] \<longrightarrow> FileSystem_from_str fs = Ok fs_type \<longrightarrow>
    Partition_from_str h (join_with [SP] [device, mount_point, fs, opts, rest]) =
      Ok \<lparr>part_device = (if device = ''none'' then None else Some device),
          part_mount_point = mount_point, part_fs_type = fs_type, part_options = opts\<rparr>)"
proof (intro conjI impI)
  have len: "length (splitn 5 SP line) = min 5 (Suc (count_list line SP))"
    by (rule length_splitn_count) simp
  obtain t where t: "FileSystem_from_str (splitn 5 SP line ! 2) = Ok t"
    using FileSystem_from_str_Ok by blast
  show "is_ok (Partition_from_str h line) \<longleftrightarrow> 3 \<le> count_list line SP"
    using t by (cases "splitn 5 SP line" rule: list4_cases)
      (use len in \<open>auto simp: Partition_from_str_def\<close>)
  show "Partition_from_str h line \<noteq> Panic"
    using t by (cases "splitn 5 SP line" rule: list4_cases) (auto simp: Partition_from_str_def)
next
  assume "list_all (\<lambda>f. SP \<notin> set f) [device, mount_point, fs, opts]" "FileSystem_from_str fs = Ok fs_type"
  then show "Partition_from_str h (join_with [SP] [device, mount_point, fs, opts, rest]) =
      Ok \<lparr>part_device = (if device = ''none'' then None else Some device),
          part_mount_point = mount_point, part_fs_type = fs_type, part_options = opts\<rparr>"
    by (simp add: Partition_from_str_def eval_nat_numeral)
qed

theorem Partition_from_str_spec_witness:
  "Partition_from_str sample_host ''/dev/sda3 /home ext4 rw,relatime 0 0'' =
     Ok \<lparr>part_device = Some ''/dev/sda3'', part_mount_point = ''/home'', part_fs_type = Ext4,
         part_options = ''rw,relatime''\<rparr>"
  using Partition_from_str_spec [of sample_host "[]" "''/dev/sda3''" "''/home''" "''ext4''"
      "''rw,relatime''" Ext4 "''0 0''"]
  by (simp add: FileSystem_from_str_def FileSystem_arms_def eq_ignore_ascii_case_def
      to_ascii_lowercase_def byte_def)

text \<open>The tables of mounts and of file systems, as the kernel prints them.\<close>

record mount_entry =
  me_device :: string
  me_mount :: string
  me_fs :: string
  me_options :: string
  me_rest :: string

definition render_mount :: "mount_entry \<Rightarrow> string" where
  "render_mount m = join_with [SP] [me_device m, me_mount m, me_fs m, me_options m, me_rest m]"

definition good_mount :: "mount_entry \<Rightarrow> bool" where
  "good_mount m \<longleftrightarrow> list_all (\<lambda>f. SP \<notin> set f) [me_device m, me_mount m, me_fs m, me_options m] \<and>
     line_ok (render_mount m) \<and> utf8_valid (render_mount m)"

definition fs_named :: "string \<Rightarrow> file_system" where
  "fs_named s = (case FileSystem_from_str s of Ok fs \<Rightarrow> fs | _ \<Rightarrow> OtherFs s)"

definition mount_partition :: "mount_entry \<Rightarrow> partition" where
  "mount_partition m =
     \<lparr>part_device = (if me_device m = ''none'' then None else Some (me_device m)),
      part_mount_point = me_mount m, part_fs_type = fs_named (me_fs m), part_options = me_options m\<rparr>"

record fs_entry =
  fe_nodev :: bool
  fe_name :: string

definition render_fs :: "fs_entry \<Rightarrow> string" where
  "render_fs e = (if fe_nodev e then ''nodev'' else []) @ TAB # fe_name e"

definition good_fs :: "fs_entry \<Rightarrow> bool" where
  "good_fs e \<longleftrightarrow> line_ok (render_fs e) \<and> utf8_valid (render_fs e)"

definition fs_usable :: "fs_entry \<Rightarrow> bool" where
  "fs_usable e \<longleftrightarrow> \<not> fe_nodev e \<or> fe_name e = ''zfs''"

lemma FileSystem_from_str_named: "FileSystem_from_str s = Ok (fs_named s)"
  using FileSystem_from_str_Ok [of s] by (auto simp: fs_named_def)

lemma Partition_from_render:
  "good_mount m \<Longrightarrow> Partition_from_str h (render_mount m) = Ok (mount_partition m)"
  by (simp add: good_mount_def render_mount_def mount_partition_def Partition_from_str_def
      FileSystem_from_str_named eval_nat_numeral)

lemma read_lines_unlines:
  assumes "file_data h p = Inr (unlines ls)" "list_all line_ok ls" "list_all utf8_valid ls"
  shows "read_lines h p = Inr (map Inr ls)"
  using assms by (simp add: read_lines_def str_lines_unlines list_all_iff utf8_checked_def)

lemma partitions_table:
  assumes "file_data h (join_path (procfs h) ''mounts'') = Inr (unlines (map render_mount ms))"
    and "list_all good_mount ms"
  shows "partitions h = Ok (map Ok (map mount_partition ms))"
proof -
  have "read_lines h (join_path (procfs h) ''mounts'') = Inr (map Inr (map render_mount ms))"
    by (rule read_lines_unlines [OF assms(1)]) (use assms(2) in \<open>auto simp: list_all_iff good_mount_def\<close>)
  moreover have "try_filter_map (\<lambda>line. ok_opt (Partition_from_str h line))
      (map of_io (map Inr (map render_mount ms))) = map Ok (map mount_partition ms)"
    using assms(2) by (induction ms) (simp_all add: Partition_from_render)
  ultimately show ?thesis by (simp add: partitions_def)
qed

lemma known_filesystem_render:
  "known_filesystem_line (render_fs e) = Ok (if fs_usable e then Some (fs_named (fe_name e)) else None)"
  by (simp add: known_filesystem_line_def render_fs_def fs_usable_def FileSystem_from_str_named Let_def)

lemma known_filesystems_loop_set:
  "\<exists>fss. known_filesystems_loop (map Inr (map render_fs es)) acc = Ok fss \<and>
     set fss = set acc \<union> fs_named ` fe_name ` {e \<in> set es. fs_usable e}"
proof (induction es arbitrary: acc)
  case Nil
  then show ?case by simp
next
  case (Cons e es)
  show ?case
    using Cons [of "case (if fs_usable e then Some (fs_named (fe_name e)) else None) of
        None \<Rightarrow> acc | Some f \<Rightarrow> List.insert f acc"]
    by (auto simp: known_filesystem_render simp del: and_then_eq_Ok)
qed

lemma known_filesystems_table:
  assumes "file_data h (join_path (procfs h) ''filesystems'') = Inr (unlines (map render_fs es))"
    and "list_all good_fs es"
  shows "\<exists>fss. known_filesystems h = Ok fss \<and> set fss = fs_named ` fe_name ` {e \<in> set es. fs_usable e}"
proof -
  have "read_lines h (join_path (procfs h) ''filesystems'') = Inr (map Inr (map render_fs es))"
    by (rule read_lines_unlines [OF assms(1)]) (use assms(2) in \<open>auto simp: list_all_iff good_fs_def\<close>)
  then show ?thesis
    using known_filesystems_loop_set [of es "[]"] by (simp add: known_filesystems_def)
qed

lemma try_filter_map_keep:
  "try_filter_map (keep_physical fss) (map Ok ps) =
     map Ok (filter (\<lambda>p. part_device p \<noteq> None \<and> part_fs_type p \<in> set fss) ps)"
  by (induction ps) (simp_all add: keep_physical_def)

text \<open>
  (C32) Physical partitions: with the kernel's tables of mounts and of file systems given, the
  physical partitions are the mounts, in order and complete, that have a device and whose file
  system the kernel lists without \<open>nodev\<close> (or is \<open>zfs\<close>); all partitions are all mounts.
\<close>

theorem partitions_physical_table:
  assumes "file_data h (join_path (procfs h) ''mounts'') = Inr (unlines (map render_mount ms))"
    and "list_all good_mount ms"
    and "file_data h (join_path (procfs h) ''filesystems'') = Inr (unlines (map render_fs es))"
    and "list_all good_fs es"
  shows "partitions h = Ok (map Ok (map mount_partition ms)) \<and>
    partitions_physical h = Ok (map Ok (filter (\<lambda>p. part_device p \<noteq> None \<and>
      (\<exists>e\<in>set es. fs_usable e \<and> part_fs_type p = fs_named (fe_name e))) (map mount_partition ms)))"
proof -
  obtain fss where fss: "known_filesystems h = Ok fss"
      "set fss = fs_named ` fe_name ` {e \<in> set es. fs_usable e}"
    using known_filesystems_table [OF assms(3,4)] by blast
  have "part_fs_type p \<in> set fss \<longleftrightarrow>
      (\<exists>e\<in>set es. fs_usable e \<and> part_fs_type p = fs_named (fe_name e))" for p :: partition
    using fss(2) by auto
  then show ?thesis
    using partitions_table [OF assms(1,2)] fss(1)
    by (simp add: partitions_physical_def try_filter_map_keep del: map_map)
qed

definition mounts_host :: host where
  "mounts_host = sample_host\<lparr>file_data := (\<lambda>p.
     if p = ''/proc/mounts'' then Inr (unlines [''/dev/sda1 / ext4 rw 0 0'', ''tmpfs /tmp tmpfs rw 0 0''])
     else if p = ''/proc/filesystems'' then Inr (unlines [TAB # ''ext4'', ''nodev'' @ TAB # ''tmpfs''])
     else Inl (Os 2))\<rparr>"

theorem partitions_physical_table_witness:
  "partitions_physical mounts_host = Ok [Ok \<lparr>part_device = Some ''/dev/sda1'', part_mount_point = ''/'',
     part_fs_type = Ext4, part_options = ''rw''\<rparr>]"
proof -
  let ?ms = "[\<lparr>me_device = ''/dev/sda1'', me_mount = ''/'', me_fs = ''ext4'', me_options = ''rw'', me_rest = ''0 0''\<rparr>,
      \<lparr>me_device = ''tmpfs'', me_mount = ''/tmp'', me_fs = ''tmpfs'', me_options = ''rw'', me_rest = ''0 0''\<rparr>]"
  let ?es = "[\<lparr>fe_nodev = False, fe_name = ''ext4''\<rparr>, \<lparr>fe_nodev = True, fe_name = ''tmpfs''\<rparr>]"
  have "file_data mounts_host (join_path (procfs mounts_host) ''mounts'') = Inr (unlines (map render_mount ?ms))"
    "file_data mounts_host (join_path (procfs mounts_host) ''filesystems'') = Inr (unlines (map render_fs ?es))"
    by (simp_all add: mounts_host_def sample_host_def join_path_def render_mount_def render_fs_def
        starts_with_def)
  moreover have "list_all good_mount ?ms" "list_all good_fs ?es"
    by (simp_all add: good_mount_def render_mount_def good_fs_def render_fs_def line_ok_def
        utf8_valid_ascii byte_def)
  moreover have "fs_named ''ext4'' = Ext4" "fs_named ''tmpfs'' = OtherFs ''tmpfs''"
    by (simp_all add: fs_named_def FileSystem_from_str_def FileSystem_arms_def
        eq_ignore_ascii_case_def to_ascii_lowercase_def byte_def)
  ultimately show ?thesis
    using partitions_physical_table [of mounts_host ?ms ?es]
    by (simp add: mount_partition_def fs_usable_def)
qed

section \<open>Properties of the usage\<close>

text \<open>What the kernel promises of its block counts: free blocks are blocks, and the product fits.\<close>

definition vfs_ok :: "statvfs \<Rightarrow> bool" where
  "vfs_ok v \<longleftrightarrow> f_bfree v \<le> f_blocks v \<and> f_bavail v \<le> f_bfree v \<and>
     unat (f_blocks v) * unat (f_frsize v) < 2 ^ 64"

lemma vfs_product_fits:
  assumes "n \<le> f_blocks v" "vfs_ok v"
  shows "unat n * unat (f_frsize v) < 2 ^ 64"
proof -
  have "unat n * unat (f_frsize v) \<le> unat (f_blocks v) * unat (f_frsize v)"
    using assms(1) by (simp add: word_le_nat_alt)
  also have "\<dots> < 2 ^ 64" using assms(2) by (simp add: vfs_ok_def)
  finally show ?thesis .
qed

lemma rnd32_0 [simp]: "rnd32 0 = Fin 0"
  by (simp add: rnd32_def rnd_def)

text \<open>
  (C36) Disk usage: for the block counts of a mounted file system, the total, used and free sizes are
  the exact numbers of bytes with no overflow, used and free together never exceed the total, and the
  ratio of a file system without blocks is not a number.
\<close>

theorem Usage_exact:
  assumes "vfs_ok v" and byte: "\<And>n. Information_new h Byte n = n"
  shows "\<exists>total used free. Usage_total h v = Ok total \<and> Usage_used h v = Ok used \<and> Usage_free h v = Ok free \<and>
    unat total = unat (f_blocks v) * unat (f_frsize v) \<and>
    unat used = (unat (f_blocks v) - unat (f_bfree v)) * unat (f_frsize v) \<and>
    unat free = unat (f_bavail v) * unat (f_frsize v) \<and>
    unat used + unat free \<le> unat total \<and>
    (f_blocks v = 0 \<longrightarrow> Information_get h 0 = 0 \<longrightarrow> Usage_ratio h v = Ok (Ratio_new h NaN))"
proof -
  let ?b = "f_blocks v" and ?f = "f_bfree v" and ?a = "f_bavail v" and ?s = "f_frsize v"
  have le: "?f \<le> ?b" "?a \<le> ?f" "?a \<le> ?b" using assms(1) by (auto simp: vfs_ok_def)
  note fits = vfs_product_fits [OF _ assms(1)]
  have unat: "unat (?b * ?s) = unat ?b * unat ?s" "unat (?f * ?s) = unat ?f * unat ?s"
    "unat (?a * ?s) = unat ?a * unat ?s"
    using fits [of ?b] fits [of ?f] fits [of ?a] le by (simp_all add: unat_u64_mul)
  have sub: "?f * ?s \<le> ?b * ?s" using le(1) by (simp add: word_le_nat_alt unat)
  have used: "unat (?b * ?s - ?f * ?s) = (unat ?b - unat ?f) * unat ?s"
    using sub by (simp add: unat_sub unat diff_mult_distrib)
  have ratio: "Usage_ratio h v = Ok (Ratio_new h NaN)" if "?b = 0" "Information_get h 0 = 0"
  proof -
    have z: "?f = 0" "?a = 0" using that(1) le by auto
    have "u64_mul (overflow_checks h) 0 ?s = (Ok 0 :: (u64, heim_error) outcome)" by (simp add: u64_mul_def)
    then show ?thesis
      using that z by (simp add: Usage_ratio_def Usage_used_def Usage_total_def byte u64_sub_def
          f32_of_u64_def Let_def del: and_then_eq_Ok map_ok_eq_Ok)
  qed
  have "unat ?a \<le> unat ?f" "unat ?f \<le> unat ?b" using le by (simp_all add: word_le_nat_alt)
  then have "(unat ?b - unat ?f) + unat ?a \<le> unat ?b" by linarith
  then have sum: "(unat ?b - unat ?f) * unat ?s + unat ?a * unat ?s \<le> unat ?b * unat ?s"
    by (metis add_mult_distrib mult_le_mono1)
  have "Usage_total h v = Ok (?b * ?s)" "Usage_free h v = Ok (?a * ?s)"
    using fits [of ?b] fits [of ?a] le by (simp_all add: Usage_total_def Usage_free_def u64_mul_exact byte)
  moreover from this have "Usage_used h v = Ok (?b * ?s - ?f * ?s)"
    using fits [of ?f] le sub by (simp add: Usage_used_def u64_mul_exact u64_sub_exact byte)
  ultimately show ?thesis using unat used sum ratio by auto
qed

theorem Usage_exact_witness:
  "\<exists>used. Usage_used sample_host \<lparr>f_blocks = 100, f_bfree = 40, f_bavail = 30, f_frsize = 4096, f_flag = 0\<rparr> =
     Ok used \<and> unat used = 245760"
proof -
  let ?v = "\<lparr>f_blocks = 100, f_bfree = 40, f_bavail = 30, f_frsize = 4096, f_flag = 0\<rparr>"
  have "vfs_ok ?v" by (simp add: vfs_ok_def)
  from Usage_exact [OF this, of sample_host] show ?thesis by (auto simp: sample_host_def)
qed

end
