(* ===== verification/Virt_Linux.thy ===== *)
theory Virt_Linux
  imports Keyed_Table
begin

text \<open>
  \<open>heim-virt\<close>: the enumeration of \<open>src/lib.rs\<close> and the Linux detection of \<open>sys/linux/containers.rs\<close>,
  \<open>dmi.rs\<close>, \<open>cpuid.rs\<close>, \<open>device_tree.rs\<close> and \<open>mod.rs\<close>.

  What the \<open>raw_cpuid\<close> crate reports is a parameter, and so is the target architecture the
  conditional compilation asks for. The probes fail with the unit value, as in the source.
\<close>

datatype virtualization =
    Kvm | Qemu | Bochs | Xen | Uml | Vmware | Oracle | HyperV | Bhyve | Parallels | Qnx | Acrn
  | SystemdNspawn | LxcLibvirt | Lxc | OpenVz | Docker | Podman | Rkt | Wsl | Unknown

fun is_vm :: "virtualization \<Rightarrow> bool" where
  "is_vm Kvm = True"
| "is_vm Qemu = True"
| "is_vm Bochs = True"
| "is_vm Xen = True"
| "is_vm Uml = True"
| "is_vm Vmware = True"
| "is_vm Oracle = True"
| "is_vm HyperV = True"
| "is_vm Bhyve = True"
| "is_vm Qnx = True"
| "is_vm Acrn = True"
| "is_vm _ = False"

fun is_container :: "virtualization \<Rightarrow> bool" where
  "is_container SystemdNspawn = True"
| "is_container LxcLibvirt = True"
| "is_container Lxc = True"
| "is_container OpenVz = True"
| "is_container Docker = True"
| "is_container Podman = True"
| "is_container Rkt = True"
| "is_container Wsl = True"
| "is_container _ = False"

fun Virtualization_as_str :: "virtualization \<Rightarrow> (string, unit) outcome" where
  "Virtualization_as_str Kvm = Ok ''kvm''"
| "Virtualization_as_str Qemu = Ok ''qemu''"
| "Virtualization_as_str Bochs = Ok ''bochs''"
| "Virtualization_as_str Xen = Ok ''xen''"
| "Virtualization_as_str Uml = Ok ''uml''"
| "Virtualization_as_str Vmware = Ok ''vmware''"
| "Virtualization_as_str Oracle = Ok ''oracle''"
| "Virtualization_as_str HyperV = Ok ''hyperv''"
| "Virtualization_as_str Bhyve = Ok ''bhyve''"
| "Virtualization_as_str Qnx = Ok ''qnx''"
| "Virtualization_as_str Acrn = Ok ''acrn''"
| "Virtualization_as_str SystemdNspawn = Ok ''systemd-nspawn''"
| "Virtualization_as_str LxcLibvirt = Ok ''lxc-libvirt''"
| "Virtualization_as_str Lxc = Ok ''lxc''"
| "Virtualization_as_str OpenVz = Ok ''openvz''"
| "Virtualization_as_str Docker = Ok ''docker''"
| "Virtualization_as_str Podman = Ok ''podman''"
| "Virtualization_as_str Rkt = Ok ''rkt''"
| "Virtualization_as_str Wsl = Ok ''wsl''"
| "Virtualization_as_str Unknown = Ok ''unknown''"
| "Virtualization_as_str _ = Panic"

section \<open>Containers\<close>

definition try_guess_container :: "string \<Rightarrow> (virtualization, unit) outcome" where
  "try_guess_container value =
     (if value = ''lxc'' then Ok Lxc
      else if value = ''lxc-libvirt'' then Ok LxcLibvirt
      else if value = ''systemd-nspawn'' then Ok SystemdNspawn
      else if value = ''docker'' then Ok Docker
      else if value = ''podman'' then Ok Podman
      else if value = ''rkt'' then Ok Rkt
      else if value = ''wsl'' then Ok Wsl
      else Ok Unknown)"

text \<open>\<open>map_err(|_| ())\<close> on an input/output result, then \<open>?\<close>.\<close>

fun of_io_unit :: "io_error + 'a \<Rightarrow> ('a, unit) outcome" where
  "of_io_unit (Inl e) = Err ()"
| "of_io_unit (Inr x) = Ok x"

definition detect_wsl :: "'h host_scheme \<Rightarrow> path \<Rightarrow> (virtualization, unit) outcome" where
  "detect_wsl h path =
     and_then (of_io_unit (read_first_line h path)) (\<lambda>line.
       if contains line ''Microsoft'' then Ok Wsl
       else if contains line ''WSL'' then Ok Wsl
       else Err ())"

definition detect_systemd_container :: "'h host_scheme \<Rightarrow> path \<Rightarrow> (virtualization, unit) outcome" where
  "detect_systemd_container h path =
     and_then (of_io_unit (read_first_line h path)) try_guess_container"

fun cgroups_loop :: "(io_error + string) list \<Rightarrow> (virtualization, unit) outcome" where
  "cgroups_loop [] = Err ()"
| "cgroups_loop (Inl e # lines) = cgroups_loop lines"
| "cgroups_loop (Inr l # lines) =
     (if contains l ''lxc'' then Ok Lxc
      else if contains l ''docker'' then Ok Docker
      else if contains l ''rkt'' then Ok Rkt
      else cgroups_loop lines)"

definition detect_cgroups :: "'h host_scheme \<Rightarrow> path \<Rightarrow> (virtualization, unit) outcome" where
  "detect_cgroups h path = and_then (of_io_unit (read_lines h path)) cgroups_loop"

definition detect_openvz :: "'h host_scheme \<Rightarrow> (virtualization, unit) outcome" where
  "detect_openvz h =
     (if path_present h (join_path (procfs h) ''vz'') \<and> \<not> path_present h (join_path (procfs h) ''bc'')
      then Ok OpenVz else Err ())"

text \<open>The closure of the \<open>filter_map\<close>.\<close>

definition init_env_var :: "string \<Rightarrow> virtualization option" where
  "init_env_var var =
     (case split_char (CHR ''='') var of
        name # value # _ \<Rightarrow>
          (if name = ''container''
           then (case try_guess_container value of Ok v \<Rightarrow> Some v | _ \<Rightarrow> None)
           else None)
      | _ \<Rightarrow> None)"

definition detect_init_env :: "'h host_scheme \<Rightarrow> path \<Rightarrow> (virtualization, unit) outcome" where
  "detect_init_env h path =
     and_then (of_io_unit (read_to_string h path)) (\<lambda>contents.
       case List.map_filter init_env_var (split_char NUL contents) of
         virt # _ \<Rightarrow> Ok virt
       | [] \<Rightarrow> Err ())"

definition detect_container :: "'h host_scheme \<Rightarrow> (virtualization, unit) outcome" where
  "detect_container h =
     or_else (or_else (or_else (or_else (or_else (Err ())
       (\<lambda>_ :: unit. detect_openvz h))
       (\<lambda>_ :: unit. detect_wsl h (join_path (procfs h) ''sys/kernel/osrelease'')))
       (\<lambda>_ :: unit. detect_systemd_container h ''/run/systemd/container''))
       (\<lambda>_ :: unit. detect_init_env h ''/proc/1/environ''))
       (\<lambda>_ :: unit. detect_cgroups h ''/proc/self/cgroup'')"

section \<open>Virtual machines\<close>

definition dmi_archs :: "string list" where
  "dmi_archs = [''x86'', ''x86_64'', ''arm'', ''aarch64'']"

definition dmi_line :: "string \<Rightarrow> virtualization option" where
  "dmi_line line =
     (if starts_with line ''KVM'' then Some Kvm
      else if starts_with line ''QEMU'' then Some Qemu
      else if starts_with line ''VMware'' then Some Vmware
      else if starts_with line ''VMW'' then Some Vmware
      else if starts_with line ''innotek GmbH'' then Some Oracle
      else if starts_with line ''Xen'' then Some Xen
      else if starts_with line ''Bochs'' then Some Bochs
      else if starts_with line ''Parallels'' then Some Parallels
      else if starts_with line ''BHYVE'' then Some Bhyve
      else None)"

fun dmi_loop :: "'h host_scheme \<Rightarrow> path list \<Rightarrow> (virtualization, unit) outcome" where
  "dmi_loop h [] = Err ()"
| "dmi_loop h (filename # files) =
     (case read_first_line h filename of
        Inl _ \<Rightarrow> dmi_loop h files
      | Inr line \<Rightarrow> (case dmi_line line of Some v \<Rightarrow> Ok v | None \<Rightarrow> dmi_loop h files))"

definition detect_vm_dmi :: "string \<Rightarrow> 'h host_scheme \<Rightarrow> (virtualization, unit) outcome" where
  "detect_vm_dmi target_arch h =
     (if target_arch \<in> set dmi_archs
      then dmi_loop h (map (join_path (sysfs h))
        [''class/dmi/id/product_name'', ''class/dmi/id/sys_vendor'',
         ''class/dmi/id/board_vendor'', ''class/dmi/id/bios_vendor''])
      else Err ())"

text \<open>What \<open>identify\<close> of the \<open>raw_cpuid\<close> crate returns, with its constructors.\<close>

datatype hypervisor_id = IdXen | IdVMware | IdHyperV | IdKVM | IdUnknown u32 u32 u32

definition detect_vm_cpuid :: "string \<Rightarrow> hypervisor_id option \<Rightarrow> (virtualization, unit) outcome" where
  "detect_vm_cpuid target_arch info =
     (if target_arch \<in> {''x86'', ''x86_64''} then
        (case info of
           None \<Rightarrow> Err ()
         | Some cpuid \<Rightarrow>
             (case cpuid of
                IdXen \<Rightarrow> Ok Xen
              | IdHyperV \<Rightarrow> Ok HyperV
              | IdKVM \<Rightarrow> Ok Kvm
              | IdVMware \<Rightarrow> Ok Vmware
              | IdUnknown b c d \<Rightarrow>
                  if (b, c, d) = (0x54474354, 0x43544743, 0x47435447) then Ok Qemu
                  else if (b, c, d) = (0x76796862, 0x68622065, 0x20657679) then Ok Bhyve
                  else if (b, c, d) = (0x51584e51, 0x53424d56, 0x00004751) then Ok Qnx
                  else if (b, c, d) = (0x4e524341, 0x4e524341, 0x4e524341) then Ok Acrn
                  else Err ()))
      else Err ())"

definition hypervisor :: "'h host_scheme \<Rightarrow> path \<Rightarrow> (virtualization, unit) outcome" where
  "hypervisor h path =
     and_then (of_io_unit (read_first_line h path)) (\<lambda>line.
       if line = ''linux,kvm'' then Ok Kvm
       else if contains line ''xen'' then Ok Xen
       else Ok Unknown)"

fun device_tree_loop :: "(io_error + string) list \<Rightarrow> (virtualization, unit) outcome" where
  "device_tree_loop [] = Err ()"
| "device_tree_loop (entry # entries) =
     and_then (of_io_unit entry) (\<lambda>file_name.
       if utf8_valid file_name \<and> contains file_name ''fw-cfg'' then Ok Qemu
       else device_tree_loop entries)"

definition device_tree :: "'h host_scheme \<Rightarrow> path \<Rightarrow> (virtualization, unit) outcome" where
  "device_tree h path = and_then (of_io_unit (dir_entries h path)) device_tree_loop"

definition detect_vm_device_tree :: "string \<Rightarrow> 'h host_scheme \<Rightarrow> (virtualization, unit) outcome" where
  "detect_vm_device_tree target_arch h =
     (if target_arch \<in> {''arm'', ''aarch64'', ''powerpc'', ''powerpc64''}
      then or_else (hypervisor h ''/proc/device-tree/hypervisor/compatible'')
        (\<lambda>_ :: unit. device_tree h ''/proc/device-tree'')
      else Err ())"

definition detect ::
    "string \<Rightarrow> hypervisor_id option \<Rightarrow> 'h host_scheme \<Rightarrow> (virtualization option, unit) outcome" where
  "detect target_arch info h =
     ok_opt (or_else (or_else (or_else (or_else (Err ())
       (\<lambda>_ :: unit. detect_container h))
       (\<lambda>_ :: unit. detect_vm_dmi target_arch h))
       (\<lambda>_ :: unit. detect_vm_cpuid target_arch info))
       (\<lambda>_ :: unit. detect_vm_device_tree target_arch h))"

section \<open>Properties\<close>

text \<open>The reference for the detection: the probes in order, and the first one that finds something.\<close>

definition container_probes :: "'h host_scheme \<Rightarrow> (virtualization, unit) outcome list" where
  "container_probes h =
     [detect_openvz h, detect_wsl h (join_path (procfs h) ''sys/kernel/osrelease''),
      detect_systemd_container h ''/run/systemd/container'', detect_init_env h ''/proc/1/environ'',
      detect_cgroups h ''/proc/self/cgroup'']"

definition vm_probes ::
    "string \<Rightarrow> hypervisor_id option \<Rightarrow> 'h host_scheme \<Rightarrow> (virtualization, unit) outcome list" where
  "vm_probes target_arch info h =
     [detect_vm_dmi target_arch h, detect_vm_cpuid target_arch info, detect_vm_device_tree target_arch h]"

fun first_found :: "(virtualization, unit) outcome list \<Rightarrow> virtualization option" where
  "first_found [] = None"
| "first_found (Ok v # ps) = Some v"
| "first_found (_ # ps) = first_found ps"

lemma first_found_Some: "first_found ps = Some v \<Longrightarrow> Ok v \<in> set ps"
  by (induction ps rule: first_found.induct) auto

lemma first_found_append:
  "first_found (ps @ qs) = (if \<exists>p\<in>set ps. is_ok p then first_found ps else first_found qs)"
  by (induction ps rule: first_found.induct) auto

lemma of_io_unit_not_Panic [simp]: "of_io_unit r \<noteq> Panic"
  by (cases r) auto

text \<open>A probe that never panics and only finds systems of the given kind.\<close>

fun finds :: "(virtualization \<Rightarrow> bool) \<Rightarrow> (virtualization, unit) outcome \<Rightarrow> bool" where
  "finds K (Ok v) = K v"
| "finds K (Err e) = True"
| "finds K Panic = False"

abbreviation container_kind :: "virtualization \<Rightarrow> bool" where
  "container_kind v \<equiv> is_container v \<or> v = Unknown"

abbreviation vm_kind :: "virtualization \<Rightarrow> bool" where
  "vm_kind v \<equiv> is_vm v \<or> v = Parallels \<or> v = Unknown"

lemma finds_and_then:
  "(\<And>x. finds K (f x)) \<Longrightarrow> finds K (and_then (of_io_unit r) f)"
  by (cases r) auto

lemma finds_or_else: "finds K r \<Longrightarrow> finds K (f ()) \<Longrightarrow> finds K (or_else r f)"
  by (cases r) auto

lemma finds_guess: "finds container_kind (try_guess_container s)"
  by (simp add: try_guess_container_def)

lemma try_guess_container_Ok: "\<exists>v. try_guess_container s = Ok v"
  by (simp add: try_guess_container_def)

lemma finds_cgroups_loop: "finds container_kind (cgroups_loop ls)"
  by (induction ls rule: cgroups_loop.induct) auto

lemma init_env_var_kind: "init_env_var s = Some v \<Longrightarrow> container_kind v"
proof -
  assume "init_env_var s = Some v"
  then obtain t where "try_guess_container t = Ok v"
    by (auto simp: init_env_var_def split: list.splits if_splits outcome.splits)
  with finds_guess [of t] show ?thesis by simp
qed

lemma map_filter_head:
  "List.map_filter f xs = y # ys \<Longrightarrow> \<exists>x\<in>set xs. f x = Some y"
proof -
  assume "List.map_filter f xs = y # ys"
  then have "y \<in> set (List.map_filter f xs)" by simp
  then show ?thesis by (auto simp: List.map_filter_def)
qed

lemma finds_init_env: "finds container_kind (detect_init_env h p)"
  unfolding detect_init_env_def
  by (rule finds_and_then) (auto split: list.splits dest!: map_filter_head init_env_var_kind)

lemma finds_container_probes: "list_all (finds container_kind) (container_probes h)"
  unfolding container_probes_def
  by (auto simp: detect_openvz_def detect_wsl_def detect_systemd_container_def detect_cgroups_def
      finds_guess finds_cgroups_loop finds_init_env intro!: finds_and_then)

lemma finds_dmi_loop: "finds vm_kind (dmi_loop h ps)"
  by (induction h ps rule: dmi_loop.induct)
     (auto simp: dmi_line_def split: sum.splits)

lemma finds_device_tree_loop: "finds vm_kind (device_tree_loop es)"
proof (induction es)
  case (Cons e es)
  then show ?case by (cases e) auto
qed simp

lemma finds_hypervisor: "finds vm_kind (hypervisor h p)"
  unfolding hypervisor_def by (rule finds_and_then) simp

lemma finds_device_tree: "finds vm_kind (device_tree h p)"
  unfolding device_tree_def by (rule finds_and_then) (rule finds_device_tree_loop)

lemma finds_cpuid: "finds vm_kind (detect_vm_cpuid arch info)"
  by (simp add: detect_vm_cpuid_def split: option.split hypervisor_id.split)

lemma finds_dmi: "finds vm_kind (detect_vm_dmi arch h)"
  unfolding detect_vm_dmi_def using finds_dmi_loop [of h] by (simp del: dmi_loop.simps list.map)

lemma finds_vm_device_tree: "finds vm_kind (detect_vm_device_tree arch h)"
  unfolding detect_vm_device_tree_def
  by (simp only: if_split finds.simps finds_or_else finds_hypervisor finds_device_tree simp_thms)

lemma finds_vm_probes: "list_all (finds vm_kind) (vm_probes arch info h)"
  by (simp add: vm_probes_def finds_dmi finds_vm_device_tree finds_cpuid)

lemma or_else_first:
  "list_all (finds K) (p # ps) \<Longrightarrow>
   ok_opt (foldl (\<lambda>r q. or_else r (\<lambda>_ :: unit. q)) p ps) = Ok (first_found (p # ps))"
proof (induction ps arbitrary: p)
  case Nil
  then show ?case by (cases p) auto
next
  case (Cons q ps)
  have "finds K (or_else p (\<lambda>_. q))" using Cons.prems by (simp add: finds_or_else)
  then show ?case using Cons.IH [of "or_else p (\<lambda>_. q)"] Cons.prems by (cases p) auto
qed

lemma or_else_assoc: "or_else r (\<lambda>e. or_else (f e) g) = or_else (or_else r f) g"
  by (cases r) auto

lemma first_found_kind: "first_found ps = Some v \<Longrightarrow> list_all (finds K) ps \<Longrightarrow> K v"
  by (induction ps rule: first_found.induct) auto

text \<open>
  (C35) Detection order: whatever the host holds, detection never panics and returns what the first
  successful probe finds, in the order OpenVZ, WSL, systemd, the environment of process 1, control
  groups, DMI, CPUID, device tree. When a container probe succeeds the answer is a container or
  unknown, and a virtual machine is only reported when no container was found.
\<close>

theorem detect_order:
  "detect arch info h = Ok (first_found (container_probes h @ vm_probes arch info h)) \<and>
   (detect arch info h = Ok (Some v) \<longrightarrow>
      (if \<exists>p\<in>set (container_probes h). is_ok p then container_kind v else vm_kind v))"
proof -
  have all: "list_all (finds (\<lambda>_. True)) (container_probes h @ vm_probes arch info h)"
  proof -
    have "finds K p \<Longrightarrow> finds (\<lambda>_. True) p" for K p by (cases p) auto
    then show ?thesis
      using finds_container_probes [of h] finds_vm_probes [of arch info h]
      by (auto simp: list_all_iff)
  qed
  have "detect arch info h = Ok (first_found (container_probes h @ vm_probes arch info h))"
    using or_else_first [of "\<lambda>_. True" "hd (container_probes h)" "tl (container_probes h) @ vm_probes arch info h"] all
    by (simp add: container_probes_def vm_probes_def detect_def detect_container_def)
  then show ?thesis
    using first_found_kind [OF _ finds_container_probes, of h v]
      first_found_kind [OF _ finds_vm_probes, of arch info h v]
    by (auto simp: first_found_append)
qed

definition docker_host :: host where
  "docker_host = sample_host\<lparr>file_data := (\<lambda>p.
     if p = ''/run/systemd/container'' then Inr (''docker'' @ [NL])
     else if p = ''/sys/class/dmi/id/product_name'' then Inr (''QEMU'' @ [NL])
     else Inl (Os 2))\<rparr>"

lemma docker_host_probe: "detect_systemd_container docker_host ''/run/systemd/container'' = Ok Docker"
proof -
  have "str_lines (''docker'' @ [NL]) = [''docker'']"
    using str_lines_unlines [of "[''docker'']"] by (simp add: unlines_def line_ok_def)
  then show ?thesis
    by (simp add: detect_systemd_container_def read_first_line_def read_lines_def docker_host_def
        utf8_checked_def utf8_valid_ascii byte_def try_guess_container_def)
qed

theorem detect_order_witness:
  "detect ''x86_64'' None docker_host = Ok (Some Docker) \<and> container_kind Docker"
proof -
  have "first_found (container_probes docker_host @ vm_probes ''x86_64'' None docker_host) = Some Docker"
    using docker_host_probe
    by (simp add: container_probes_def detect_openvz_def detect_wsl_def read_first_line_def
        read_lines_def docker_host_def sample_host_def join_path_def starts_with_def)
  then show ?thesis
    using detect_order [of "''x86_64''" None docker_host Docker] by simp
qed

text \<open>
  Names of virtualization systems: every system has its own name, and a container is found
  again by its name, except OpenVZ, which is not a name a container manager announces. Asking for
  the name of Parallels panics, although detection can return it, and it counts neither as a virtual
  machine nor as a container.
\<close>

theorem Virtualization_names:
  "(Virtualization_as_str v = Panic \<longleftrightarrow> v = Parallels) \<and>
   (\<forall>s. Virtualization_as_str v = Ok s \<longrightarrow> Virtualization_as_str w = Ok s \<longrightarrow> v = w) \<and>
   (\<forall>s. Virtualization_as_str v = Ok s \<longrightarrow> is_container v \<longrightarrow>
      try_guess_container s = Ok (if v = OpenVz then Unknown else v)) \<and>
   \<not> is_vm Parallels \<and> \<not> is_container Parallels \<and> dmi_line ''Parallels'' = Some Parallels"
proof (intro conjI allI impI)
  show "Virtualization_as_str v = Panic \<longleftrightarrow> v = Parallels" by (cases v) simp_all
  show "v = w" if "Virtualization_as_str v = Ok s" "Virtualization_as_str w = Ok s" for s
    using that by (cases v) (cases w; force)+
  show "try_guess_container s = Ok (if v = OpenVz then Unknown else v)"
    if "Virtualization_as_str v = Ok s" "is_container v" for s
    using that by (cases v) (auto simp: try_guess_container_def)
  show "dmi_line ''Parallels'' = Some Parallels" by (simp add: dmi_line_def starts_with_def)
qed simp_all

theorem Virtualization_names_witness:
  "try_guess_container ''systemd-nspawn'' = Ok SystemdNspawn"
  using Virtualization_names [of SystemdNspawn SystemdNspawn] by simp

text \<open>The three words of a hypervisor's twelve-byte signature, little endian as CPUID returns them.\<close>

definition le_word :: "string \<Rightarrow> u32" where
  "le_word s = of_nat (foldr (\<lambda>c acc. byte c + 256 * acc) s 0)"

definition signature_id :: "string \<Rightarrow> hypervisor_id" where
  "signature_id s = IdUnknown (le_word (take 4 s)) (le_word (take 4 (drop 4 s))) (le_word (drop 8 s))"

text \<open>
  CPUID signatures: on x86 the magic numbers are the signatures of QEMU, bhyve, QNX and ACRN,
  spelled out; the named hypervisors are themselves; anything else, and any other architecture, is
  not a virtual machine this probe knows.
\<close>

theorem detect_vm_cpuid_signatures:
  assumes "arch \<in> {''x86'', ''x86_64''}"
  shows "detect_vm_cpuid arch (Some (signature_id ''TCGTCGTCGTCG'')) = Ok Qemu \<and>
    detect_vm_cpuid arch (Some (signature_id ''bhyve bhyve '')) = Ok Bhyve \<and>
    detect_vm_cpuid arch (Some (signature_id ''QNXQVMBSQG'')) = Ok Qnx \<and>
    detect_vm_cpuid arch (Some (signature_id ''ACRNACRNACRN'')) = Ok Acrn \<and>
    (detect_vm_cpuid arch (Some (IdUnknown b c d)) = Err () \<longleftrightarrow>
       IdUnknown b c d \<notin> signature_id ` {''TCGTCGTCGTCG'', ''bhyve bhyve '', ''QNXQVMBSQG'', ''ACRNACRNACRN''})"
proof -
  have sig: "signature_id ''TCGTCGTCGTCG'' = IdUnknown 0x54474354 0x43544743 0x47435447"
    "signature_id ''bhyve bhyve '' = IdUnknown 0x76796862 0x68622065 0x20657679"
    "signature_id ''QNXQVMBSQG'' = IdUnknown 0x51584e51 0x53424d56 0x00004751"
    "signature_id ''ACRNACRNACRN'' = IdUnknown 0x4e524341 0x4e524341 0x4e524341"
    by (simp_all add: signature_id_def le_word_def byte_def)
  show ?thesis using assms by (auto simp: sig detect_vm_cpuid_def)
qed

theorem detect_vm_cpuid_signatures_witness:
  "detect_vm_cpuid ''x86_64'' (Some (signature_id ''bhyve bhyve '')) = Ok Bhyve"
  using detect_vm_cpuid_signatures [of "''x86_64''" 0 0 0] by simp

lemma split_char_hd: "\<exists>ps. split_char c s = takeWhile (\<lambda>x. x \<noteq> c) s # ps"
proof (cases "c \<in> set s")
  case True
  then obtain p r where "s = p @ c # r" "c \<notin> set p" by (meson split_list_first)
  then show ?thesis by (simp add: takeWhile_neq_append)
next
  case False
  then show ?thesis by (simp add: takeWhile_neq_all)
qed

lemma init_env_var_container:
  "CHR ''='' \<notin> set val \<Longrightarrow> init_env_var (''container='' @ val) =
     (case try_guess_container val of Ok v \<Rightarrow> Some v | _ \<Rightarrow> None)"
  using split_char_append [of "CHR ''=''" "''container''" val] by (simp add: init_env_var_def)

lemma init_env_var_other: "\<not> starts_with var ''container='' \<Longrightarrow> init_env_var var = None"
proof (cases "CHR ''='' \<in> set var")
  case True
  assume no: "\<not> starts_with var ''container=''"
  from True obtain p r where var: "var = p @ CHR ''='' # r" "CHR ''='' \<notin> set p"
    by (meson split_list_first)
  have "p \<noteq> ''container''"
  proof
    assume "p = ''container''"
    then have "var = ''container='' @ r" using var(1) by simp
    with no show False by (metis starts_with_append)
  qed
  then show ?thesis
    using var split_char_hd [of "CHR ''=''" r] by (auto simp: init_env_var_def)
next
  case False
  then show ?thesis by (simp add: init_env_var_def)
qed

lemma map_filter_first:
  assumes "\<And>x. x \<in> set xs \<Longrightarrow> f x = None" "f y = Some z"
  shows "\<exists>zs. List.map_filter f (xs @ y # ys) = z # zs"
  using assms by (induction xs) (auto simp: List.map_filter_def)

text \<open>
  The container variable: among the NUL-separated variables of process 1 the first one named
  \<open>container\<close> decides, by its value; without one the probe fails.
\<close>

theorem detect_init_env_first:
  assumes "file_data h p = Inr (join_with [NUL] vars)" "utf8_valid (join_with [NUL] vars)"
    and "vars \<noteq> []" "list_all (\<lambda>v. NUL \<notin> set v) vars"
  shows "(list_all (\<lambda>v. \<not> starts_with v ''container='') vars \<longrightarrow> detect_init_env h p = Err ()) \<and>
    (\<forall>pre val post. vars = pre @ (''container='' @ val) # post \<longrightarrow>
       list_all (\<lambda>v. \<not> starts_with v ''container='') pre \<longrightarrow> CHR ''='' \<notin> set val \<longrightarrow>
       detect_init_env h p = try_guess_container val)"
proof (intro conjI allI impI)
  have "split_char NUL (join_with [NUL] vars) = vars"
    using assms(3,4) by (intro split_char_join) (auto simp: list_all_iff)
  then have env: "detect_init_env h p =
      (case List.map_filter init_env_var vars of virt # _ \<Rightarrow> Ok virt | [] \<Rightarrow> Err ())"
    using assms(1,2) by (simp add: detect_init_env_def read_to_string_def utf8_checked_def)
  show "detect_init_env h p = Err ()" if "list_all (\<lambda>v. \<not> starts_with v ''container='') vars"
    using that by (simp add: env List.map_filter_def list_all_iff init_env_var_other)
  fix pre val post
  assume vars: "vars = pre @ (''container='' @ val) # post"
    and pre: "list_all (\<lambda>v. \<not> starts_with v ''container='') pre" and val: "CHR ''='' \<notin> set val"
  obtain v where v: "try_guess_container val = Ok v"
    using try_guess_container_Ok [of val] by blast
  have "init_env_var (''container='' @ val) = Some v"
    by (simp only: init_env_var_container [OF val] v outcome.case)
  moreover have "x \<in> set pre \<Longrightarrow> init_env_var x = None" for x
    using pre init_env_var_other [of x] by (auto simp: list_all_iff)
  ultimately have "\<exists>zs. List.map_filter init_env_var vars = v # zs"
    unfolding vars by (intro map_filter_first) auto
  then show "detect_init_env h p = try_guess_container val" using v by (auto simp: env)
qed

theorem detect_init_env_first_witness:
  "detect_init_env (sample_host\<lparr>file_data := \<lambda>_. Inr (join_with [NUL] [''LANG=C'', ''container=podman'', ''USER=root''])\<rparr>)
     ''/proc/1/environ'' = Ok Podman"
proof -
  let ?vars = "[''LANG=C'', ''container=podman'', ''USER=root'']"
  let ?h = "sample_host\<lparr>file_data := \<lambda>_. Inr (join_with [NUL] ?vars)\<rparr>"
  have "utf8_valid (join_with [NUL] ?vars)" by (simp add: utf8_valid_ascii byte_def)
  then have "detect_init_env ?h ''/proc/1/environ'' = try_guess_container ''podman''"
    using detect_init_env_first [of ?h "''/proc/1/environ''" ?vars, THEN conjunct2, THEN spec,
        of "[''LANG=C'']", THEN spec, of "''podman''", THEN spec, of "[''USER=root'']"]
    by (simp add: starts_with_def)
  then show ?thesis by (simp add: try_guess_container_def)
qed

text \<open>
  Hypervisor node: a compatible string is recognised as KVM when it is the whole first line.
  With the NUL byte that ends a device tree string, a KVM guest is reported as unknown instead.
\<close>

theorem hypervisor_compatible:
  "hypervisor (h\<lparr>file_data := \<lambda>_. Inr (''linux,kvm'' @ [NL])\<rparr>) p = Ok Kvm \<and>
   hypervisor (h\<lparr>file_data := \<lambda>_. Inr (''linux,kvm'' @ [NUL])\<rparr>) p = Ok Unknown"
proof -
  have "str_lines (''linux,kvm'' @ [NL]) = [''linux,kvm'']"
    using str_lines_unlines [of "[''linux,kvm'']"] by (simp add: unlines_def line_ok_def)
  moreover have "str_lines (''linux,kvm'' @ [NUL]) = [''linux,kvm'' @ [NUL]]"
    by (simp add: str_lines_def)
  ultimately show ?thesis
    by (simp add: hypervisor_def read_first_line_def read_lines_def utf8_checked_def
        utf8_valid_ascii byte_def starts_with_def)
qed

end
