(* ===== verification/Sensors_Linux.thy ===== *)
theory Sensors_Linux
  imports Keyed_Table "HOL-Library.Multiset"
begin

text \<open>
  \<open>heim-sensors\<close>: \<open>src/temperatures.rs\<close> and \<open>sys/linux/temperatures.rs\<close>, with the empty streams of
  the other systems.

  A directory entry is its directory and its name. The two stream combinators that depend on timing
  are parameters: \<open>select\<close> gives the order in which \<open>stream::select\<close> of the \<open>futures\<close> crate yields the
  items of two streams, and \<open>race\<close> says which error \<open>try_join\<close> returns when both futures fail.
  \<open>temperatures\<close> runs the \<open>ChooseChain\<close> of \<open>Common_Stream\<close> on the resulting streams.
\<close>

type_synonym dir_entry = "path \<times> string"

record temperature_sensor =
  ts_unit :: string
  ts_label :: "string option"
  ts_current :: fval
  ts_high :: "fval option"
  ts_critical :: "fval option"

section \<open>Strings and stream combinators\<close>

text \<open>\<open>String::pop\<close>: the last character goes, with all its bytes.\<close>

definition str_pop :: "string \<Rightarrow> string" where
  "str_pop s = rev (drop 1 (dropWhile (\<lambda>c. cont_byte (byte c)) (rev s)))"

definition read_dir_stream :: "'h host_scheme \<Rightarrow> path \<Rightarrow> (io_error + dir_entry) list" where
  "read_dir_stream h p =
     (case dir_entries h p of
        Inl e \<Rightarrow> [Inl e]
      | Inr entries \<Rightarrow> map (map_sum id (Pair p)) entries)"

definition try_filter :: "('a \<Rightarrow> bool) \<Rightarrow> ('e + 'a) list \<Rightarrow> ('e + 'a) list" where
  "try_filter P xs = filter (case_sum (\<lambda>_. True) P) xs"

definition try_flatten :: "('a \<Rightarrow> ('e + 'b) list) \<Rightarrow> ('e + 'a) list \<Rightarrow> ('e + 'b) list" where
  "try_flatten f xs = concat (map (case_sum (\<lambda>e. [Inl e]) f) xs)"

fun try_fold ::
    "('s \<Rightarrow> 'a \<Rightarrow> ('s, 'e) outcome) \<Rightarrow> 's \<Rightarrow> ('a, 'e) outcome list \<Rightarrow> ('s, 'e) outcome" where
  "try_fold f acc [] = Ok acc"
| "try_fold f acc (x # xs) = and_then (and_then x (f acc)) (\<lambda>acc. try_fold f acc xs)"

definition sensor_file_name :: "string \<Rightarrow> bytes \<Rightarrow> string" where
  "sensor_file_name pre postfix = pre @ postfix"

section \<open>Sensors\<close>

definition read_temperature :: "'h host_scheme \<Rightarrow> path \<Rightarrow> (fval, heim_error) outcome" where
  "read_temperature h path =
     and_then (of_io (read_to_string h path)) (\<lambda>contents.
     and_then (map_err Error_from_parse_float (parse_f32 (trim_end contents))) (\<lambda>v.
       Ok (Temperature_new h (f_div rnd32 v (Fin 1000)))))"

definition hwmon_sensor ::
    "bool \<Rightarrow> 'h host_scheme \<Rightarrow> dir_entry \<Rightarrow> (temperature_sensor, heim_error) outcome" where
  "hwmon_sensor race h entry =
     (case entry of (dir, name) \<Rightarrow>
      if length name < length ''input'' then Panic
      else
        let pre = take (length name - length ''input'') name;
            unit_name = map_ok str_pop (of_io (read_to_string h (join_path dir ''name'')));
            label = ok_opt (map_ok str_pop
              (of_io (read_to_string h (join_path dir (sensor_file_name pre ''label'')))));
            high = ok_opt (read_temperature h (join_path dir (sensor_file_name pre ''max'')));
            critical = ok_opt (read_temperature h (join_path dir (sensor_file_name pre ''crit'')));
            current = read_temperature h (join_path dir name)
        in and_then (try_join race unit_name current) (\<lambda>(unit, current).
           and_then label (\<lambda>label.
           and_then high (\<lambda>high.
           and_then critical (\<lambda>critical.
             Ok \<lparr>ts_unit = unit, ts_label = label, ts_current = current, ts_high = high,
                 ts_critical = critical\<rparr>)))))"

definition is_hwmon :: "dir_entry \<Rightarrow> bool" where
  "is_hwmon entry \<longleftrightarrow> starts_with (snd entry) ''hwmon''"

definition is_temp_input :: "dir_entry \<Rightarrow> bool" where
  "is_temp_input entry \<longleftrightarrow> starts_with (snd entry) ''temp'' \<and> ends_with (snd entry) ''_input''"

definition entry_path :: "dir_entry \<Rightarrow> path" where
  "entry_path entry = join_path (fst entry) (snd entry)"

definition hwmon ::
    "(dir_entry \<Rightarrow> bool) \<Rightarrow> 'h host_scheme \<Rightarrow> (temperature_sensor, heim_error) outcome list" where
  "hwmon race h =
     map (\<lambda>r. and_then (of_io r) (\<lambda>entry. hwmon_sensor (race entry) h entry))
       (try_flatten (\<lambda>entry. try_filter is_temp_input (read_dir_stream h (entry_path entry)))
         (try_filter is_hwmon (read_dir_stream h (join_path (sysfs h) ''class/hwmon''))))"

definition hwmon_device ::
    "(dir_entry \<Rightarrow> bool) \<Rightarrow> 'h host_scheme \<Rightarrow> (temperature_sensor, heim_error) outcome list" where
  "hwmon_device race h =
     map (\<lambda>r. and_then (of_io r) (\<lambda>entry. hwmon_sensor (race entry) h entry))
       (try_flatten (\<lambda>entry. try_filter is_temp_input
           (read_dir_stream h (join_path (entry_path entry) ''device'')))
         (try_filter (\<lambda>entry. path_present h (join_path (entry_path entry) ''device''))
           (try_filter is_hwmon (read_dir_stream h (join_path (sysfs h) ''class/hwmon'')))))"

definition is_trip_type :: "dir_entry \<Rightarrow> bool" where
  "is_trip_type entry \<longleftrightarrow> starts_with (snd entry) ''trip_point_'' \<and> ends_with (snd entry) ''type''"

text \<open>The closure of the \<open>try_fold\<close> over the trip points.\<close>

definition trip_point ::
    "'h host_scheme \<Rightarrow> temperature_sensor \<Rightarrow> dir_entry \<Rightarrow> (temperature_sensor, heim_error) outcome" where
  "trip_point h acc entry =
     (case entry of (dir, name) \<Rightarrow>
      if length name < length ''type'' then Panic
      else
        let pre = take (length name - length ''type'') name;
            temp_path = join_path dir (sensor_file_name pre ''temp'')
        in and_then (of_io (read_to_string h (entry_path entry))) (\<lambda>content.
             if content = ''critical'' @ [NL]
             then map_ok (\<lambda>temp. acc\<lparr>ts_critical := Some temp\<rparr>) (read_temperature h temp_path)
             else if content = ''high'' @ [NL]
             then map_ok (\<lambda>temp. acc\<lparr>ts_high := Some temp\<rparr>) (read_temperature h temp_path)
             else Ok acc))"

definition thermal_sensor ::
    "bool \<Rightarrow> 'h host_scheme \<Rightarrow> path \<Rightarrow> (temperature_sensor, heim_error) outcome" where
  "thermal_sensor race h dir =
     and_then (try_join race (read_temperature h (join_path dir ''temp''))
         (map_ok str_pop (of_io (read_to_string h (join_path dir ''type''))))) (\<lambda>(temp, unit).
       try_fold (trip_point h)
         \<lparr>ts_unit = unit, ts_label = None, ts_current = temp, ts_high = None, ts_critical = None\<rparr>
         (map of_io (try_filter is_trip_type (read_dir_stream h dir))))"

definition thermal_zone ::
    "(dir_entry \<Rightarrow> bool) \<Rightarrow> 'h host_scheme \<Rightarrow> (temperature_sensor, heim_error) outcome list" where
  "thermal_zone race h =
     map (\<lambda>r. and_then (of_io r) (\<lambda>entry. thermal_sensor (race entry) h (entry_path entry)))
       (try_filter (\<lambda>entry. starts_with (snd entry) ''thermal_zone'')
         (read_dir_stream h (join_path (sysfs h) ''class/thermal'')))"

text \<open>All the items of the stream; polled often enough, so never \<open>None\<close>.\<close>

definition temperatures ::
    "((temperature_sensor, heim_error) outcome list \<Rightarrow> (temperature_sensor, heim_error) outcome list
        \<Rightarrow> (temperature_sensor, heim_error) outcome list)
      \<Rightarrow> (dir_entry \<Rightarrow> bool) \<Rightarrow> 'h host_scheme \<Rightarrow> (temperature_sensor, heim_error) outcome list option" where
  "temperatures select race h =
     (let first = map Item (select (hwmon race h) (hwmon_device race h));
          second = map Item (thermal_zone race h)
      in collect (ChooseChain_poll_next script_poll script_poll) (length first + length second + 2)
           (ChooseChain_new first second))"

section \<open>Properties\<close>

lemma script_items_map [simp]: "script_items (map Item xs) = xs"
  by (induction xs) auto

lemma temperatures_items:
  "temperatures select race h =
     Some (if select (hwmon race h) (hwmon_device race h) = [] then thermal_zone race h
           else select (hwmon race h) (hwmon_device race h))"
proof -
  let ?xs = "select (hwmon race h) (hwmon_device race h)" and ?ys = "thermal_zone race h"
  let ?c = "ChooseChain_new (map Item ?xs) (map Item ?ys)"
  have "chain_cost length length ?c < length ?xs + length ?ys + 2"
    by (simp add: chain_cost_def ChooseChain_new_def)
  from chain.collect_items [OF this] show ?thesis
    by (simp add: temperatures_def Let_def chain_items_def ChooseChain_new_def del: collect.simps)
qed

text \<open>
  Which sensors are shown: the items of the two hwmon streams if there are any, and the thermal
  zones only when both are empty. An error is an item too: on a host whose hwmon directory cannot be
  read, the stream is the two errors and the thermal zones are never reached.
\<close>

theorem temperatures_choice:
  assumes "\<And>xs ys. mset (select xs ys) = mset xs + mset ys"
  shows "temperatures select race h =
      Some (if hwmon race h = [] \<and> hwmon_device race h = [] then thermal_zone race h
            else select (hwmon race h) (hwmon_device race h)) \<and>
    (\<forall>e. dir_entries h (join_path (sysfs h) ''class/hwmon'') = Inl e \<longrightarrow>
       temperatures select race h = Some [Err (Error_from_io e), Err (Error_from_io e)])"
proof (intro conjI allI impI)
  have empty: "select xs ys = [] \<longleftrightarrow> xs = [] \<and> ys = []" for xs ys
    using assms [of xs ys] by (metis mset_zero_iff union_eq_empty)
  show "temperatures select race h =
      Some (if hwmon race h = [] \<and> hwmon_device race h = [] then thermal_zone race h
            else select (hwmon race h) (hwmon_device race h))"
    by (simp add: temperatures_items empty)
  fix e
  assume "dir_entries h (join_path (sysfs h) ''class/hwmon'') = Inl e"
  then have "hwmon race h = [Err (Error_from_io e)]" "hwmon_device race h = [Err (Error_from_io e)]"
    by (simp_all add: hwmon_def hwmon_device_def read_dir_stream_def try_filter_def try_flatten_def)
  moreover have "select [x] [x] = [x, x]" for x
  proof -
    have "mset (select [x] [x]) = replicate_mset 2 x" using assms [of "[x]" "[x]"] by (simp add: numeral_2_eq_2)
    then have "size (mset (select [x] [x])) = 2" "\<forall>y\<in>set (select [x] [x]). y = x"
      by (simp, metis in_replicate_mset set_mset_mset)
    then show ?thesis by (cases "select [x] [x]"; cases "tl (select [x] [x])") auto
  qed
  ultimately show "temperatures select race h = Some [Err (Error_from_io e), Err (Error_from_io e)]"
    by (simp add: temperatures_items empty)
qed

theorem temperatures_choice_witness:
  "temperatures (@) (\<lambda>_. True) sample_host = Some [Err (Error_from_io (Os 2)), Err (Error_from_io (Os 2))]"
proof -
  have "dir_entries sample_host (join_path (sysfs sample_host) ''class/hwmon'') = Inl (Os 2)"
    by (simp add: sample_host_def)
  with temperatures_choice [of "(@)" "\<lambda>_. True" sample_host, THEN conjunct2, THEN spec, of "Os 2"]
  show ?thesis by simp
qed

text \<open>The files of a sensor: a text line, or no file where the sensor has no such value.\<close>

definition has_line :: "'h host_scheme \<Rightarrow> path \<Rightarrow> string option \<Rightarrow> bool" where
  "has_line h p text_line \<longleftrightarrow>
     (case text_line of
        None \<Rightarrow> (\<exists>e. file_data h p = Inl e)
      | Some s \<Rightarrow> file_data h p = Inr (s @ [NL]) \<and> utf8_valid (s @ [NL]))"

definition celsius :: "'h host_scheme \<Rightarrow> nat \<Rightarrow> fval" where
  "celsius h n = Temperature_new h (f_div rnd32 (rnd32 (of_nat n)) (Fin 1000))"

lemma str_pop_NL [simp]: "str_pop (s @ [NL]) = s"
  by (simp add: str_pop_def cont_byte_def byte_def)

lemma read_to_string_has_line: "has_line h p (Some s) \<Longrightarrow> read_to_string h p = Inr (s @ [NL])"
  by (simp add: has_line_def read_to_string_def utf8_checked_def)

lemma read_to_string_no_line: "has_line h p None \<Longrightarrow> \<exists>e. read_to_string h p = Inl e"
  by (auto simp: has_line_def read_to_string_def)

lemma parse_f32_show_nat: "parse_f32 (show_nat n) = Ok (rnd32 (of_nat n))"
  using digits_not_word [OF show_nat_all_digits show_nat_ne, of n] hd_show_nat [of n]
  by (simp add: parse_f32_def parse_float_def parse_decimal_show)

lemma read_temperature_line:
  "has_line h p (Some (show_nat n)) \<Longrightarrow> read_temperature h p = Ok (celsius h n)"
  by (simp add: read_temperature_def read_to_string_has_line celsius_def parse_f32_show_nat
      trim_end_token_ws show_nat_solid)

lemma read_temperature_optional:
  "has_line h p (map_option show_nat t) \<Longrightarrow>
   ok_opt (read_temperature h p) = (Ok (map_option (celsius h) t) :: (fval option, heim_error) outcome)"
proof (cases t)
  case None
  assume "has_line h p (map_option show_nat t)"
  with None show ?thesis by (auto simp: read_temperature_def dest: read_to_string_no_line)
next
  case (Some n)
  assume "has_line h p (map_option show_nat t)"
  with Some show ?thesis by (simp add: read_temperature_line)
qed

text \<open>
  (C18) One hwmon sensor: from its input file \<open>X_input\<close> in millidegrees, the name of the device beside it
  and the optional files \<open>X_label\<close>, \<open>X_max\<close> and \<open>X_crit\<close>, the sensor has exactly these values in degrees,
  with nothing for a file that is missing; a missing name or input file is an error.
\<close>

theorem hwmon_sensor_files:
  assumes "has_line h (join_path dir ''name'') unit_name"
    and "has_line h (join_path dir (pre @ ''label'')) label"
    and "has_line h (join_path dir (pre @ ''input'')) (map_option show_nat current)"
    and "has_line h (join_path dir (pre @ ''max'')) (map_option show_nat high)"
    and "has_line h (join_path dir (pre @ ''crit'')) (map_option show_nat critical)"
  shows "case (unit_name, current) of
      (Some u, Some c) \<Rightarrow> hwmon_sensor race h (dir, pre @ ''input'') =
        Ok \<lparr>ts_unit = u, ts_label = label, ts_current = celsius h c,
            ts_high = map_option (celsius h) high, ts_critical = map_option (celsius h) critical\<rparr>
    | _ \<Rightarrow> \<exists>e. hwmon_sensor race h (dir, pre @ ''input'') = Err e"
proof -
  have label: "ok_opt (map_ok str_pop (of_io (read_to_string h (join_path dir (pre @ ''label''))))) =
      (Ok label :: (string option, heim_error) outcome)"
    using assms(2) read_to_string_no_line [of h "join_path dir (pre @ ''label'')"]
    by (cases label) (auto simp: read_to_string_has_line)
  have u: "(\<exists>e. map_ok str_pop (of_io (read_to_string h (join_path dir ''name''))) = Err e)" if "unit_name = None"
    using assms(1) that by (auto dest: read_to_string_no_line)
  have c: "\<exists>e. read_temperature h (join_path dir (pre @ ''input'')) = Err e" if "current = None"
    using assms(3) that by (auto simp: read_temperature_def dest: read_to_string_no_line)
  have join: "\<exists>e. try_join race a b = Err e" if "(\<exists>e. a = Err e) \<and> b \<noteq> Panic \<or> a \<noteq> Panic \<and> (\<exists>e. b = Err e)"
    for a :: "('x, heim_error) outcome" and b :: "('y, heim_error) outcome"
    using that by (cases a; cases b) auto
  have "read_temperature h p \<noteq> Panic" for p
    by (auto simp: read_temperature_def and_then_eq_Panic)
  moreover have "map_ok str_pop (of_io (read_to_string h p)) \<noteq> Panic" for p by simp
  moreover note read_temperature_optional [OF assms(4)] read_temperature_optional [OF assms(5)] label
  ultimately show ?thesis
    using assms(1,3) u c join
    by (cases unit_name; cases current)
       (force simp: hwmon_sensor_def Let_def sensor_file_name_def read_to_string_has_line
         read_temperature_line simp del: and_then_eq_Ok)+
qed

definition sensor_host :: host where
  "sensor_host = sample_host\<lparr>file_data := (\<lambda>p.
     if p = ''/d/name'' then Inr (''coretemp'' @ [NL])
     else if p = ''/d/temp1_input'' then Inr (show_nat 45000 @ [NL])
     else if p = ''/d/temp1_crit'' then Inr (show_nat 100000 @ [NL])
     else Inl (Os 2))\<rparr>"

theorem hwmon_sensor_files_witness:
  "hwmon_sensor True sensor_host (''/d'', ''temp1_input'') =
     Ok \<lparr>ts_unit = ''coretemp'', ts_label = None, ts_current = celsius sensor_host 45000,
         ts_high = None, ts_critical = Some (celsius sensor_host 100000)\<rparr>"
proof -
  have "has_line sensor_host (join_path ''/d'' ''name'') (Some ''coretemp'')"
    "has_line sensor_host (join_path ''/d'' (''temp1_'' @ ''label'')) None"
    "has_line sensor_host (join_path ''/d'' (''temp1_'' @ ''input'')) (map_option show_nat (Some 45000))"
    "has_line sensor_host (join_path ''/d'' (''temp1_'' @ ''max'')) (map_option show_nat None)"
    "has_line sensor_host (join_path ''/d'' (''temp1_'' @ ''crit'')) (map_option show_nat (Some 100000))"
    by (simp_all add: has_line_def sensor_host_def join_path_def starts_with_def utf8_valid_show_nat
        utf8_valid_ascii byte_def del: show_nat.simps)
  from hwmon_sensor_files [OF this, of True] show ?thesis by simp
qed

end
