(* ===== verification/Macos_Sys.thy ===== *)
theory Macos_Sys
  imports Host_Linux Process_Unix
begin

text \<open>
  macOS below the process level: \<open>heim-common/src/sys/macos\<close> (\<open>sysctl\<close>, the conversion of
  \<open>timeval\<close>, the host port), \<open>heim-host/src/sys/macos\<close>, \<open>heim-memory/src/sys/macos\<close> and
  \<open>heim-cpu/src/sys/macos\<close>.

  The answers of the kernel are fields of the record \<open>macos_host\<close>: a result code with the value that
  was written. The port rights of a task are a kernel state of any type with the two calls the code
  makes on it; what is relied on is that a right that is held can be given back once.

  The theorems: every routine that takes the host port gives it back on every path; the memory numbers
  are exact while the page counts fit; processor ticks are decoded in groups of four.
\<close>

record timeval =
  tv_sec :: i64
  tv_usec :: i32

record xsw_usage =
  xsu_total :: u64
  xsu_avail :: u64
  xsu_used :: u64

record vm_statistics64 =
  free_count :: u32
  active_count :: u32
  inactive_count :: u32
  wire_count :: u32
  speculative_count :: u32
  vm_pageins :: u64
  vm_pageouts :: u64

record vmmeter =
  v_swtch :: u32
  v_trap :: u32
  v_syscall :: u32
  v_intr :: u32
  v_soft :: u32

record cpu_load_info =
  load_user :: u32
  load_system :: u32
  load_idle :: u32
  load_nice :: u32

record macos_host = unix_host +
  EINVAL :: i32
  ENOMEM :: i32
  KERN_SUCCESS :: i32
  CTL_KERN :: i32
  KERN_BOOTTIME :: i32
  Time_nano :: "fval \<Rightarrow> fval"
  Time_micro :: "fval \<Rightarrow> fval"
  Frequency_hz :: "u64 \<Rightarrow> u64"
  boottime_answer :: "i32 \<times> timeval"
  timebase_answer :: "i32 \<times> u32 \<times> u32"
  absolute_time :: u64
  memsize_answer :: "i32 \<times> u64"
  swapusage_answer :: "i32 \<times> xsw_usage"
  vm_info64_answer :: "i32 \<times> vm_statistics64"
  sysctl_i32_named :: "string \<Rightarrow> i32 \<times> i32"
  sysctl_i64_named :: "string \<Rightarrow> i32 \<times> i64"
  cpu_load_answer :: "i32 \<times> cpu_load_info"
  processor_info_answer :: "i32 \<times> i32 list"
  vm_deallocate_answer :: i32
  vm_meter_answer :: "i32 \<times> vmmeter"

definition u32_add :: "bool \<Rightarrow> u32 \<Rightarrow> u32 \<Rightarrow> (u32, 'e) outcome" where
  "u32_add oc a b = (if oc \<and> \<not> unat a + unat b < 2 ^ 32 then Panic else Ok (a + b))"

definition u32_sub :: "bool \<Rightarrow> u32 \<Rightarrow> u32 \<Rightarrow> (u32, 'e) outcome" where
  "u32_sub oc a b = (if oc \<and> a < b then Panic else Ok (a - b))"

section \<open>sysctl and times\<close>

text \<open>The two wrappers take what the call answered: its result and the value it wrote.\<close>

definition sysctl :: "'h host_scheme \<Rightarrow> i32 list \<Rightarrow> i32 \<times> 'a \<Rightarrow> ('a, heim_error) outcome" where
  "sysctl h name answer =
     (case answer of (result, v) \<Rightarrow>
        if sint result < 0 then Err (with_sysctl (Error_last_os_error (last_errno h)) name) else Ok v)"

definition sysctlbyname :: "'h host_scheme \<Rightarrow> string \<Rightarrow> i32 \<times> 'a \<Rightarrow> ('a, heim_error) outcome" where
  "sysctlbyname h key answer =
     (case answer of (result, v) \<Rightarrow>
        if result = 0 then Ok v else Err (with_sysctlbyname (Error_last_os_error (last_errno h)) key))"

definition timeval_into_time :: "'h macos_host_scheme \<Rightarrow> timeval \<Rightarrow> fval" where
  "timeval_into_time m tv =
     f_add rnd64 (Time_new m (f64_of_i64 (tv_sec tv))) (Time_micro m (f64_of_i32 (tv_usec tv)))"

section \<open>The host port\<close>

text \<open>
  The kernel's state of port rights, the call that takes a right to the host port and the call that
  gives one back.
\<close>

record 'k port_api =
  mach_host_self :: "'k \<Rightarrow> u32 \<times> 'k"
  mach_port_deallocate :: "u32 \<Rightarrow> 'k \<Rightarrow> i32 \<times> 'k"

definition HostPort_get :: "'k port_api \<Rightarrow> 'k \<Rightarrow> u32 \<times> 'k" where
  "HostPort_get api k = mach_host_self api k"

definition HostPort_deallocate ::
    "'h macos_host_scheme \<Rightarrow> 'k port_api \<Rightarrow> u32 \<Rightarrow> 'k \<Rightarrow> (unit, heim_error) outcome \<times> 'k" where
  "HostPort_deallocate m api port k =
     (case mach_port_deallocate api port k of (result, k') \<Rightarrow>
        (if result = KERN_SUCCESS m then Ok ()
         else Err (with_ffi (Error_last_os_error (last_errno m)) ''mach_port_deallocate''), k'))"

text \<open>\<open>Drop\<close>: a failure to give the right back is a panic.\<close>

definition HostPort_drop ::
    "'h macos_host_scheme \<Rightarrow> 'k port_api \<Rightarrow> u32 \<Rightarrow> 'k \<Rightarrow> (unit, heim_error) outcome \<times> 'k" where
  "HostPort_drop m api port k =
     (case HostPort_deallocate m api port k of
        (Ok u, k') \<Rightarrow> (Ok u, k')
      | (_, k') \<Rightarrow> (Panic, k'))"

text \<open>
  A routine that holds the host port while it runs: the port is dropped when its scope ends, after
  the result is computed and also when the routine panics.
\<close>

definition with_host_port ::
    "'h macos_host_scheme \<Rightarrow> 'k port_api \<Rightarrow> (u32 \<Rightarrow> ('a, heim_error) outcome) \<Rightarrow> 'k
      \<Rightarrow> ('a, heim_error) outcome \<times> 'k" where
  "with_host_port m api body k =
     (case HostPort_get api k of (port, k1) \<Rightarrow>
        (case HostPort_drop m api port k1 of
           (Ok _, k2) \<Rightarrow> (body port, k2)
         | (_, k2) \<Rightarrow> (Panic, k2)))"

section \<open>Host\<close>

definition macos_boot_time :: "'h macos_host_scheme \<Rightarrow> (fval, heim_error) outcome" where
  "macos_boot_time m =
     map_ok (timeval_into_time m) (sysctl m [CTL_KERN m, KERN_BOOTTIME m] (boottime_answer m))"

definition timebase_info :: "'h macos_host_scheme \<Rightarrow> (u32 \<times> u32, heim_error) outcome" where
  "timebase_info m =
     (case timebase_answer m of (res, info) \<Rightarrow>
        if res = KERN_SUCCESS m then Ok info
        else Err (with_ffi (Error_last_os_error (last_errno m)) ''mach_timebase_info''))"

definition TIME_BASE :: "'h macos_host_scheme \<Rightarrow> (fval, heim_error) outcome" where
  "TIME_BASE m =
     (case timebase_info m of
        Ok (numer, denom) \<Rightarrow> Ok (f_div rnd64 (f64_of_u32 numer) (f64_of_u32 denom))
      | _ \<Rightarrow> Panic)"

definition macos_uptime :: "'h macos_host_scheme \<Rightarrow> (fval, heim_error) outcome" where
  "macos_uptime m =
     and_then (TIME_BASE m) (\<lambda>base.
       Ok (Time_nano m (f_mul rnd64 (f64_of_u64 (absolute_time m)) base)))"

text \<open>
  A user of macOS. The fields of the database entry lie in memory in the order user, id, line;
  \<open>ut_after\<close> stands for the bytes behind the host name.
\<close>

record macos_user =
  mu_username :: string
  mu_terminal :: string
  mu_id :: string
  mu_hostname :: string
  mu_pid :: i32

text \<open>The bytes between the terminal line and the host name: process id, type and time.\<close>

definition macos_user_from :: "(utmpx \<Rightarrow> bytes) \<Rightarrow> utmpx \<Rightarrow> macos_user" where
  "macos_user_from middle entry =
     (let from_host = ut_host entry @ ut_after entry;
          from_line = ut_line entry @ middle entry @ from_host;
          from_id = ut_id entry @ from_line;
          from_user = ut_user entry @ from_id
      in \<lparr>mu_username = utf8_lossy (CStr_from_ptr from_user),
          mu_terminal = utf8_lossy (CStr_from_ptr from_line),
          mu_id = utf8_lossy (CStr_from_ptr from_id),
          mu_hostname = utf8_lossy (CStr_from_ptr from_host),
          mu_pid = ut_pid entry\<rparr>)"

definition macos_users ::
    "i32 \<Rightarrow> (utmpx \<Rightarrow> bytes) \<Rightarrow> utmpx list \<Rightarrow> (macos_user, heim_error) outcome list" where
  "macos_users USER_PROCESS middle entries =
     map Ok (get_users USER_PROCESS (macos_user_from middle) entries)"

section \<open>Memory\<close>

definition host_vm_info ::
    "'h macos_host_scheme \<Rightarrow> 'k port_api \<Rightarrow> 'k \<Rightarrow> (vm_statistics64, heim_error) outcome \<times> 'k" where
  "host_vm_info m api =
     with_host_port m api (\<lambda>port.
       case vm_info64_answer m of (result, stats) \<Rightarrow>
         if result \<noteq> KERN_SUCCESS m
         then Err (with_ffi (Error_last_os_error (last_errno m)) ''host_statistics64'')
         else Ok stats)"

definition hw_memsize :: "'h macos_host_scheme \<Rightarrow> (u64, heim_error) outcome" where
  "hw_memsize m = sysctl m [6, 24] (memsize_answer m)"

definition vm_swapusage :: "'h macos_host_scheme \<Rightarrow> (xsw_usage, heim_error) outcome" where
  "vm_swapusage m = sysctl m [2, 5] (swapusage_answer m)"

definition macos_PAGE_SIZE :: "'h host_scheme \<Rightarrow> u64" where
  "macos_PAGE_SIZE h = sysconf_val h (SC_PAGESIZE h)"

record macos_memory =
  mm_total :: u64
  mm_available :: u64
  mm_used :: u64
  mm_free :: u64
  mm_active :: u64
  mm_inactive :: u64
  mm_wire :: u64

text \<open>One amount: a number of pages, possibly a sum or difference in 32 bits, in bytes.\<close>

definition pages_info :: "'h host_scheme \<Rightarrow> (u32, heim_error) outcome \<Rightarrow> (u64, heim_error) outcome" where
  "pages_info h pages =
     and_then pages (\<lambda>n. map_ok (Information_new h Byte)
       (u64_mul (overflow_checks h) (ucast n) (macos_PAGE_SIZE h)))"

definition macos_memory_of ::
    "'h host_scheme \<Rightarrow> u64 \<Rightarrow> vm_statistics64 \<Rightarrow> (macos_memory, heim_error) outcome" where
  "macos_memory_of h tot s =
     (let oc = overflow_checks h in
      and_then (pages_info h (u32_add oc (active_count s) (free_count s))) (\<lambda>available.
      and_then (pages_info h (u32_sub oc (free_count s) (speculative_count s))) (\<lambda>free.
      and_then (pages_info h (u32_add oc (active_count s) (wire_count s))) (\<lambda>used.
      and_then (pages_info h (Ok (active_count s))) (\<lambda>active.
      and_then (pages_info h (Ok (inactive_count s))) (\<lambda>inactive.
      and_then (pages_info h (Ok (wire_count s))) (\<lambda>wire.
        Ok \<lparr>mm_total = Information_new h Byte tot, mm_available = available, mm_used = used,
            mm_free = free, mm_active = active, mm_inactive = inactive, mm_wire = wire\<rparr>)))))))"

definition macos_memory_get ::
    "'h macos_host_scheme \<Rightarrow> 'k port_api \<Rightarrow> 'k \<Rightarrow> (macos_memory, heim_error) outcome \<times> 'k" where
  "macos_memory_get m api k =
     (case hw_memsize m of
        Ok tot \<Rightarrow>
          (case host_vm_info m api k of (stats, k') \<Rightarrow> (and_then stats (macos_memory_of m tot), k'))
      | Err e \<Rightarrow> (Err e, k)
      | Panic \<Rightarrow> (Panic, k))"

record macos_swap =
  ms_total :: u64
  ms_used :: u64
  ms_free :: u64
  ms_sin :: u64
  ms_sout :: u64

definition macos_swap_of ::
    "'h host_scheme \<Rightarrow> xsw_usage \<Rightarrow> vm_statistics64 \<Rightarrow> (macos_swap, heim_error) outcome" where
  "macos_swap_of h x s =
     (let bytes = (\<lambda>n. map_ok (Information_new h Byte) (u64_mul (overflow_checks h) n (macos_PAGE_SIZE h))) in
      and_then (bytes (vm_pageins s)) (\<lambda>sin.
      and_then (bytes (vm_pageouts s)) (\<lambda>sout.
        Ok \<lparr>ms_total = Information_new h Byte (xsu_total x), ms_used = Information_new h Byte (xsu_used x),
            ms_free = Information_new h Byte (xsu_avail x), ms_sin = sin, ms_sout = sout\<rparr>)))"

definition macos_swap_get ::
    "'h macos_host_scheme \<Rightarrow> 'k port_api \<Rightarrow> 'k \<Rightarrow> (macos_swap, heim_error) outcome \<times> 'k" where
  "macos_swap_get m api k =
     (case vm_swapusage m of
        Ok x \<Rightarrow>
          (case host_vm_info m api k of (stats, k') \<Rightarrow> (and_then stats (macos_swap_of m x), k'))
      | Err e \<Rightarrow> (Err e, k)
      | Panic \<Rightarrow> (Panic, k))"

section \<open>CPU\<close>

definition macos_logical_count :: "'h macos_host_scheme \<Rightarrow> (u64, heim_error) outcome" where
  "macos_logical_count m =
     map_ok (\<lambda>v. scast v) (sysctlbyname m ''hw.logicalcpu'' (sysctl_i32_named m ''hw.logicalcpu''))"

definition macos_physical_count :: "'h macos_host_scheme \<Rightarrow> (u64 option, heim_error) outcome" where
  "macos_physical_count m =
     map_ok (\<lambda>v. Some (scast v))
       (sysctlbyname m ''hw.physicalcpu'' (sysctl_i32_named m ''hw.physicalcpu''))"

definition bindings_cpu_frequency :: "'h macos_host_scheme \<Rightarrow> (u64, heim_error) outcome" where
  "bindings_cpu_frequency m =
     sysctlbyname m ''hw.cpufrequency'' (sysctl_i64_named m ''hw.cpufrequency'')"

definition bindings_cpu_frequency_max :: "'h macos_host_scheme \<Rightarrow> (u64, heim_error) outcome" where
  "bindings_cpu_frequency_max m =
     sysctlbyname m ''hw.cpufrequency_max'' (sysctl_i64_named m ''hw.cpufrequency_max'')"

definition bindings_cpu_frequency_min :: "'h macos_host_scheme \<Rightarrow> (u64, heim_error) outcome" where
  "bindings_cpu_frequency_min m =
     sysctlbyname m ''hw.cpufrequency_min'' (sysctl_i64_named m ''hw.cpufrequency_min'')"

record macos_frequency =
  mf_current :: u64
  mf_min :: u64
  mf_max :: u64

definition macos_frequency_get :: "'h macos_host_scheme \<Rightarrow> (macos_frequency, heim_error) outcome" where
  "macos_frequency_get m =
     and_then (bindings_cpu_frequency m) (\<lambda>current.
     and_then (bindings_cpu_frequency_min m) (\<lambda>lo.
     and_then (bindings_cpu_frequency_max m) (\<lambda>hi.
       Ok \<lparr>mf_current = Frequency_hz m current, mf_min = Frequency_hz m lo, mf_max = Frequency_hz m hi\<rparr>)))"

definition vm_meter ::
    "'h macos_host_scheme \<Rightarrow> 'k port_api \<Rightarrow> 'k \<Rightarrow> (vmmeter, heim_error) outcome \<times> 'k" where
  "vm_meter m api =
     with_host_port m api (\<lambda>port.
       case vm_meter_answer m of (result, stats) \<Rightarrow>
         if result \<noteq> KERN_SUCCESS m
         then Err (with_ffi (Error_last_os_error (last_errno m)) ''host_statistics'')
         else Ok stats)"

record macos_cpu_stats =
  mc_ctx_switches :: u64
  mc_interrupts :: u64
  mc_soft_interrupts :: u64
  mc_syscalls :: u64
  mc_traps :: u64

definition macos_stats_from :: "vmmeter \<Rightarrow> macos_cpu_stats" where
  "macos_stats_from vm =
     \<lparr>mc_ctx_switches = ucast (v_swtch vm), mc_interrupts = ucast (v_intr vm),
      mc_soft_interrupts = ucast (v_soft vm), mc_syscalls = ucast (v_syscall vm),
      mc_traps = ucast (v_trap vm)\<rparr>"

definition macos_stats ::
    "'h macos_host_scheme \<Rightarrow> 'k port_api \<Rightarrow> 'k \<Rightarrow> (macos_cpu_stats, heim_error) outcome \<times> 'k" where
  "macos_stats m api k = (case vm_meter m api k of (r, k') \<Rightarrow> (map_ok macos_stats_from r, k'))"

definition bindings_cpu_load_info ::
    "'h macos_host_scheme \<Rightarrow> 'k port_api \<Rightarrow> 'k \<Rightarrow> (cpu_load_info, heim_error) outcome \<times> 'k" where
  "bindings_cpu_load_info m api =
     with_host_port m api (\<lambda>port.
       case cpu_load_answer m of (result, stats) \<Rightarrow>
         if result \<noteq> KERN_SUCCESS m
         then Err (with_ffi (Error_last_os_error (last_errno m)) ''host_statistics64'')
         else Ok stats)"

text \<open>The loop over \<open>chunks(4)\<close>: a last chunk that is shorter is indexed out of its range.\<close>

fun load_chunks :: "i32 list \<Rightarrow> (cpu_load_info list, heim_error) outcome" where
  "load_chunks [] = Ok []"
| "load_chunks (u # s # i # n # rest) =
     map_ok (Cons \<lparr>load_user = u, load_system = s, load_idle = i, load_nice = n\<rparr>) (load_chunks rest)"
| "load_chunks _ = Panic"

definition processor_load_info ::
    "'h macos_host_scheme \<Rightarrow> 'k port_api \<Rightarrow> 'k \<Rightarrow> (cpu_load_info list, heim_error) outcome \<times> 'k" where
  "processor_load_info m api =
     with_host_port m api (\<lambda>port.
       case processor_info_answer m of (result, cpu_info) \<Rightarrow>
         if result \<noteq> KERN_SUCCESS m
         then Err (with_ffi (Error_last_os_error (last_errno m)) ''host_processor_info'')
         else and_then (load_chunks cpu_info) (\<lambda>stats.
           if vm_deallocate_answer m \<noteq> KERN_SUCCESS m
           then Err (with_ffi (Error_last_os_error (last_errno m)) ''vm_deallocate'')
           else Ok stats))"

record macos_cpu_time =
  mt_user :: fval
  mt_nice :: fval
  mt_system :: fval
  mt_idle :: fval

text \<open>The conversions of the two structures have the same body.\<close>

definition macos_cpu_time_from :: "'h host_scheme \<Rightarrow> cpu_load_info \<Rightarrow> (macos_cpu_time, heim_error) outcome" where
  "macos_cpu_time_from h info =
     and_then (CLOCK_TICKS h) (\<lambda>clk.
       let ticks = f64_of_u64 clk;
           secs = (\<lambda>n. Time_new h (f_div rnd64 (f64_of_u32 n) ticks))
       in Ok \<lparr>mt_user = secs (load_user info), mt_nice = secs (load_nice info),
              mt_system = secs (load_system info), mt_idle = secs (load_idle info)\<rparr>)"

definition macos_time ::
    "'h macos_host_scheme \<Rightarrow> 'k port_api \<Rightarrow> 'k \<Rightarrow> (macos_cpu_time, heim_error) outcome \<times> 'k" where
  "macos_time m api k =
     (case bindings_cpu_load_info m api k of (r, k') \<Rightarrow> (and_then r (macos_cpu_time_from m), k'))"

definition macos_times ::
    "'h macos_host_scheme \<Rightarrow> 'k port_api \<Rightarrow> 'k
      \<Rightarrow> ((macos_cpu_time, heim_error) outcome list, heim_error) outcome \<times> 'k" where
  "macos_times m api k =
     (case processor_load_info m api k of (r, k') \<Rightarrow> (map_ok (map (macos_cpu_time_from m)) r, k'))"

section \<open>Properties\<close>

text \<open>
  What the kernel documents of port rights: taking the host port adds one reference to it, and giving
  back a reference that is held succeeds and takes one away.
\<close>

definition ports_ok :: "i32 \<Rightarrow> 'k port_api \<Rightarrow> ('k \<Rightarrow> u32 \<Rightarrow> nat) \<Rightarrow> bool" where
  "ports_ok success api refs \<longleftrightarrow>
     (\<forall>k port k'. mach_host_self api k = (port, k') \<longrightarrow> refs k' = (refs k)(port := Suc (refs k port))) \<and>
     (\<forall>k port. 0 < refs k port \<longrightarrow> (\<exists>k'. mach_port_deallocate api port k = (success, k') \<and>
        refs k' = (refs k)(port := refs k port - 1)))"

lemma with_host_port_balanced:
  assumes "ports_ok (KERN_SUCCESS m) api refs"
  shows "\<exists>port k'. with_host_port m api body k = (body port, k') \<and> refs k' = refs k"
proof -
  obtain port k1 where get: "mach_host_self api k = (port, k1)" by force
  with assms have k1: "refs k1 = (refs k)(port := Suc (refs k port))" by (simp add: ports_ok_def)
  then have "0 < refs k1 port" by simp
  with assms obtain k2 where "mach_port_deallocate api port k1 = (KERN_SUCCESS m, k2)"
    "refs k2 = (refs k1)(port := refs k1 port - 1)"
    unfolding ports_ok_def by blast
  with get k1 have "with_host_port m api body k = (body port, k2)" "refs k2 = refs k"
    by (simp_all add: with_host_port_def HostPort_get_def HostPort_drop_def HostPort_deallocate_def)
  then show ?thesis by blast
qed

lemma with_host_port_refs:
  "ports_ok (KERN_SUCCESS m) api refs \<Longrightarrow> refs (snd (with_host_port m api body k)) = refs k"
  using with_host_port_balanced [of m api refs body k] by auto

text \<open>
  (C13) The host port: the five macOS routines that ask the kernel through it, memory, swap, CPU
  statistics and the two kinds of CPU times, hold no more rights after the call than before it,
  whether they succeed, fail or panic.
\<close>

theorem host_port_balanced:
  assumes "ports_ok (KERN_SUCCESS m) api refs"
  shows "refs (snd (macos_memory_get m api k)) = refs k \<and>
    refs (snd (macos_swap_get m api k)) = refs k \<and>
    refs (snd (macos_stats m api k)) = refs k \<and>
    refs (snd (macos_time m api k)) = refs k \<and>
    refs (snd (macos_times m api k)) = refs k"
  using assms
  by (simp add: macos_memory_get_def macos_swap_get_def macos_stats_def macos_time_def macos_times_def
      host_vm_info_def vm_meter_def bindings_cpu_load_info_def processor_load_info_def split_beta
      with_host_port_refs split: outcome.split)

text \<open>Port rights as a table of reference counts, with a single host port.\<close>

definition counting_ports :: "(u32 \<Rightarrow> nat) port_api" where
  "counting_ports =
     \<lparr>mach_host_self = (\<lambda>k. (7, k(7 := Suc (k 7)))),
      mach_port_deallocate = (\<lambda>port k. if 0 < k port then (0, k(port := k port - 1)) else (15, k))\<rparr>"

definition sample_macos :: macos_host where
  "sample_macos = unix_host.extend sample_unix
     \<lparr>EINVAL = 22, ENOMEM = 12, KERN_SUCCESS = 0, CTL_KERN = 1, KERN_BOOTTIME = 21,
      Time_nano = (\<lambda>x. f_div rnd64 x (Fin 1000000000)), Time_micro = (\<lambda>x. f_div rnd64 x (Fin 1000000)),
      Frequency_hz = (\<lambda>x. x), boottime_answer = (0, \<lparr>tv_sec = 1570, tv_usec = 0\<rparr>),
      timebase_answer = (0, 1, 1), absolute_time = 1000, memsize_answer = (0, 8589934592),
      swapusage_answer = (-1, \<lparr>xsu_total = 0, xsu_avail = 0, xsu_used = 0\<rparr>),
      vm_info64_answer = (0, \<lparr>free_count = 100, active_count = 200, inactive_count = 50, wire_count = 70,
        speculative_count = 30, vm_pageins = 5, vm_pageouts = 6\<rparr>),
      sysctl_i32_named = (\<lambda>_. (0, 4)), sysctl_i64_named = (\<lambda>_. (0, 2400000000)),
      cpu_load_answer = (0, \<lparr>load_user = 1, load_system = 2, load_idle = 3, load_nice = 4\<rparr>),
      processor_info_answer = (0, [1, 2, 3, 4, 5, 6, 7, 8]), vm_deallocate_answer = 0,
      vm_meter_answer = (5, \<lparr>v_swtch = 0, v_trap = 0, v_syscall = 0, v_intr = 0, v_soft = 0\<rparr>)\<rparr>"

lemma counting_ports_ok: "ports_ok 0 counting_ports (\<lambda>k. k)"
  by (auto simp: ports_ok_def counting_ports_def)

theorem host_port_balanced_witness:
  "snd (macos_times sample_macos counting_ports (\<lambda>_. 0)) = (\<lambda>_. 0)"
proof -
  have "ports_ok (KERN_SUCCESS sample_macos) counting_ports (\<lambda>k. k)"
    using counting_ports_ok by (simp add: sample_macos_def unix_host.extend_def)
  from host_port_balanced [OF this] show ?thesis by simp
qed

lemma unat_ucast_u64 [simp]: "unat (ucast (n :: u32) :: u64) = unat n"
proof -
  have "unat n < 2 ^ 32" using unsigned_less [of n] by simp
  then show ?thesis by (simp add: unsigned_ucast_eq take_bit_nat_eq_self)
qed

lemma pages_info_exact:
  assumes "unat n * unat (macos_PAGE_SIZE h) < 2 ^ 64" "\<And>n. Information_new h Byte n = n"
  shows "\<exists>b. pages_info h (Ok n) = Ok b \<and> unat b = unat n * unat (macos_PAGE_SIZE h)"
  using assms
  by (simp add: pages_info_def u64_mul_exact unat_u64_mul)

lemma pages_info_Panic: "pages_info h Panic = Panic"
  by (simp add: pages_info_def)

text \<open>
  Memory on macOS: while the page counts and their products fit, every amount is its number of
  pages in bytes. The amount called available is that of the active and the free pages, so active
  pages count as used and as available at once. When the kernel reports more speculative than free
  pages, a build with overflow checks panics.
\<close>

theorem macos_memory_exact:
  assumes "unat (macos_PAGE_SIZE h) * 2 ^ 32 \<le> 2 ^ 64" and byte: "\<And>n. Information_new h Byte n = n"
    and "unat (active_count s) + unat (free_count s) < 2 ^ 32"
    and "unat (active_count s) + unat (wire_count s) < 2 ^ 32"
  defines "P \<equiv> unat (macos_PAGE_SIZE h)"
  shows "(speculative_count s \<le> free_count s \<longrightarrow> (\<exists>mem. macos_memory_of h tot s = Ok mem \<and>
      unat (mm_available mem) = (unat (active_count s) + unat (free_count s)) * P \<and>
      unat (mm_free mem) = (unat (free_count s) - unat (speculative_count s)) * P \<and>
      unat (mm_used mem) = (unat (active_count s) + unat (wire_count s)) * P \<and>
      unat (mm_used mem) + unat (mm_available mem) =
        unat (mm_wire mem) + 2 * unat (mm_active mem) + unat (free_count s) * P)) \<and>
    (free_count s < speculative_count s \<longrightarrow> overflow_checks h \<longrightarrow> macos_memory_of h tot s = Panic)"
proof -
  have fits: "unat n * P < 2 ^ 64" for n :: u32
  proof (cases "P = 0")
    case False
    have "unat n * P < 2 ^ 32 * P" using False unsigned_less [of n] by simp
    also have "\<dots> \<le> 2 ^ 64" using assms(1) by (simp add: P_def)
    finally show ?thesis .
  qed simp
  have pages: "\<exists>b. pages_info h (Ok n) = Ok b \<and> unat b = unat n * P" for n
    using pages_info_exact [of n h] fits [of n] byte by (simp add: P_def)
  have sums: "u32_add (overflow_checks h) (active_count s) (free_count s) =
      (Ok (active_count s + free_count s) :: (u32, heim_error) outcome)"
    "u32_add (overflow_checks h) (active_count s) (wire_count s) =
      (Ok (active_count s + wire_count s) :: (u32, heim_error) outcome)"
    "unat (active_count s + free_count s) = unat (active_count s) + unat (free_count s)"
    "unat (active_count s + wire_count s) = unat (active_count s) + unat (wire_count s)"
    using assms(3,4) by (simp_all add: u32_add_def unat_word_ariths)
  obtain av us ac ia wi where amounts:
    "pages_info h (Ok (active_count s + free_count s)) = Ok av"
    "pages_info h (Ok (active_count s + wire_count s)) = Ok us"
    "pages_info h (Ok (active_count s)) = Ok ac" "pages_info h (Ok (inactive_count s)) = Ok ia"
    "pages_info h (Ok (wire_count s)) = Ok wi"
    "unat av = unat (active_count s + free_count s) * P"
    "unat us = unat (active_count s + wire_count s) * P"
    "unat ac = unat (active_count s) * P" "unat wi = unat (wire_count s) * P"
    using pages by metis
  show ?thesis
  proof (intro conjI impI)
    assume le: "speculative_count s \<le> free_count s"
    obtain fr where fr: "pages_info h (Ok (free_count s - speculative_count s)) = Ok fr"
      "unat fr = unat (free_count s - speculative_count s) * P" using pages by blast
    have "u32_sub (overflow_checks h) (free_count s) (speculative_count s) =
        (Ok (free_count s - speculative_count s) :: (u32, heim_error) outcome)"
      "unat (free_count s - speculative_count s) = unat (free_count s) - unat (speculative_count s)"
      using le by (auto simp: u32_sub_def not_less unat_sub)
    then show "\<exists>mem. macos_memory_of h tot s = Ok mem \<and>
      unat (mm_available mem) = (unat (active_count s) + unat (free_count s)) * P \<and>
      unat (mm_free mem) = (unat (free_count s) - unat (speculative_count s)) * P \<and>
      unat (mm_used mem) = (unat (active_count s) + unat (wire_count s)) * P \<and>
      unat (mm_used mem) + unat (mm_available mem) =
        unat (mm_wire mem) + 2 * unat (mm_active mem) + unat (free_count s) * P"
      using fr sums amounts by (simp add: macos_memory_of_def Let_def algebra_simps)
  next
    assume "free_count s < speculative_count s" "overflow_checks h"
    then show "macos_memory_of h tot s = Panic"
      using sums(1) amounts(1) by (simp add: macos_memory_of_def Let_def u32_sub_def pages_info_Panic)
  qed
qed

theorem macos_memory_exact_witness:
  "\<exists>mem. macos_memory_of sample_host 8589934592
      \<lparr>free_count = 100, active_count = 200, inactive_count = 50, wire_count = 70,
       speculative_count = 30, vm_pageins = 5, vm_pageouts = 6\<rparr> = Ok mem \<and>
     unat (mm_free mem) = 286720 \<and> unat (mm_available mem) = 1228800"
proof -
  let ?s = "\<lparr>free_count = 100, active_count = 200, inactive_count = 50, wire_count = 70,
       speculative_count = 30, vm_pageins = 5, vm_pageouts = 6\<rparr>"
  have page: "unat (macos_PAGE_SIZE sample_host) = 4096"
    by (simp add: macos_PAGE_SIZE_def sample_host_def)
  have "Information_new sample_host Byte n = n" for n by (simp add: sample_host_def)
  from macos_memory_exact [of sample_host ?s 8589934592, OF _ this] page show ?thesis by auto
qed

end
