(* ===== verification/Macos_Proc_Args.thy ===== *)
theory Macos_Proc_Args
  imports Macos_Sys Process_Env
begin

text \<open>
  The argument block of a macOS process: \<open>heim-process/src/sys/macos/wrappers/proc_args.rs\<close> and
  \<open>bindings/proc_args.rs\<close>. The kernel returns one byte block: the number of arguments, the path of the
  executable, padding, the arguments and the environment, each text ended by a NUL byte.

  The theorems: a block of that shape is taken apart exactly, into executable, arguments, command
  line and environment, provided the first argument is not empty; when it is empty, it is mistaken
  for padding and the first environment variable is reported as the last argument.
\<close>

section \<open>Definitions\<close>

text \<open>\<open>u32::from_ne_bytes\<close> of the first four bytes, in the byte order of the machine.\<close>

definition ne_u32 :: "bool \<Rightarrow> bytes \<Rightarrow> u32" where
  "ne_u32 big_endian b = of_nat (mem_value big_endian (map (\<lambda>c. of_nat (byte c)) b))"

definition ProcArgs_argc :: "bool \<Rightarrow> bytes \<Rightarrow> (u32, heim_error) outcome" where
  "ProcArgs_argc big_endian b = (if length b < 4 then Panic else Ok (ne_u32 big_endian (take 4 b)))"

definition unwrap_or_zero :: "nat option \<Rightarrow> nat" where
  "unwrap_or_zero r = (case r of None \<Rightarrow> 0 | Some n \<Rightarrow> n)"

definition exe_range :: "bytes \<Rightarrow> (nat \<times> nat, heim_error) outcome" where
  "exe_range b =
     (if length b < 4 then Panic else Ok (4, unwrap_or_zero (memchr NUL (drop 4 b)) + 4))"

text \<open>The position of the \<open>n\<close>-th occurrence: \<open>memchr_iter\<close> followed by \<open>nth\<close>.\<close>

fun memchr_nth :: "char \<Rightarrow> nat \<Rightarrow> bytes \<Rightarrow> nat option" where
  "memchr_nth c 0 b = memchr c b"
| "memchr_nth c (Suc n) b =
     (case memchr c b of
        None \<Rightarrow> None
      | Some k \<Rightarrow> map_option (\<lambda>j. Suc k + j) (memchr_nth c n (drop (Suc k) b)))"

text \<open>The position of the first byte with a property: \<open>Iterator::position\<close>.\<close>

definition position :: "(char \<Rightarrow> bool) \<Rightarrow> bytes \<Rightarrow> nat option" where
  "position P b =
     (let k = length (takeWhile (\<lambda>c. \<not> P c) b) in if k < length b then Some k else None)"

text \<open>
  \<open>arguments_range\<close>. The number of arguments less one underflows for a block without arguments: a
  panic with overflow checks, and an index no iterator reaches without.
\<close>

definition arguments_range :: "bool \<Rightarrow> bool \<Rightarrow> bytes \<Rightarrow> (nat \<times> nat, heim_error) outcome" where
  "arguments_range oc big_endian b =
     and_then (ProcArgs_argc big_endian b) (\<lambda>argc.
     and_then (exe_range b) (\<lambda>(_, exe_end).
       let start = unwrap_or_zero (position (\<lambda>c. c \<noteq> NUL) (drop exe_end b)) + exe_end
       in if argc = 0 \<and> oc then Panic
          else let offset = (if argc = 0 then None else memchr_nth NUL (unat argc - 1) (drop start b))
               in Ok (start, unwrap_or_zero offset + start)))"

definition ProcArgs_exe :: "bytes \<Rightarrow> (bytes, heim_error) outcome" where
  "ProcArgs_exe b = map_ok (\<lambda>(s, e). drop s (take e b)) (exe_range b)"

definition ProcArgs_environment ::
    "bool \<Rightarrow> bool \<Rightarrow> bytes \<Rightarrow> (environment, heim_error) outcome option" where
  "ProcArgs_environment oc big_endian b =
     (case arguments_range oc big_endian b of
        Ok (_, e) \<Rightarrow> if length b < Suc e then Some Panic else Environment_from_bytes (drop (Suc e) b)
      | Err err \<Rightarrow> Some (Err err)
      | Panic \<Rightarrow> Some Panic)"

definition ProcArgs_to_command :: "bool \<Rightarrow> bool \<Rightarrow> bytes \<Rightarrow> (bytes, heim_error) outcome" where
  "ProcArgs_to_command oc big_endian b =
     map_ok (\<lambda>(s, e). map (\<lambda>c. if c = NUL then SP else c) (drop s (take e b)))
       (arguments_range oc big_endian b)"

record proc_args_arguments =
  pa_left :: u32
  pa_data :: bytes

definition ProcArgs_arguments :: "bool \<Rightarrow> bool \<Rightarrow> bytes \<Rightarrow> (proc_args_arguments, heim_error) outcome" where
  "ProcArgs_arguments oc big_endian b =
     and_then (arguments_range oc big_endian b) (\<lambda>(s, e).
     and_then (ProcArgs_argc big_endian b) (\<lambda>argc.
       Ok \<lparr>pa_left = argc, pa_data = drop s (take e b)\<rparr>))"

definition ProcArgsArguments_next :: "proc_args_arguments \<Rightarrow> bytes option \<times> proc_args_arguments" where
  "ProcArgsArguments_next it =
     (if pa_left it = 0 then (None, it)
      else
        (case memchr NUL (pa_data it) of
           Some e \<Rightarrow>
             (Some (take e (pa_data it)), \<lparr>pa_left = pa_left it - 1, pa_data = drop (Suc e) (pa_data it)\<rparr>)
         | None \<Rightarrow> (Some (pa_data it), it\<lparr>pa_left := pa_left it - 1\<rparr>)))"

text \<open>Collecting the iterator: it yields as many items as \<open>pa_left\<close> says, which is the fuel.\<close>

fun arguments_fuel :: "nat \<Rightarrow> proc_args_arguments \<Rightarrow> bytes list option" where
  "arguments_fuel 0 it = None"
| "arguments_fuel (Suc n) it =
     (case ProcArgsArguments_next it of
        (None, _) \<Rightarrow> Some []
      | (Some a, it') \<Rightarrow> map_option (Cons a) (arguments_fuel n it'))"

definition arguments_collect :: "proc_args_arguments \<Rightarrow> bytes list option" where
  "arguments_collect it = arguments_fuel (Suc (unat (pa_left it))) it"

text \<open>
  \<open>bindings::proc_args\<close>. \<open>argmax\<close> is the answer for the size of the largest block; \<open>procargs\<close> what
  the second call answers for a buffer of that size: its result, and the bytes it stored. A negative
  size is more than a vector can reserve.
\<close>

definition proc_args ::
    "'h host_scheme \<Rightarrow> i32 list \<Rightarrow> i32 list \<Rightarrow> i32 \<times> i32 \<Rightarrow> (nat \<Rightarrow> i32 \<times> bytes) \<Rightarrow> pid
      \<Rightarrow> (bytes, heim_error) outcome" where
  "proc_args h argmax_name procargs_name argmax procargs pid =
     (if pid = 0 then Err (Error_from_io (Simple PermissionDenied))
      else and_then (sysctl h argmax_name argmax) (\<lambda>args_max.
        if sint args_max < 0 then Panic
        else case procargs (unat args_max) of (result, b) \<Rightarrow>
          if length b < 4 then Err (Error_from_io (Simple InvalidData))
          else if result = 0 then Ok b
          else Err (with_sysctl (Error_last_os_error (last_errno h)) (procargs_name @ [pid]))))"

section \<open>The layout of a block\<close>

definition nul_terminated :: "bytes list \<Rightarrow> bytes" where
  "nul_terminated ts = concat (map (\<lambda>t. t @ [NUL]) ts)"

definition render_procargs :: "bool \<Rightarrow> bytes \<Rightarrow> nat \<Rightarrow> bytes list \<Rightarrow> bytes \<Rightarrow> bytes" where
  "render_procargs big_endian exe pad args rest =
     u32_mem big_endian (length args) @ exe @ replicate (Suc pad) NUL @ nul_terminated args @ rest"

lemma memchr_nth_terminated:
  assumes "n < length args" "\<forall>a\<in>set args. NUL \<notin> set a"
  shows "memchr_nth NUL n (nul_terminated args @ rest) =
     Some (length (nul_terminated (take (Suc n) args)) - 1)"
  using assms
proof (induction n arbitrary: args)
  case 0
  then show ?case by (cases args) (auto simp: nul_terminated_def)
next
  case (Suc n)
  then obtain a as where args: "args = a # as" by (cases args) auto
  have "memchr_nth NUL n (nul_terminated as @ rest) =
      Some (length (nul_terminated (take (Suc n) as)) - 1)"
    using Suc args by simp
  moreover have "length (nul_terminated (take (Suc n) as)) \<noteq> 0"
    using Suc.prems(1) args by (cases as) (auto simp: nul_terminated_def)
  moreover have "drop (Suc (length a)) (a @ NUL # nul_terminated as @ rest) = nul_terminated as @ rest"
    by simp
  ultimately show ?case using Suc.prems args by (simp add: nul_terminated_def)
qed

lemma nul_terminated_join: "args \<noteq> [] \<Longrightarrow> nul_terminated args = join_with [NUL] args @ [NUL]"
  by (induction "[NUL]" args rule: join_with.induct) (auto simp: nul_terminated_def)

lemma le_value_rev_be_octets: "n < 256 ^ k \<Longrightarrow> le_value (rev (be_octets k n)) = n"
proof (induction k arbitrary: n)
  case (Suc k)
  have "unat (of_nat (n mod 256) :: u8) = n mod 256" by (simp add: unat_of_nat)
  moreover have "n div 256 < 256 ^ k" using Suc.prems by (simp add: less_mult_imp_div_less)
  ultimately show ?case using Suc.IH by simp
qed simp

lemma mem_value_mem_octets: "n < 256 ^ k \<Longrightarrow> mem_value big_endian (mem_octets big_endian k n) = n"
  by (simp add: mem_value_def mem_octets_def be_value_def le_value_rev_be_octets)

lemma length_u32_mem [simp]: "length (u32_mem big_endian n) = 4"
  by (simp add: u32_mem_def mem_octets_def)

lemma ne_u32_mem: "n < 2 ^ 32 \<Longrightarrow> ne_u32 big_endian (u32_mem big_endian n) = of_nat n"
proof -
  assume "n < 2 ^ 32"
  moreover have "map (\<lambda>c. of_nat (byte c)) (u32_mem big_endian n) = mem_octets big_endian 4 n"
  proof -
    have "of_nat (byte (char_of (unat b))) = b" for b :: u8
    proof -
      have "unat b < 256" using unsigned_less [of b] by simp
      then show ?thesis by (simp add: byte_def)
    qed
    then show ?thesis by (simp add: u32_mem_def o_def map_idI)
  qed
  ultimately show ?thesis by (simp add: ne_u32_def mem_value_mem_octets)
qed

section \<open>Reading a block\<close>

text \<open>What the kernel promises of the executable and the arguments.\<close>

definition block_ok :: "bytes \<Rightarrow> bytes list \<Rightarrow> bool" where
  "block_ok exe args \<longleftrightarrow> NUL \<notin> set exe \<and> list_all (\<lambda>a. NUL \<notin> set a) args \<and>
     args \<noteq> [] \<and> length args < 2 ^ 32"

lemma argc_render: "block_ok exe args \<Longrightarrow>
    ProcArgs_argc be (render_procargs be exe pad args rest) = Ok (of_nat (length args))"
  by (simp add: ProcArgs_argc_def render_procargs_def block_ok_def ne_u32_mem)

lemma drop_render:
  "drop 4 (render_procargs be exe pad args rest) = exe @ replicate (Suc pad) NUL @ nul_terminated args @ rest"
  by (simp add: render_procargs_def)

lemma exe_range_render: "block_ok exe args \<Longrightarrow>
    exe_range (render_procargs be exe pad args rest) = Ok (4, length exe + 4)"
proof -
  assume "block_ok exe args"
  then have "memchr NUL (exe @ replicate (Suc pad) NUL @ nul_terminated args @ rest) = Some (length exe)"
    by (simp add: block_ok_def)
  then show ?thesis
    unfolding exe_range_def drop_render by (simp add: unwrap_or_zero_def render_procargs_def)
qed

lemma position_nuls:
  "r \<noteq> [] \<Longrightarrow> hd r \<noteq> NUL \<Longrightarrow> position (\<lambda>c. c \<noteq> NUL) (replicate n NUL @ r) = Some n"
  by (cases r) (simp_all add: position_def takeWhile_replicate Let_def takeWhile_append)

text \<open>
  The range from the first byte behind the padding, for the texts that really stand there: the
  arguments, or what follows leading empty arguments.
\<close>

lemma arguments_range_texts:
  fixes be :: bool and exe rest :: bytes and pad :: nat and args :: "bytes list"
  assumes "block_ok exe args" and texts: "nul_terminated args @ rest = replicate skipped NUL @ nul_terminated ts @ more_bytes"
    and "length args \<le> length ts" "\<forall>t\<in>set ts. NUL \<notin> set t" "hd ts \<noteq> []"
  defines "b \<equiv> render_procargs be exe pad args rest"
  shows "\<exists>start. arguments_range oc be b =
      Ok (start, start + length (nul_terminated (take (length args) ts)) - 1) \<and>
    drop start b = nul_terminated ts @ more_bytes"
proof -
  let ?start = "4 + length exe + Suc pad + skipped"
  have args: "args \<noteq> []" "length args < 2 ^ 32" using assms(1) by (auto simp: block_ok_def)
  then obtain t ts' where ts: "ts = t # ts'" using assms(3) by (cases ts) auto
  have rest: "drop (length exe + 4) b = replicate (Suc pad + skipped) NUL @ nul_terminated ts @ more_bytes"
    using texts by (simp add: b_def render_procargs_def replicate_add)
  have "nul_terminated ts @ more_bytes \<noteq> []" "hd (nul_terminated ts @ more_bytes) \<noteq> NUL"
    using assms(4,5) ts by (cases t; auto simp: nul_terminated_def)+
  then have pos: "position (\<lambda>c. c \<noteq> NUL) (drop (length exe + 4) b) = Some (Suc pad + skipped)"
    unfolding rest by (rule position_nuls)
  have start: "drop ?start b = nul_terminated ts @ more_bytes"
  proof -
    have "drop ?start b = drop (Suc pad + skipped) (drop (length exe + 4) b)" by (simp add: ac_simps)
    then show ?thesis unfolding rest by simp
  qed
  have nth: "memchr_nth NUL (length args - 1) (nul_terminated ts @ more_bytes) =
      Some (length (nul_terminated (take (length args) ts)) - 1)"
    using memchr_nth_terminated [of "length args - 1" ts more_bytes] assms(3,4) args
    by (cases args) auto
  have pos_len: "0 < length (nul_terminated (take (length args) ts))"
    using args ts by (cases args) (auto simp: nul_terminated_def)
  have argc: "unat (of_nat (length args) :: u32) = length args" "(of_nat (length args) :: u32) \<noteq> 0"
    using args by (simp_all add: unat_of_nat word_unat_eq_iff)
  have "arguments_range oc be b = Ok (?start, ?start + length (nul_terminated (take (length args) ts)) - 1)"
    using argc_render [OF assms(1), of be pad rest] exe_range_render [OF assms(1), of be pad rest] pos start nth pos_len argc
    by (simp add: arguments_range_def b_def Let_def unwrap_or_zero_def ac_simps)
  with start show ?thesis by blast
qed

text \<open>The iterator yields the texts of a joined block, however many it was told to yield.\<close>

lemma arguments_fuel_join:
  "\<lbrakk>ts \<noteq> []; \<forall>t\<in>set ts. NUL \<notin> set t; unat n = length ts\<rbrakk> \<Longrightarrow>
    arguments_fuel (Suc (length ts)) \<lparr>pa_left = n, pa_data = join_with [NUL] ts\<rparr> = Some ts"
proof (induction ts arbitrary: n)
  case (Cons t ts)
  have "n \<noteq> 0" using Cons.prems(3) by auto
  then have n: "unat (n - 1) = length ts" using Cons.prems(3) by (simp add: unat_minus_one)
  show ?case
  proof (cases ts)
    case Nil
    have "n - 1 = 0" using n Nil by (simp add: unat_eq_0)
    moreover have "memchr NUL t = None" using Cons.prems(2) by (simp add: memchr_None_iff)
    ultimately show ?thesis using Nil \<open>n \<noteq> 0\<close> by (simp add: ProcArgsArguments_next_def)
  next
    case (Cons u us)
    have "memchr NUL (join_with [NUL] (t # ts)) = Some (length t)"
      using Cons Cons.prems by simp
    with Cons.IH [of "n - 1"] Cons Cons.prems(2) n \<open>n \<noteq> 0\<close> show ?thesis
      by (simp add: ProcArgsArguments_next_def)
  qed
qed simp

lemma take_block:
  fixes start n :: nat and ts :: "bytes list"
  assumes block: "drop start b = nul_terminated ts @ rest" and "0 < n" "n \<le> length ts"
  defines "e \<equiv> start + length (nul_terminated (take n ts)) - 1"
  shows "drop start (take e b) = join_with [NUL] (take n ts)"
    and "drop (Suc e) b = nul_terminated (drop n ts) @ rest" and "Suc e \<le> length b"
proof -
  let ?j = "join_with [NUL] (take n ts)"
  have n: "nul_terminated (take n ts) = ?j @ [NUL]" using assms(2,3) by (intro nul_terminated_join) auto
  have "nul_terminated ts = nul_terminated (take n ts) @ nul_terminated (drop n ts)"
    by (simp add: nul_terminated_def flip: concat_append map_append)
  with n block have d: "drop start b = ?j @ NUL # nul_terminated (drop n ts) @ rest" by simp
  have e: "e = start + length ?j" by (simp add: e_def n)
  show "drop start (take e b) = ?j" using d by (simp add: e drop_take)
  have "drop (Suc e) b = drop (Suc (length ?j)) (drop start b)" by (simp add: e ac_simps)
  then show "drop (Suc e) b = nul_terminated (drop n ts) @ rest" by (simp add: d)
  have "length b - start = length (drop start b)" by simp
  then show "Suc e \<le> length b" using d e by (simp del: length_drop)
qed

lemma map_join_SP:
  "\<forall>t\<in>set ts. NUL \<notin> set t \<Longrightarrow>
    map (\<lambda>c. if c = NUL then SP else c) (join_with [NUL] ts) = join_with [SP] ts"
proof (induction "[NUL]" ts rule: join_with.induct)
  case (3 x y ys)
  have "map (\<lambda>c. if c = NUL then SP else c) x = x" using "3.prems" by (intro map_idI) auto
  with 3 show ?case by simp
qed (auto intro!: map_idI)

text \<open>What the accessors return for the texts that stand behind the padding.\<close>

lemma ProcArgs_texts:
  fixes be :: bool and exe rest :: bytes and pad :: nat and args :: "bytes list"
  assumes ok: "block_ok exe args"
    and texts: "nul_terminated args @ rest = replicate skipped NUL @ nul_terminated ts @ more_bytes"
    and ts: "length args \<le> length ts" "\<forall>t\<in>set ts. NUL \<notin> set t" "hd ts \<noteq> []"
  defines "b \<equiv> render_procargs be exe pad args rest"
  shows "map_ok arguments_collect (ProcArgs_arguments oc be b) = Ok (Some (take (length args) ts))"
    and "ProcArgs_to_command oc be b = Ok (join_with [SP] (take (length args) ts))"
    and "ProcArgs_environment oc be b =
      Environment_from_bytes (nul_terminated (drop (length args) ts) @ more_bytes)"
proof -
  let ?n = "length args" let ?ts = "take ?n ts"
  obtain start where range: "arguments_range oc be b = Ok (start, start + length (nul_terminated ?ts) - 1)"
    and start: "drop start b = nul_terminated ts @ more_bytes"
    using arguments_range_texts [OF ok texts ts] b_def by blast
  have n: "0 < ?n" "?n < 2 ^ 32" using ok by (auto simp: block_ok_def)
  note block = take_block [OF start n(1) ts(1)]
  have nul: "\<forall>t\<in>set ?ts. NUL \<notin> set t" using ts(2) by (auto dest: in_set_takeD)
  have "arguments_fuel (Suc (length ?ts)) \<lparr>pa_left = of_nat ?n, pa_data = join_with [NUL] ?ts\<rparr> = Some ?ts"
    using n ts(1) nul by (intro arguments_fuel_join) (auto simp: unat_of_nat)
  then show "map_ok arguments_collect (ProcArgs_arguments oc be b) = Ok (Some ?ts)"
    using range block(1) argc_render [OF ok, of be pad rest] n ts(1)
    by (simp add: ProcArgs_arguments_def b_def arguments_collect_def unat_of_nat min_absorb2
        del: and_then_eq_Ok map_ok_eq_Ok)
  show "ProcArgs_to_command oc be b = Ok (join_with [SP] ?ts)"
    using range block(1) map_join_SP [OF nul] by (simp add: ProcArgs_to_command_def)
  show "ProcArgs_environment oc be b =
      Environment_from_bytes (nul_terminated (drop ?n ts) @ more_bytes)"
    using range block(2,3) by (simp add: ProcArgs_environment_def)
qed

lemma ProcArgs_exe_render: "block_ok exe args \<Longrightarrow>
    ProcArgs_exe (render_procargs be exe pad args rest) = Ok exe"
  using exe_range_render [of exe args be pad rest] drop_render [of be exe pad args rest]
  by (simp add: ProcArgs_exe_def drop_take)

section \<open>Properties\<close>

text \<open>
  (C12) Round trip of the argument block of a macOS process: the block the kernel writes for an
  executable, arguments whose first is not empty and an environment is read back as these, whatever
  the padding and the byte order, and the command line is the arguments separated by blanks.
\<close>

theorem ProcArgs_roundtrip:
  fixes be :: bool and exe tail :: bytes and pad :: nat and args :: "bytes list" and env :: environment
  assumes ok: "block_ok exe args" and hd: "hd args \<noteq> []"
    and env: "list_all env_ok env" "tail = [] \<or> hd tail = NUL"
  defines "b \<equiv> render_procargs be exe pad args (render_env env @ tail)"
  shows "ProcArgs_argc be b = Ok (of_nat (length args)) \<and> ProcArgs_exe b = Ok exe \<and>
    map_ok arguments_collect (ProcArgs_arguments oc be b) = Ok (Some args) \<and>
    ProcArgs_to_command oc be b = Ok (join_with [SP] args) \<and>
    ProcArgs_environment oc be b = Some (Ok env)"
proof -
  have nul: "\<forall>t\<in>set args. NUL \<notin> set t" using ok by (simp add: block_ok_def list_all_iff)
  have texts: "nul_terminated args @ rest = replicate 0 NUL @ nul_terminated args @ rest" for rest
    by simp
  note read = ProcArgs_texts [OF ok texts order.refl nul hd]
  show ?thesis
    using argc_render [OF ok] ProcArgs_exe_render [OF ok] env_spec_render [OF env] read
    by (simp add: b_def nul_terminated_def Environment_from_bytes_def from_bytes_loop_spec)
qed

theorem ProcArgs_roundtrip_witness:
  "ProcArgs_argc False (render_procargs False ''/bin/ls'' 3 [''ls'', '''', ''-l'']
       (render_env [(''A'', ''b'')] @ [NUL, CHR ''x''])) = Ok (of_nat (length [''ls'', '''', ''-l''])) \<and>
   ProcArgs_to_command True False (render_procargs False ''/bin/ls'' 3 [''ls'', '''', ''-l'']
       (render_env [(''A'', ''b'')] @ [NUL, CHR ''x''])) = Ok ''ls  -l''"
  using ProcArgs_roundtrip [of "''/bin/ls''" "[''ls'', '''', ''-l'']" "[(''A'', ''b'')]" "[NUL, CHR ''x'']"
      False 3 True]
  by (simp add: block_ok_def env_ok_def)

text \<open>
  A macOS process started with an empty first argument is misread: the empty argument is taken
  for padding, every argument moves up by one place, the first variable of the environment is
  reported as the last argument and is missing from the environment.
\<close>

theorem ProcArgs_empty_first_argument:
  fixes be :: bool and exe tail k v :: bytes and pad :: nat and args :: "bytes list" and env :: environment
  assumes ok: "block_ok exe ([] # args)" and hd: "args = [] \<or> hd args \<noteq> []"
    and env: "list_all env_ok ((k, v) # env)" "tail = [] \<or> hd tail = NUL"
  defines "b \<equiv> render_procargs be exe pad ([] # args) (render_env ((k, v) # env) @ tail)"
  shows "map_ok arguments_collect (ProcArgs_arguments oc be b) = Ok (Some (args @ [k @ ''='' @ v])) \<and>
    ProcArgs_environment oc be b = Some (Ok env)"
proof -
  let ?ts = "args @ [k @ ''='' @ v]"
  have texts: "nul_terminated ([] # args) @ render_env ((k, v) # env) @ tail =
      replicate 1 NUL @ nul_terminated ?ts @ render_env env @ tail"
    by (simp add: nul_terminated_def render_env_def)
  have nul: "\<forall>t\<in>set ?ts. NUL \<notin> set t" using ok env by (auto simp: block_ok_def list_all_iff env_ok_def)
  have first: "hd ?ts \<noteq> []" using hd by (cases args) auto
  have len: "length ([] # args) \<le> length ?ts" by simp
  note read = ProcArgs_texts [OF ok texts len nul first]
  show ?thesis
    using read env_spec_render [of env tail] env
    by (simp add: b_def nul_terminated_def Environment_from_bytes_def from_bytes_loop_spec)
qed

theorem ProcArgs_empty_first_argument_witness:
  "map_ok arguments_collect (ProcArgs_arguments True False (render_procargs False ''/bin/ls'' 3 [[], ''-l'']
       (render_env [(''A'', ''b''), (''C'', ''d'')] @ [NUL]))) = Ok (Some [''-l'', ''A=b''])"
  using ProcArgs_empty_first_argument [of "''/bin/ls''" "[''-l'']" "''A''" "''b''" "[(''C'', ''d'')]" "[NUL]"
      True False 3]
  by (simp add: block_ok_def env_ok_def)

end
