(* ===== verification/Retry_Buffer.thy ===== *)
theory Retry_Buffer
  imports Common_Errors
begin

text \<open>
  Buffers that are filled by the system and asked for again when they turn out too small: the retry
  loops of \<open>heim-process/src/sys/macos/bindings/process.rs\<close> and
  \<open>heim-cpu/src/sys/windows/wrappers/count.rs\<close>. Both keep an empty vector and reserve the difference
  between the wanted size and the capacity.

  \<open>reserve_exact\<close> and \<open>reserve\<close> model the two methods of \<open>Vec\<close>; the locale states what the loops have
  in common and derives when a call of such a loop has the room it claims.
\<close>

text \<open>A call that stores elements: the number it was told it may store, and the room there is.\<close>

record fill_call =
  told :: nat
  room :: nat

definition fits :: "fill_call \<Rightarrow> bool" where
  "fits c \<longleftrightarrow> told c \<le> room c"

text \<open>
  \<open>Vec::reserve_exact\<close> on a vector of \<open>len\<close> elements of \<open>sz\<close> bytes: it makes room for \<open>additional\<close>
  more elements than the vector holds, not more than its capacity; more than \<open>isize::MAX\<close> bytes are a
  panic.
\<close>

definition reserve_exact :: "nat \<Rightarrow> nat \<Rightarrow> nat \<Rightarrow> nat \<Rightarrow> (nat, 'e) outcome" where
  "reserve_exact sz cap len additional =
     (if additional \<le> cap - len then Ok cap
      else if 2 ^ 63 \<le> (len + additional) * sz then Panic
      else Ok (len + additional))"

text \<open>\<open>Vec::reserve\<close> grows to at least twice the capacity; a vector of bytes to at least eight.\<close>

definition reserve :: "nat \<Rightarrow> nat \<Rightarrow> nat \<Rightarrow> nat \<Rightarrow> (nat, 'e) outcome" where
  "reserve sz cap len additional =
     (if additional \<le> cap - len then Ok cap
      else if 2 ^ 63 \<le> (len + additional) * sz then Panic
      else Ok (max (max (2 * cap) (len + additional)) (if sz = 1 then 8 else 4)))"

text \<open>
  The capacity a loop goes on with: \<open>next_cap cap n\<close> when \<open>n\<close> elements are wanted. It is enough for a
  vector without capacity, it is kept when it is enough, and it stays too small otherwise; \<open>least\<close> is
  the smallest capacity a vector grows to.
\<close>

locale retry_buffer =
  fixes next_cap :: "nat \<Rightarrow> nat \<Rightarrow> nat" and least :: nat
  assumes first: "n \<le> next_cap 0 n"
    and kept: "n \<le> cap \<Longrightarrow> next_cap cap n = cap"
    and short: "least \<le> cap \<Longrightarrow> cap < n \<Longrightarrow> next_cap cap n < n"
begin

lemma room_iff: "least \<le> cap \<Longrightarrow> n \<le> next_cap cap n \<longleftrightarrow> n \<le> cap"
  using kept [of n cap] short [of cap n] by (cases "n \<le> cap") auto

end

text \<open>The calls of a loop that starts with a capacity, each with the capacity of the call before.\<close>

fun calls_from :: "(nat \<Rightarrow> nat \<Rightarrow> nat) \<Rightarrow> nat \<Rightarrow> fill_call list \<Rightarrow> bool" where
  "calls_from next_cap cap [] = True"
| "calls_from next_cap cap (c # cs) \<longleftrightarrow>
     room c = next_cap cap (told c) \<and> calls_from next_cap (room c) cs"

lemma calls_from_pair:
  "calls_from next_cap cap cs \<Longrightarrow> Suc k < length cs \<Longrightarrow>
     room (cs ! Suc k) = next_cap (room (cs ! k)) (told (cs ! Suc k))"
proof (induction k arbitrary: cap cs)
  case 0
  then show ?case by (cases cs; cases "tl cs") auto
next
  case (Suc k)
  then show ?case by (cases cs) auto
qed

context retry_buffer
begin

text \<open>The first call fits; a later one exactly when the room of the call before would have been enough.\<close>

lemma calls_fit:
  assumes "calls_from next_cap 0 calls"
  shows "calls \<noteq> [] \<Longrightarrow> fits (hd calls)"
    and "Suc k < length calls \<Longrightarrow> least \<le> room (calls ! k) \<Longrightarrow>
      fits (calls ! Suc k) \<longleftrightarrow> told (calls ! Suc k) \<le> room (calls ! k)"
proof -
  show "calls \<noteq> [] \<Longrightarrow> fits (hd calls)"
    using assms first by (cases calls) (auto simp: fits_def)
  show "Suc k < length calls \<Longrightarrow> least \<le> room (calls ! k) \<Longrightarrow>
      fits (calls ! Suc k) \<longleftrightarrow> told (calls ! Suc k) \<le> room (calls ! k)"
    using calls_from_pair [OF assms] room_iff by (simp add: fits_def)
qed

end

end
