(* ===== verification/Process_Macos.thy ===== *)
theory Process_Macos
  imports Macos_Proc_Args Process_Handle Retry_Buffer
begin

text \<open>
  Processes on macOS: \<open>heim-process/src/sys/macos\<close> (\<open>bindings/process.rs\<close>, \<open>utils.rs\<close>, \<open>pids.rs\<close>
  and \<open>process/\<close>).

  The answers of the kernel and of the \<open>darwin_libproc\<close> crate are fields of \<open>darwin_host\<close>; of the
  structures only the fields the code reads are kept. The kinds of operating system errors the code
  distinguishes, permission denied and not found, have the same numbers as on Linux.

  The theorems: handles detect reused ids; an answer \<open>ESRCH\<close> is explained by the state of the process;
  the loop that lists all processes returns as soon as some answer is final, its first call never
  passes more room than it has, and after a list that grew every call does.
\<close>

section \<open>The kernel's answers\<close>

record kinfo_proc =
  p_starttime :: timeval
  p_stat :: u8
  p_pid :: pid
  p_comm :: bytes
  p_after_comm :: bytes
  e_ppid :: pid

record proc_taskinfo =
  pti_virtual_size :: u64
  pti_resident_size :: u64
  pti_total_user :: u64
  pti_total_system :: u64
  pti_faults :: i32
  pti_pageins :: i32

record rusage_info_v2 =
  ri_diskio_bytesread :: u64
  ri_diskio_byteswritten :: u64

text \<open>
  \<open>proc_answer\<close> is what \<open>sysctl\<close> answers about one process: its result, errno, the size it stored and
  the structure. \<open>procargs_answer\<close> depends on the size of the buffer.
\<close>

record darwin_host = macos_host +
  KERN_PROC :: i32
  KERN_PROC_ALL :: i32
  KERN_ARGMAX :: i32
  KERN_PROCARGS2 :: i32
  proc_answer :: "pid \<Rightarrow> i32 \<times> i32 \<times> nat \<times> kinfo_proc"
  pid_path :: "pid \<Rightarrow> io_error + path"
  pid_cwd :: "pid \<Rightarrow> io_error + path"
  task_info :: "pid \<Rightarrow> io_error + proc_taskinfo"
  pid_rusage :: "pid \<Rightarrow> io_error + rusage_info_v2"
  argmax_answer :: "i32 \<times> i32"
  procargs_answer :: "pid \<Rightarrow> nat \<Rightarrow> i32 \<times> bytes"

text \<open>\<open>{:?}\<close> of a signed byte.\<close>

definition show_i8 :: "u8 \<Rightarrow> string" where
  "show_i8 b = show_int (sint b)"

definition Status_try_from_c_char :: "u8 \<Rightarrow> (status, heim_error) outcome" where
  "Status_try_from_c_char value =
     (if value = 1 then Ok Idle
      else if value = 2 then Ok Running
      else if value = 3 then Ok Sleeping
      else if value = 4 then Ok Stopped
      else if value = 5 then Ok Zombie
      else Err (with_message (Error_from_io (Simple InvalidData))
        (''Unknown process p_stat value: '' @ show_i8 value)))"

definition bindings_process :: "'h darwin_host_scheme \<Rightarrow> pid \<Rightarrow> (kinfo_proc, process_error) outcome" where
  "bindings_process d pid =
     (case proc_answer d pid of (result, errno, sz, info) \<Rightarrow>
        if sint result < 0 then Err (Load (Error_last_os_error errno))
        else if sz = 0 then Err (NoSuchProcess pid)
        else Ok info)"

definition catch_zombie :: "'h darwin_host_scheme \<Rightarrow> process_error \<Rightarrow> pid \<Rightarrow> process_error" where
  "catch_zombie d e pid =
     (case e of
        Load e' \<Rightarrow>
          if Error_raw_os_error e' = Some (ESRCH d) then
            (case bindings_process d pid of
               Ok info \<Rightarrow>
                 (case Status_try_from_c_char (p_stat info) of
                    Ok st \<Rightarrow> if st = Zombie then ZombieProcess pid else AccessDenied pid
                  | Err e'' \<Rightarrow> Load e''
                  | Panic \<Rightarrow> e)
             | Err e'' \<Rightarrow> e''
             | Panic \<Rightarrow> e)
          else e
      | _ \<Rightarrow> e)"

text \<open>Reading the structure of a process, with errors explained: the match most accessors share.\<close>

definition with_kinfo ::
    "'h darwin_host_scheme \<Rightarrow> pid \<Rightarrow> (kinfo_proc \<Rightarrow> ('a, process_error) outcome) \<Rightarrow> ('a, process_error) outcome" where
  "with_kinfo d pid f =
     (case bindings_process d pid of
        Ok info \<Rightarrow> f info
      | Err e \<Rightarrow> Err (catch_zombie d e pid)
      | Panic \<Rightarrow> Panic)"

section \<open>All processes\<close>

text \<open>The size of \<open>kinfo_proc\<close>, as the layout test of the source states it.\<close>

definition kinfo_size :: nat where "kinfo_size = 648"

text \<open>
  What the kernel answers in one round: to the dry run (result, errno, size), and to the call with a
  buffer said to have a given size (result, errno, the entries it stored).
\<close>

record round_answer =
  dry_run :: "i32 \<times> i32 \<times> nat"
  fill :: "nat \<Rightarrow> i32 \<times> i32 \<times> kinfo_proc list"

datatype round_result = Again nat | Done "(kinfo_proc list, heim_error) outcome"

text \<open>
  One round of the loop with a vector of capacity \<open>cap\<close>: the call it made, if any, in numbers of
  entries, and whether the loop goes on with the new capacity. The vector is empty until the loop ends. \<open>da\<close> says that debug
  assertions are on.
\<close>

definition processes_round ::
    "bool \<Rightarrow> 'h darwin_host_scheme \<Rightarrow> round_answer \<Rightarrow> nat \<Rightarrow> fill_call list \<times> round_result" where
  "processes_round da d a cap =
     (let name = [CTL_KERN d, KERN_PROC d, KERN_PROC_ALL d] in
      case dry_run a of (result, errno, sz) \<Rightarrow>
        if sint result < 0 then ([], Done (Err (with_sysctl (Error_last_os_error errno) name)))
        else
          let num_processes = sz div kinfo_size in
          case (if cap < num_processes then reserve_exact kinfo_size cap 0 (num_processes - cap) else Ok cap) of
            Ok cap' \<Rightarrow>
              (case fill a sz of (result', errno', entries) \<Rightarrow>
                 ([\<lparr>told = num_processes, room = cap'\<rparr>],
                  if sint result' < 0 then
                    if errno' = ENOMEM d then Again cap'
                    else Done (Err (with_sysctl (Error_last_os_error errno') name))
                  else if da \<and> entries = [] then Done Panic
                  else Done (Ok entries)))
          | Err e \<Rightarrow> ([], Done (Err e))
          | Panic \<Rightarrow> ([], Done Panic))"

partial_function (option) processes_loop ::
    "bool \<Rightarrow> 'h darwin_host_scheme \<Rightarrow> (nat \<Rightarrow> round_answer) \<Rightarrow> nat \<Rightarrow> nat \<Rightarrow> fill_call list
      \<Rightarrow> (fill_call list \<times> (kinfo_proc list, heim_error) outcome) option" where
  "processes_loop da d answers i cap calls =
     (case processes_round da d (answers i) cap of
        (new, Again cap') \<Rightarrow> processes_loop da d answers (Suc i) cap' (calls @ new)
      | (new, Done r) \<Rightarrow> Some (calls @ new, r))"

declare processes_loop.simps [code]

definition bindings_processes ::
    "bool \<Rightarrow> 'h darwin_host_scheme \<Rightarrow> (nat \<Rightarrow> round_answer)
      \<Rightarrow> (fill_call list \<times> (kinfo_proc list, heim_error) outcome) option" where
  "bindings_processes da d answers = processes_loop da d answers 0 0 []"

definition macos_pids ::
    "bool \<Rightarrow> 'h darwin_host_scheme \<Rightarrow> (nat \<Rightarrow> round_answer)
      \<Rightarrow> ((pid, heim_error) outcome list, heim_error) outcome option" where
  "macos_pids da d answers =
     map_option (\<lambda>(_, r). map_ok (map (\<lambda>info. Ok (p_pid info))) r) (bindings_processes da d answers)"

definition macos_pid_exists :: "'h darwin_host_scheme \<Rightarrow> pid \<Rightarrow> (bool, process_error) outcome" where
  "macos_pid_exists d pid = Ok (pid_exists d pid)"

section \<open>Handles and accessors\<close>

record macos_process =
  mp_pid :: pid
  mp_unique_id :: unique_id

definition macos_process_get :: "'h darwin_host_scheme \<Rightarrow> pid \<Rightarrow> (macos_process, process_error) outcome" where
  "macos_process_get d pid =
     with_kinfo d pid (\<lambda>info.
       let create_time = timeval_into_time d (p_starttime info) in
       map_ok (\<lambda>uid. \<lparr>mp_pid = pid, mp_unique_id = uid\<rparr>) (UniqueId_new d pid create_time))"

definition macos_process_current :: "'h darwin_host_scheme \<Rightarrow> (macos_process, process_error) outcome" where
  "macos_process_current d = macos_process_get d (getpid_call d)"

definition macos_process_eq :: "macos_process \<Rightarrow> macos_process \<Rightarrow> bool" where
  "macos_process_eq a b \<longleftrightarrow> UniqueId_eq (mp_unique_id a) (mp_unique_id b)"

definition macos_processes ::
    "bool \<Rightarrow> 'h darwin_host_scheme \<Rightarrow> (nat \<Rightarrow> round_answer)
      \<Rightarrow> ((macos_process, process_error) outcome list, heim_error) outcome option" where
  "macos_processes da d answers =
     map_option (map_ok (map (\<lambda>pid. and_then (load pid) (macos_process_get d)))) (macos_pids da d answers)"

definition macos_parent_pid :: "'h darwin_host_scheme \<Rightarrow> macos_process \<Rightarrow> (pid, process_error) outcome" where
  "macos_parent_pid d p = with_kinfo d (mp_pid p) (\<lambda>info. Ok (e_ppid info))"

definition macos_name :: "'h darwin_host_scheme \<Rightarrow> macos_process \<Rightarrow> (string, process_error) outcome" where
  "macos_name d p =
     with_kinfo d (mp_pid p) (\<lambda>info. Ok (utf8_lossy (CStr_from_ptr (p_comm info @ p_after_comm info))))"

definition macos_exe :: "'h darwin_host_scheme \<Rightarrow> macos_process \<Rightarrow> (path, process_error) outcome" where
  "macos_exe d p =
     (case pid_path d (mp_pid p) of
        Inr path \<Rightarrow> Ok path
      | Inl e \<Rightarrow>
          if mp_pid p = 0 then Err (AccessDenied (mp_pid p))
          else Err (catch_zombie d (ProcessError_from_io e) (mp_pid p)))"

definition macos_cwd :: "'h darwin_host_scheme \<Rightarrow> macos_process \<Rightarrow> (path, process_error) outcome" where
  "macos_cwd d p =
     (case pid_cwd d (mp_pid p) of
        Inr path \<Rightarrow> Ok path
      | Inl e \<Rightarrow>
          if io_kind e = PermissionDenied then Err (AccessDenied (mp_pid p))
          else Err (catch_zombie d (ProcessError_from_io e) (mp_pid p)))"

definition macos_status :: "'h darwin_host_scheme \<Rightarrow> macos_process \<Rightarrow> (status, process_error) outcome" where
  "macos_status d p = with_kinfo d (mp_pid p) (\<lambda>info. load (Status_try_from_c_char (p_stat info)))"

definition macos_create_time :: "'h darwin_host_scheme \<Rightarrow> macos_process \<Rightarrow> (fval, process_error) outcome" where
  "macos_create_time d p = Ok (UniqueId_create_time d (mp_unique_id p))"

record macos_cpu_times =
  mct_utime :: fval
  mct_stime :: fval

definition macos_CpuTime_from :: "'h macos_host_scheme \<Rightarrow> proc_taskinfo \<Rightarrow> macos_cpu_times" where
  "macos_CpuTime_from m info =
     \<lparr>mct_utime = Time_nano m (f64_of_u64 (pti_total_user info)),
      mct_stime = Time_nano m (f64_of_u64 (pti_total_system info))\<rparr>"

definition macos_process_cpu_time ::
    "'h darwin_host_scheme \<Rightarrow> macos_process \<Rightarrow> (macos_cpu_times, process_error) outcome" where
  "macos_process_cpu_time d p =
     (case task_info d (mp_pid p) of
        Inr info \<Rightarrow> Ok (macos_CpuTime_from d info)
      | Inl e \<Rightarrow>
          if io_kind e = PermissionDenied then Err (AccessDenied (mp_pid p))
          else Err (catch_zombie d (ProcessError_from_io e) (mp_pid p)))"

text \<open>The two counters are signed; a negative one becomes a large unsigned number.\<close>

record macos_proc_memory =
  mpm_resident :: u64
  mpm_virtual :: u64
  mpm_faults :: u64
  mpm_pageins :: u64

definition macos_Memory_from :: "'h host_scheme \<Rightarrow> proc_taskinfo \<Rightarrow> macos_proc_memory" where
  "macos_Memory_from h info =
     \<lparr>mpm_resident = Information_new h Byte (pti_resident_size info),
      mpm_virtual = Information_new h Byte (pti_virtual_size info),
      mpm_faults = scast (pti_faults info), mpm_pageins = scast (pti_pageins info)\<rparr>"

definition macos_process_memory ::
    "'h darwin_host_scheme \<Rightarrow> macos_process \<Rightarrow> (macos_proc_memory, process_error) outcome" where
  "macos_process_memory d p =
     (case task_info d (mp_pid p) of
        Inr info \<Rightarrow> Ok (macos_Memory_from d info)
      | Inl e \<Rightarrow>
          if io_kind e = PermissionDenied then Err (AccessDenied (mp_pid p))
          else Err (catch_zombie d (ProcessError_from_io e) (mp_pid p)))"

definition macos_niceness :: "'h darwin_host_scheme \<Rightarrow> macos_process \<Rightarrow> (i32, process_error) outcome" where
  "macos_niceness d p = pid_priority d (mp_pid p)"

definition macos_set_niceness ::
    "'h darwin_host_scheme \<Rightarrow> macos_process \<Rightarrow> i32 \<Rightarrow> (unit, process_error) outcome" where
  "macos_set_niceness d p value = pid_setpriority d (mp_pid p) value"

definition macos_is_running :: "'h darwin_host_scheme \<Rightarrow> macos_process \<Rightarrow> (bool, process_error) outcome" where
  "macos_is_running d p = map_ok (\<lambda>other. macos_process_eq other p) (macos_process_get d (mp_pid p))"

text \<open>\<open>_signal\<close>: checked on the host \<open>c\<close>, sent on the host \<open>v\<close>.\<close>

definition macos_signal ::
    "'h darwin_host_scheme \<Rightarrow> 'h darwin_host_scheme \<Rightarrow> macos_process \<Rightarrow> signal \<Rightarrow> (unit, process_error) outcome" where
  "macos_signal c v p signal =
     and_then (macos_is_running c p) (\<lambda>running.
       if running then pid_kill v (mp_pid p) signal else Err (NoSuchProcess (mp_pid p)))"

definition macos_suspend where "macos_suspend c v p = macos_signal c v p Stop"
definition macos_resume where "macos_resume c v p = macos_signal c v p Cont"
definition macos_terminate where "macos_terminate c v p = macos_signal c v p Term"
definition macos_kill where "macos_kill c v p = macos_signal c v p Kill"

definition macos_wait where "macos_wait ticks u us p = pid_wait ticks u us (mp_pid p)"

record macos_io_counters =
  mio_read_bytes :: u64
  mio_write_bytes :: u64

text \<open>The written bytes are taken from the counter of the read bytes, as in the source.\<close>

definition macos_IoCounters_from :: "rusage_info_v2 \<Rightarrow> macos_io_counters" where
  "macos_IoCounters_from info =
     \<lparr>mio_read_bytes = ri_diskio_bytesread info, mio_write_bytes = ri_diskio_bytesread info\<rparr>"

definition macos_bytes_read :: "'h host_scheme \<Rightarrow> macos_io_counters \<Rightarrow> u64" where
  "macos_bytes_read h c = Information_new h Byte (mio_read_bytes c)"

definition macos_bytes_written :: "'h host_scheme \<Rightarrow> macos_io_counters \<Rightarrow> u64" where
  "macos_bytes_written h c = Information_new h Byte (mio_write_bytes c)"

definition macos_io_counters :: "'h darwin_host_scheme \<Rightarrow> macos_process \<Rightarrow> (macos_io_counters, process_error) outcome" where
  "macos_io_counters d p =
     (case pid_rusage d (mp_pid p) of
        Inr info \<Rightarrow> Ok (macos_IoCounters_from info)
      | Inl e \<Rightarrow>
          if io_kind e = PermissionDenied then Err (AccessDenied (mp_pid p))
          else Err (ProcessError_from_io e))"

section \<open>Command line and environment\<close>

definition ProcArgs_get :: "'h darwin_host_scheme \<Rightarrow> pid \<Rightarrow> (bytes, heim_error) outcome" where
  "ProcArgs_get d pid =
     proc_args d [CTL_KERN d, KERN_ARGMAX d] [CTL_KERN d, KERN_PROCARGS2 d] (argmax_answer d)
       (procargs_answer d pid) pid"

definition procargs_error :: "'h darwin_host_scheme \<Rightarrow> heim_error \<Rightarrow> pid \<Rightarrow> process_error" where
  "procargs_error d e pid =
     (if Error_raw_os_error e = Some (EINVAL d) then
        if pid_exists d pid then ZombieProcess pid else Load e
      else if Error_kind e = PermissionDenied then AccessDenied pid
      else Load e)"

definition macos_command :: "'h darwin_host_scheme \<Rightarrow> macos_process \<Rightarrow> (bytes, process_error) outcome" where
  "macos_command d p = map_err (\<lambda>e. procargs_error d e (mp_pid p)) (ProcArgs_get d (mp_pid p))"

definition macos_environment ::
    "bool \<Rightarrow> bool \<Rightarrow> 'h darwin_host_scheme \<Rightarrow> macos_process \<Rightarrow> (environment, process_error) outcome option" where
  "macos_environment oc big_endian d p =
     (case ProcArgs_get d (mp_pid p) of
        Ok b \<Rightarrow> map_option load (ProcArgs_environment oc big_endian b)
      | Err e \<Rightarrow> Some (Err (procargs_error d e (mp_pid p)))
      | Panic \<Rightarrow> Some Panic)"

definition macos_Command_to_os_string :: "bool \<Rightarrow> bool \<Rightarrow> bytes \<Rightarrow> (bytes, heim_error) outcome" where
  "macos_Command_to_os_string oc big_endian c = ProcArgs_to_command oc big_endian c"

definition macos_Command_into_iter :: "bool \<Rightarrow> bool \<Rightarrow> bytes \<Rightarrow> (proc_args_arguments, heim_error) outcome" where
  "macos_Command_into_iter oc big_endian c = ProcArgs_arguments oc big_endian c"

section \<open>Handles\<close>

lemma macos_process_get_Ok:
  "macos_process_get d pid = Ok p \<Longrightarrow> mp_pid p = pid \<and> uid_pid (mp_unique_id p) = pid \<and>
   uid_create_time (mp_unique_id p) \<noteq> NaN"
  by (auto simp: macos_process_get_def with_kinfo_def Let_def dest: UniqueId_new_Ok split: outcome.splits)

interpretation macos_handle: process_handle macos_process_get mp_pid mp_unique_id macos_is_running
    pid_kill macos_signal
  by unfold_locales
     (auto simp: macos_process_get_Ok macos_is_running_def macos_process_eq_def macos_signal_def
       dest: macos_process_get_Ok)

definition sample_kinfo :: "i64 \<Rightarrow> u8 \<Rightarrow> kinfo_proc" where
  "sample_kinfo start st =
     \<lparr>p_starttime = \<lparr>tv_sec = start, tv_usec = 0\<rparr>, p_stat = st, p_pid = 42, p_comm = ''sh'' @ [NUL],
      p_after_comm = [], e_ppid = 1\<rparr>"

definition sample_darwin :: "i64 \<Rightarrow> u8 \<Rightarrow> darwin_host" where
  "sample_darwin start st = macos_host.extend sample_macos
     \<lparr>KERN_PROC = 14, KERN_PROC_ALL = 0, KERN_ARGMAX = 8, KERN_PROCARGS2 = 49,
      proc_answer = (\<lambda>p. if p = 42 then (0, 0, 648, sample_kinfo start st) else (0, 0, 0, sample_kinfo 0 0)),
      pid_path = (\<lambda>_. Inl (Os 3)), pid_cwd = (\<lambda>_. Inl (Os 3)), task_info = (\<lambda>_. Inl (Os 3)),
      pid_rusage = (\<lambda>_. Inl (Os 3)), argmax_answer = (0, 262144),
      procargs_answer = (\<lambda>_ _. (0, render_procargs False ''/bin/sh'' 3 [''sh''] [NUL]))\<rparr>"

lemmas sample_darwin_defs =
  sample_darwin_def sample_macos_def sample_unix_def sample_host_def
  macos_host.extend_def unix_host.extend_def host.extend_def

definition macos_handle_at :: "rat \<Rightarrow> macos_process" where
  "macos_handle_at t = \<lparr>mp_pid = 42, mp_unique_id = \<lparr>uid_pid = 42, uid_create_time = Fin t\<rparr>\<rparr>"

lemma sample_darwin_get:
  "macos_process_get (sample_darwin 1577 2) 42 = Ok (macos_handle_at 1577)"
  "macos_process_get (sample_darwin 1579 2) 42 = Ok (macos_handle_at 1579)"
  using rnd64_of_nat_exact [of 1577] rnd64_of_nat_exact [of 1579] rnd64_of_nat_exact [of 0]
  by (simp_all add: macos_process_get_def with_kinfo_def bindings_process_def sample_darwin_defs
      sample_kinfo_def timeval_into_time_def f64_of_i64_def f64_of_i32_def UniqueId_new_def Let_def
      macos_handle_at_def)

text \<open>
  Reused process ids are detected on macOS: for a handle made on one host and a later host where
  the same id belongs to some process, \<open>is_running\<close> says whether that process started at the time the
  handle has, a signal is refused when it did not, whatever host it would have been sent on, and is
  the bare system call when it did.
\<close>

theorem macos_is_running_detects_reuse:
  fixes h0 c v :: "'h darwin_host_scheme"
  assumes "macos_process_get h0 pid = Ok p" "macos_process_get c pid = Ok q"
  shows "macos_is_running c p = Ok (mp_unique_id q = mp_unique_id p) \<and>
    macos_signal c v p s =
      (if mp_unique_id q = mp_unique_id p then pid_kill v pid s else Err (NoSuchProcess pid))"
  using macos_handle.running_iff [OF assms] macos_handle.send_reused [OF assms]
    macos_handle.send_same [OF assms] by simp

theorem macos_is_running_detects_reuse_witness:
  "macos_is_running (sample_darwin 1579 2) (macos_handle_at 1577) = Ok False \<and>
   macos_signal (sample_darwin 1579 2) (sample_darwin 1579 2) (macos_handle_at 1577) Kill =
     Err (NoSuchProcess 42)"
  using macos_is_running_detects_reuse [OF sample_darwin_get, of "sample_darwin 1579 2" Kill]
  by (simp add: macos_handle_at_def)

section \<open>Errors explained\<close>

lemma bindings_process_not_Panic [simp]: "bindings_process d pid \<noteq> Panic"
  by (simp add: bindings_process_def split: prod.splits)

lemma Status_try_from_c_char_cases:
  "Status_try_from_c_char b \<noteq> Panic" "Status_try_from_c_char b = Ok Zombie \<longleftrightarrow> b = 5"
  "(\<exists>st. Status_try_from_c_char b = Ok st) \<longleftrightarrow> b \<in> {1, 2, 3, 4, 5}"
  by (auto simp: Status_try_from_c_char_def)

text \<open>
  An error that says what became of the process: a zombie exactly when its structure can be read and is in
  state five, access denied exactly when it is in one of the four live states, and no such process
  exactly when the kernel returns an empty structure.
\<close>

definition explained :: "'h darwin_host_scheme \<Rightarrow> pid \<Rightarrow> ('a, process_error) outcome \<Rightarrow> bool" where
  "explained d pid r \<longleftrightarrow>
     (r = Err (ZombieProcess pid) \<longleftrightarrow> (\<exists>info. bindings_process d pid = Ok info \<and> p_stat info = 5)) \<and>
     (r = Err (AccessDenied pid) \<longleftrightarrow> (\<exists>info. bindings_process d pid = Ok info \<and> p_stat info \<in> {1, 2, 3, 4})) \<and>
     (r = Err (NoSuchProcess pid) \<longleftrightarrow>
        0 \<le> sint (fst (proc_answer d pid)) \<and> fst (snd (snd (proc_answer d pid))) = 0)"

lemma catch_zombie_explained:
  "explained d pid (Err (catch_zombie d (ProcessError_from_io (Os (ESRCH d))) pid) :: ('a, process_error) outcome)"
proof -
  have "catch_zombie d (ProcessError_from_io (Os (ESRCH d))) pid = (case bindings_process d pid of Err e \<Rightarrow> e
      | Ok info \<Rightarrow> (case Status_try_from_c_char (p_stat info) of
          Ok st \<Rightarrow> if st = Zombie then ZombieProcess pid else AccessDenied pid | Err e \<Rightarrow> Load e))"
    by (auto simp: catch_zombie_def ProcessError_from_io_def Error_from_io_def Error_raw_os_error_def
        Status_try_from_c_char_cases split: outcome.splits)
  then show ?thesis
    by (auto simp: explained_def bindings_process_def Status_try_from_c_char_def split: prod.splits if_splits)
qed

text \<open>
  (C38) When \<open>darwin_libproc\<close> answers \<open>ESRCH\<close>, the working directory, the CPU times and the memory of a process
  fail with an error that names what became of it: a zombie exactly when its structure can be read and is in
  state five, access denied exactly when it is in one of the four live states, and no such process exactly
  when the kernel returns an empty structure. So does the path of the executable, except for process zero,
  which is always access denied. The I/O counters do not look: they give the plain error of the system.
\<close>

theorem libproc_esrch_explained:
  fixes d :: "'h darwin_host_scheme" and p :: macos_process
  assumes "io_kind (Os (ESRCH d)) \<noteq> PermissionDenied"
  shows "(pid_cwd d (mp_pid p) = Inl (Os (ESRCH d)) \<longrightarrow> explained d (mp_pid p) (macos_cwd d p)) \<and>
    (task_info d (mp_pid p) = Inl (Os (ESRCH d)) \<longrightarrow>
      explained d (mp_pid p) (macos_process_cpu_time d p) \<and> explained d (mp_pid p) (macos_process_memory d p)) \<and>
    (pid_path d (mp_pid p) = Inl (Os (ESRCH d)) \<longrightarrow>
      (if mp_pid p = 0 then macos_exe d p = Err (AccessDenied 0) else explained d (mp_pid p) (macos_exe d p))) \<and>
    (pid_rusage d (mp_pid p) = Inl (Os (ESRCH d)) \<longrightarrow>
      macos_io_counters d p = Err (Load (Error_from_io (Os (ESRCH d)))))"
  using assms
  by (simp add: macos_cwd_def macos_process_cpu_time_def macos_process_memory_def macos_exe_def macos_io_counters_def
      ProcessError_from_io_def catch_zombie_explained [unfolded ProcessError_from_io_def])

theorem libproc_esrch_explained_witness:
  "macos_cwd (sample_darwin 1577 5) (macos_handle_at 1577) = Err (ZombieProcess 42) \<and>
   macos_cwd (sample_darwin 1577 2) (macos_handle_at 1577) = Err (AccessDenied 42)"
proof -
  have host: "ESRCH (sample_darwin 1577 st) = 3" "pid_cwd (sample_darwin 1577 st) 42 = Inl (Os 3)"
    "bindings_process (sample_darwin 1577 st) 42 = Ok (sample_kinfo 1577 st)"
    "p_stat (sample_kinfo 1577 st) = st" for st
    by (simp_all add: sample_darwin_defs bindings_process_def sample_kinfo_def)
  have kind: "io_kind (Os 3) \<noteq> PermissionDenied" by (simp add: decode_error_kind_def)
  have pid: "mp_pid (macos_handle_at 1577) = 42" by (simp add: macos_handle_at_def)
  show ?thesis
    using libproc_esrch_explained [of "sample_darwin 1577 5" "macos_handle_at 1577"] kind
      libproc_esrch_explained [of "sample_darwin 1577 2" "macos_handle_at 1577"]
    by (simp add: host pid explained_def)
qed

section \<open>The list of all processes\<close>

text \<open>A round that is not final: the dry run succeeds and the list no longer fits.\<close>

definition retry :: "'h darwin_host_scheme \<Rightarrow> round_answer \<Rightarrow> bool" where
  "retry d a \<longleftrightarrow> (case dry_run a of (result, _, sz) \<Rightarrow> 0 \<le> sint result \<and>
     (case fill a sz of (result', errno', _) \<Rightarrow> sint result' < 0 \<and> errno' = ENOMEM d))"

text \<open>The capacity the loop goes on with when \<open>n\<close> processes are reported.\<close>

definition next_cap :: "nat \<Rightarrow> nat \<Rightarrow> nat" where
  "next_cap cap n = (if cap < n \<and> cap < n - cap then n - cap else cap)"

lemma reserve_next_cap:
  "(if cap < n then reserve_exact kinfo_size cap 0 (n - cap) else Ok cap) =
     (if cap < n \<and> cap < n - cap \<and> 2 ^ 63 \<le> (n - cap) * kinfo_size then Panic else Ok (next_cap cap n))"
  by (simp add: reserve_exact_def next_cap_def)

text \<open>A round either makes one call, with the capacity \<open>next_cap\<close>, or ends without one.\<close>

lemma processes_round_cases:
  assumes "processes_round da d a cap = (new, res)"
  obtains r where "new = []" "res = Done r"
      "\<not> retry d a \<or> \<not> snd (snd (dry_run a)) < 2 ^ 63"
    | n where "new = [\<lparr>told = n, room = next_cap cap n\<rparr>]"
      "res = Again (next_cap cap n)" "retry d a"
    | n r where "new = [\<lparr>told = n, room = next_cap cap n\<rparr>]"
      "res = Done r" "\<not> retry d a"
proof -
  obtain result errno sz where dry: "dry_run a = (result, errno, sz)" by (cases "dry_run a")
  obtain result' errno' entries where fill: "fill a sz = (result', errno', entries)" by (cases "fill a sz")
  let ?n = "sz div kinfo_size"
  have "?n * kinfo_size \<le> sz" by simp
  moreover have "(?n - cap) * kinfo_size \<le> ?n * kinfo_size" by simp
  ultimately have big: "2 ^ 63 \<le> (?n - cap) * kinfo_size \<Longrightarrow> \<not> sz < 2 ^ 63" by linarith
  note round = assms [unfolded processes_round_def dry Let_def prod.case fill reserve_next_cap]
  show thesis
  proof (cases "sint result < 0 \<or> cap < ?n \<and> cap < ?n - cap \<and> 2 ^ 63 \<le> (?n - cap) * kinfo_size")
    case True
    then have "new = []" "\<exists>r. res = Done r" using round dry by (auto split: if_splits)
    moreover have "\<not> retry d a \<or> \<not> snd (snd (dry_run a)) < 2 ^ 63"
      using True big dry by (auto simp: retry_def)
    ultimately show thesis using that(1) by blast
  next
    case False
    then have call: "new = [\<lparr>told = ?n, room = next_cap cap ?n\<rparr>]"
        "res = (if sint result' < 0 then
            if errno' = ENOMEM d then Again (next_cap cap ?n)
            else Done (Err (with_sysctl (Error_last_os_error errno') [CTL_KERN d, KERN_PROC d, KERN_PROC_ALL d]))
          else if da \<and> entries = [] then Done Panic else Done (Ok entries))"
      using round by (auto split: if_splits)
    show thesis
    proof (cases "sint result' < 0 \<and> errno' = ENOMEM d")
      case True
      with call False dry fill show thesis by (intro that(2)) (simp_all add: retry_def)
    next
      case nonfinal: False
      then have "\<exists>r. res = Done r" using call(2) by auto
      moreover have "\<not> retry d a" using nonfinal dry fill by (simp add: retry_def)
      ultimately show thesis using call(1) that(3) by blast
    qed
  qed
qed

lemma processes_loop_result:
  "processes_loop da d answers i cap calls = Some (cs, r) \<Longrightarrow>
     (\<exists>j\<ge>i. \<not> retry d (answers j) \<or> \<not> snd (snd (dry_run (answers j))) < 2 ^ 63) \<and>
     (\<exists>new. cs = calls @ new \<and> calls_from next_cap cap new)"
proof -
  let ?P = "\<lambda>da d answers i cap calls (cs, r :: (kinfo_proc list, heim_error) outcome).
     (\<exists>j\<ge>i. \<not> retry d (answers j) \<or> \<not> snd (snd (dry_run (answers j))) < 2 ^ 63) \<and>
     (\<exists>new. cs = calls @ new \<and> calls_from next_cap cap new)"
  assume loop: "processes_loop da d answers i cap calls = Some (cs, r)"
  have "?P da d answers i cap calls (cs, r)"
  proof (rule processes_loop.raw_induct [OF _ loop])
    fix loop da d answers i cap calls y
    assume IH: "\<And>da d answers i cap calls y. loop da d answers i cap calls = Some y \<Longrightarrow>
        ?P da d answers i cap calls y"
      and step: "(case processes_round da d (answers i) cap of
        (new, Again cap') \<Rightarrow> loop da d answers (Suc i) cap' (calls @ new)
      | (new, Done r) \<Rightarrow> Some (calls @ new, r)) = Some y"
    obtain new res where round: "processes_round da d (answers i) cap = (new, res)" by force
    from round show "?P da d answers i cap calls y"
    proof (cases rule: processes_round_cases)
      case (1 r)
      with step round show ?thesis by auto
    next
      case (2 n)
      with step round have "loop da d answers (Suc i) (next_cap cap n) (calls @ new) = Some y"
        by simp
      from IH [OF this] 2(1) show ?thesis by (auto split: prod.splits intro: Suc_leD)
    next
      case (3 n r)
      with step round show ?thesis by auto
    qed
  qed
  then show ?thesis by simp
qed

lemma processes_loop_returns:
  assumes "\<not> retry d (answers (i + k))"
  shows "\<exists>cs r. processes_loop da d answers i cap calls = Some (cs, r)"
  using assms
proof (induction k arbitrary: i cap calls)
  case 0
  obtain new res where round: "processes_round da d (answers i) cap = (new, res)" by force
  then obtain r where "res = Done r" using 0 by (cases rule: processes_round_cases) auto
  with round show ?case by (simp add: processes_loop.simps)
next
  case (Suc k)
  obtain new res where round: "processes_round da d (answers i) cap = (new, res)" by force
  show ?case
  proof (cases res)
    case (Again cap')
    with Suc.IH [of "Suc i" cap' "calls @ new"] Suc.prems round show ?thesis
      by (simp add: processes_loop.simps [of da d answers i])
  next
    case (Done r)
    then show ?thesis using round by (simp add: processes_loop.simps)
  qed
qed

text \<open>
  (C16) Listing all processes returns exactly when some round gets a final answer: as long as the
  kernel keeps answering that the list no longer fits, the loop keeps asking.
\<close>

theorem processes_return_iff:
  assumes "\<forall>i. snd (snd (dry_run (answers i))) < 2 ^ 63"
  shows "(\<exists>calls r. bindings_processes da d answers = Some (calls, r)) \<longleftrightarrow> (\<exists>i. \<not> retry d (answers i))"
  using processes_loop_returns [of d answers 0] processes_loop_result [of da d answers 0 0 "[]"] assms
  unfolding bindings_processes_def by fastforce

definition quiet_answer :: round_answer where
  "quiet_answer = \<lparr>dry_run = (0, 0, 648), fill = \<lambda>_. (0, 0, [sample_kinfo 1577 2])\<rparr>"

theorem processes_return_iff_witness:
  "\<exists>calls r. bindings_processes True (sample_darwin 1577 2) (\<lambda>_. quiet_answer) = Some (calls, r)"
  using processes_return_iff [of "\<lambda>_. quiet_answer" True "sample_darwin 1577 2"]
  by (simp add: quiet_answer_def retry_def)

interpretation macos_buffer: retry_buffer next_cap 1
  by unfold_locales (auto simp: next_cap_def)

text \<open>
  (C10) The buffer for the list of all processes: the first call never tells the kernel of more room
  than the buffer has. A repeated call does so exactly when there are more processes than the
  buffer of the call before holds (if that has room for one at all), which is why it is repeated: the vector is empty, so reserving the
  difference to its capacity does not make it large enough.
\<close>

theorem processes_buffer_room:
  assumes "bindings_processes da d answers = Some (calls, r)"
  shows "(calls \<noteq> [] \<longrightarrow> fits (hd calls)) \<and>
    (\<forall>k. Suc k < length calls \<and> 0 < room (calls ! k) \<longrightarrow>
      (fits (calls ! Suc k) \<longleftrightarrow> told (calls ! Suc k) \<le> room (calls ! k)))"
proof -
  have "calls_from next_cap 0 calls"
    using processes_loop_result assms unfolding bindings_processes_def by fastforce
  then show ?thesis using macos_buffer.calls_fit by (simp add: Suc_le_eq)
qed

definition grown_answers :: "nat \<Rightarrow> round_answer" where
  "grown_answers i =
     (if i = 0 then \<lparr>dry_run = (0, 0, 6480), fill = \<lambda>_. (-1, 12, [])\<rparr>
      else \<lparr>dry_run = (0, 0, 9720), fill = \<lambda>_. (0, 0, [sample_kinfo 1577 2])\<rparr>)"

theorem processes_buffer_room_witness:
  "\<exists>r. bindings_processes True (sample_darwin 1577 2) grown_answers =
      Some ([\<lparr>told = 10, room = 10\<rparr>, \<lparr>told = 15, room = 10\<rparr>], r) \<and>
    \<not> fits \<lparr>told = 15, room = 10\<rparr>"
proof -
  have "ENOMEM (sample_darwin 1577 2) = 12" by (simp add: sample_darwin_defs)
  then have run: "bindings_processes True (sample_darwin 1577 2) grown_answers =
      Some ([\<lparr>told = 10, room = 10\<rparr>, \<lparr>told = 15, room = 10\<rparr>], Ok [sample_kinfo 1577 2])"
    unfolding bindings_processes_def
    by (subst processes_loop.simps, simp add: processes_round_def grown_answers_def Let_def
        reserve_exact_def kinfo_size_def,
        subst processes_loop.simps, simp add: processes_round_def grown_answers_def Let_def
        reserve_exact_def kinfo_size_def)
  from processes_buffer_room [OF run] run show ?thesis by (auto simp: fits_def)
qed

section \<open>Command lines\<close>

text \<open>
  The errors of the command line of a macOS process: process zero is always denied without a
  system call; for any other process, when the kernel refuses the block, the answer \<open>EINVAL\<close> is a
  zombie if the process exists, an answer of kind permission denied is access denied, and everything
  else is passed on with the name of the call.
\<close>

theorem macos_command_errors:
  assumes einval: "io_kind (Os (EINVAL d)) \<noteq> PermissionDenied"
    and "argmax_answer d = (0, n)" "0 \<le> sint n"
    and "procargs_answer d (mp_pid p) (unat n) = (result, b)" "result \<noteq> 0" "4 \<le> length b"
  shows "macos_command d p =
    (if mp_pid p = 0 \<or> io_kind (Os (last_errno d)) = PermissionDenied then Err (AccessDenied (mp_pid p))
     else if last_errno d = EINVAL d \<and> pid_exists d (mp_pid p) then Err (ZombieProcess (mp_pid p))
     else Err (Load \<lparr>err_source = Os (last_errno d),
       err_context = Some (SysCtl [CTL_KERN d, KERN_PROCARGS2 d, mp_pid p])\<rparr>))"
proof -
  let ?e = "\<lparr>err_source = Os (last_errno d), err_context = Some (SysCtl [CTL_KERN d, KERN_PROCARGS2 d, mp_pid p])\<rparr>"
  have get: "ProcArgs_get d (mp_pid p) =
      (if mp_pid p = 0 then Err (Error_from_io (Simple PermissionDenied)) else Err ?e)"
    using assms by (simp add: ProcArgs_get_def proc_args_def sysctl_def Error_last_os_error_def with_context_defs)
  have e: "procargs_error d ?e pid = (if last_errno d = EINVAL d then
        if pid_exists d pid then ZombieProcess pid else Load ?e
      else if io_kind (Os (last_errno d)) = PermissionDenied then AccessDenied pid else Load ?e)" for pid
    by (simp add: procargs_error_def Error_raw_os_error_def Error_kind_def del: io_kind.simps(1))
  have zero: "procargs_error d (Error_from_io (Simple PermissionDenied)) pid = AccessDenied pid" for pid
    by (simp add: procargs_error_def Error_raw_os_error_def Error_kind_def Error_from_io_def)
  show ?thesis
    using einval by (simp add: macos_command_def get e zero del: io_kind.simps(1))
qed

theorem macos_command_errors_witness:
  "macos_command ((sample_darwin 1577 5)\<lparr>procargs_answer := \<lambda>_ _. (-1, [NUL, NUL, NUL, NUL]), last_errno := 22,
     kill_call := \<lambda>_ _. (0, 0)\<rparr>) (macos_handle_at 1577) = Err (ZombieProcess 42)"
proof -
  let ?d = "(sample_darwin 1577 5)\<lparr>procargs_answer := \<lambda>_ _. (-1, [NUL, NUL, NUL, NUL]), last_errno := 22,
     kill_call := \<lambda>_ _. (0, 0)\<rparr>"
  have d: "EINVAL ?d = 22" "argmax_answer ?d = (0, 262144)" "last_errno ?d = 22" "pid_exists ?d 42"
    "procargs_answer ?d 42 n = (-1, [NUL, NUL, NUL, NUL])" for n
    by (simp_all add: sample_darwin_defs pid_exists_def)
  have kind: "io_kind (Os 22) \<noteq> PermissionDenied" by (simp add: decode_error_kind_def)
  from macos_command_errors [of ?d 262144 "macos_handle_at 1577" "-1" "[NUL, NUL, NUL, NUL]"] kind
  show ?thesis
    by (simp add: d macos_handle_at_def del: darwin_host.simps macos_host.simps unix_host.simps host.simps io_kind.simps(1))
qed

end
