(* ===== verification/Repr_C.thy ===== *)
theory Repr_C
  imports Process_Macos
begin

text \<open>
  The layout of structures that are shared with a system, as Rust defines it for \<open>#[repr(C)]\<close>: fields
  in the order of their declaration, each at the next multiple of its alignment, the alignment of a
  structure that of its most demanding field, its size rounded up to it. Scalars are aligned to their
  size, as on the 64-bit systems the crates are built for.

  \<open>encode\<close> is the memory a value takes, with an arbitrary byte in the padding; \<open>field_of\<close> follows a path
  of field names and indices to an offset and a type, \<open>get\<close> reads the number there. The locale \<open>c_struct\<close>
  is the contract of a structure that is read field by field.

  The lemmas: sizes are multiples of alignments, a field lies within its structure at a multiple of its
  alignment, and the bytes at the offset of a field are the encoding
  of the value of that field.
\<close>

datatype ctype =
    Scalar nat
  | Array nat ctype
  | Struct "(string \<times> ctype) list"
  | Union "(string \<times> ctype) list"

definition round_up :: "nat \<Rightarrow> nat \<Rightarrow> nat" where
  "round_up a n = n + (a - n mod a) mod a"

fun align_of :: "ctype \<Rightarrow> nat" and align_of_fields :: "(string \<times> ctype) list \<Rightarrow> nat" where
  "align_of (Scalar n) = n"
| "align_of (Array k t) = align_of t"
| "align_of (Struct fs) = align_of_fields fs"
| "align_of (Union fs) = align_of_fields fs"
| "align_of_fields [] = 1"
| "align_of_fields ((f, t) # fs) = max (align_of t) (align_of_fields fs)"

text \<open>\<open>end_of\<close> is the end of the last field when the first may start at a given offset.\<close>

fun size_of :: "ctype \<Rightarrow> nat"
  and end_of :: "nat \<Rightarrow> (string \<times> ctype) list \<Rightarrow> nat"
  and biggest :: "(string \<times> ctype) list \<Rightarrow> nat" where
  "size_of (Scalar n) = n"
| "size_of (Array k t) = k * size_of t"
| "size_of (Struct fs) = round_up (align_of_fields fs) (end_of 0 fs)"
| "size_of (Union fs) = round_up (align_of_fields fs) (biggest fs)"
| "end_of off [] = off"
| "end_of off ((f, t) # fs) = end_of (round_up (align_of t) off + size_of t) fs"
| "biggest [] = 0"
| "biggest ((f, t) # fs) = max (size_of t) (biggest fs)"

fun offset_in :: "nat \<Rightarrow> (string \<times> ctype) list \<Rightarrow> string \<Rightarrow> (nat \<times> ctype) option" where
  "offset_in off [] f = None"
| "offset_in off ((g, t) # fs) f =
     (let pos = round_up (align_of t) off in
      if g = f then Some (pos, t) else offset_in (pos + size_of t) fs f)"

datatype step = Fld string | Idx nat

type_synonym path_in = "step list"

fun field_of :: "ctype \<Rightarrow> path_in \<Rightarrow> (nat \<times> ctype) option" where
  "field_of t [] = Some (0, t)"
| "field_of (Struct fs) (Fld f # p) =
     (case offset_in 0 fs f of
        None \<Rightarrow> None
      | Some (off, t) \<Rightarrow> map_option (\<lambda>(off', t'). (off + off', t')) (field_of t p))"
| "field_of (Union fs) (Fld f # p) = (case map_of fs f of None \<Rightarrow> None | Some t \<Rightarrow> field_of t p)"
| "field_of (Array k t) (Idx i # p) =
     (if i < k then map_option (\<lambda>(off', t'). (i * size_of t + off', t')) (field_of t p) else None)"
| "field_of _ (_ # p) = None"

text \<open>Types as they are declared: scalars of the usual widths, fields with different names.\<close>

fun ctype_ok :: "ctype \<Rightarrow> bool" and fields_ok :: "(string \<times> ctype) list \<Rightarrow> bool" where
  "ctype_ok (Scalar n) \<longleftrightarrow> n \<in> {1, 2, 4, 8}"
| "ctype_ok (Array k t) \<longleftrightarrow> ctype_ok t"
| "ctype_ok (Struct fs) \<longleftrightarrow> fields_ok fs"
| "ctype_ok (Union fs) \<longleftrightarrow> fields_ok fs"
| "fields_ok [] \<longleftrightarrow> True"
| "fields_ok ((f, t) # fs) \<longleftrightarrow> ctype_ok t \<and> f \<notin> fst ` set fs \<and> fields_ok fs"

section \<open>Alignment\<close>

lemma round_up_ge: "n \<le> round_up a n"
  by (simp add: round_up_def)

lemma round_up_dvd [simp]: "0 < a \<Longrightarrow> a dvd round_up a n"
proof -
  assume a: "0 < a"
  have "(n + (a - n mod a)) mod a = (n mod a + (a - n mod a)) mod a" by (simp add: mod_add_left_eq)
  also have "\<dots> = 0" using mod_less_divisor [OF a, of n] by simp
  finally show ?thesis by (simp add: round_up_def mod_add_right_eq dvd_eq_mod_eq_0)
qed

lemma round_up_less: "0 < a \<Longrightarrow> round_up a n < n + a"
  by (simp add: round_up_def)

lemma round_up_id: "a dvd n \<Longrightarrow> round_up a n = n"
  by (auto simp: round_up_def dvd_eq_mod_eq_0)

text \<open>Alignments are powers of two, so the larger of two is a multiple of the smaller.\<close>

definition aligns :: "nat set" where "aligns = {1, 2, 4, 8}"

lemma aligns_dvd: "a \<in> aligns \<Longrightarrow> b \<in> aligns \<Longrightarrow> a \<le> b \<Longrightarrow> a dvd b"
  by (auto simp: aligns_def)

lemma aligns_pos: "a \<in> aligns \<Longrightarrow> 0 < a"
  by (auto simp: aligns_def)

lemma align_of_aligns:
  "ctype_ok t \<Longrightarrow> align_of t \<in> aligns" "fields_ok fs \<Longrightarrow> align_of_fields fs \<in> aligns"
  by (induction t and fs rule: align_of_align_of_fields.induct) (auto simp: aligns_def max_def)

lemmas align_pos = align_of_aligns [THEN aligns_pos]

lemma align_dvd_size: "ctype_ok t \<Longrightarrow> align_of t dvd size_of t"
  by (induction t) (simp_all add: align_pos)

lemma align_field_le: "(f, t) \<in> set fs \<Longrightarrow> align_of t \<le> align_of_fields fs"
  by (induction fs) (auto simp: max_def)

lemma fields_ok_member: "fields_ok fs \<Longrightarrow> (f, t) \<in> set fs \<Longrightarrow> ctype_ok t"
  by (induction fs) auto

lemma align_field_dvd: "fields_ok fs \<Longrightarrow> (f, t) \<in> set fs \<Longrightarrow> align_of t dvd align_of_fields fs"
  by (meson aligns_dvd align_of_aligns align_field_le fields_ok_member)

section \<open>Fields\<close>

lemma end_of_ge: "off \<le> end_of off fs"
proof (induction fs arbitrary: off)
  case (Cons x fs)
  obtain f t where x: "x = (f, t)" by force
  show ?case
    using Cons.IH [of "round_up (align_of t) off + size_of t"] round_up_ge [of off "align_of t"] by (simp add: x)
qed simp

lemma offset_in_member: "offset_in off fs f = Some (pos, t) \<Longrightarrow> (f, t) \<in> set fs"
  by (induction off fs f rule: offset_in.induct) (auto simp: Let_def split: if_splits)

lemma offset_in_bounds:
  "offset_in off fs f = Some (pos, t) \<Longrightarrow> off \<le> pos \<and> pos + size_of t \<le> end_of off fs"
proof (induction off fs f rule: offset_in.induct)
  case (2 off g u fs f)
  show ?case
  proof (cases "g = f")
    case True
    with 2(2) show ?thesis using end_of_ge [of "pos + size_of t" fs] by (auto simp: Let_def round_up_ge)
  next
    case False
    then have "round_up (align_of u) off + size_of u \<le> pos \<and> pos + size_of t \<le> end_of off ((g, u) # fs)"
      using 2 by (simp add: Let_def)
    then show ?thesis using round_up_ge [of off "align_of u"] by linarith
  qed
qed simp

lemma offset_in_aligned:
  "fields_ok fs \<Longrightarrow> offset_in off fs f = Some (pos, t) \<Longrightarrow> align_of t dvd pos"
  by (induction off fs f rule: offset_in.induct) (auto simp: Let_def align_pos split: if_splits)

lemma index_fits: "i < k \<Longrightarrow> i * n + n \<le> k * n" for i k n :: nat
  by (metis Suc_leI add.commute mult_Suc mult_le_mono1)

lemma biggest_member: "(f, t) \<in> set fs \<Longrightarrow> size_of t \<le> biggest fs"
  by (induction fs) (auto simp: max_def)

lemma field_of_sound:
  "ctype_ok t \<Longrightarrow> field_of t p = Some (off, u) \<Longrightarrow>
    ctype_ok u \<and> align_of u dvd off \<and> align_of u dvd align_of t \<and> off + size_of u \<le> size_of t"
proof (induction t p arbitrary: off rule: field_of.induct)
  case (2 fs f p)
  then obtain a w off' where w: "offset_in 0 fs f = Some (a, w)" "field_of w p = Some (off', u)" "off = a + off'"
    by (auto split: option.splits)
  have mem: "(f, w) \<in> set fs" using w(1) by (rule offset_in_member)
  have ok: "fields_ok fs" "ctype_ok w" using 2(2) fields_ok_member [OF _ mem] by simp_all
  have IH: "ctype_ok u \<and> align_of u dvd off' \<and> align_of u dvd align_of w \<and> off' + size_of u \<le> size_of w"
    using 2(1) w ok by simp
  have "align_of w dvd a" using ok(1) w(1) by (rule offset_in_aligned)
  then have "align_of u dvd off" using IH w(3) by (meson dvd_add dvd_trans)
  moreover have "align_of u dvd align_of (Struct fs)"
    using IH align_field_dvd [OF ok(1) mem] by (auto dest: dvd_trans)
  moreover have "off + size_of u \<le> size_of (Struct fs)"
    using offset_in_bounds [OF w(1)] IH w(3) round_up_ge [of "end_of 0 fs" "align_of_fields fs"] by simp
  ultimately show ?case using IH by simp
next
  case (3 fs f p)
  then obtain w where w: "map_of fs f = Some w" "field_of w p = Some (off, u)" by (auto split: option.splits)
  have mem: "(f, w) \<in> set fs" using w(1) by (rule map_of_SomeD)
  have ok: "fields_ok fs" "ctype_ok w" using 3(2) fields_ok_member [OF _ mem] by simp_all
  have IH: "ctype_ok u \<and> align_of u dvd off \<and> align_of u dvd align_of w \<and> off + size_of u \<le> size_of w"
    using 3(1) w ok by simp
  then show ?case
    using align_field_dvd [OF ok(1) mem] biggest_member [OF mem]
      round_up_ge [of "biggest fs" "align_of_fields fs"] by (auto dest: dvd_trans)
next
  case (4 k t i p)
  then obtain off' where off: "i < k" "field_of t p = Some (off', u)" "off = i * size_of t + off'"
    by (auto split: if_splits)
  have IH: "ctype_ok u \<and> align_of u dvd off' \<and> align_of u dvd align_of t \<and> off' + size_of u \<le> size_of t"
    using 4(1,2) off by simp
  have "align_of u dvd size_of t" using IH align_dvd_size [of t] 4(2) by (auto dest: dvd_trans)
  moreover have "off + size_of u \<le> k * size_of t"
    using index_fits [OF off(1), of "size_of t"] IH off(3) by linarith
  ultimately show ?case using IH off(3) by simp
qed simp_all

section \<open>Values in memory\<close>

datatype cval = Num nat | Vec "cval list" | Rec "cval list" | Variant string cval

definition scalar_mem :: "bool \<Rightarrow> nat \<Rightarrow> nat \<Rightarrow> bytes" where
  "scalar_mem be n x = map (\<lambda>b. char_of (unat b)) (mem_octets be n x)"

text \<open>\<open>fill_to\<close> appends padding bytes \<open>z\<close> up to a length.\<close>

definition fill_to :: "char \<Rightarrow> nat \<Rightarrow> bytes \<Rightarrow> bytes" where
  "fill_to z n b = b @ replicate (n - length b) z"

fun encode :: "bool \<Rightarrow> char \<Rightarrow> ctype \<Rightarrow> cval \<Rightarrow> bytes"
  and encode_list :: "bool \<Rightarrow> char \<Rightarrow> ctype \<Rightarrow> cval list \<Rightarrow> bytes"
  and encode_fields :: "bool \<Rightarrow> char \<Rightarrow> bytes \<Rightarrow> (string \<times> ctype) list \<Rightarrow> cval list \<Rightarrow> bytes" where
  "encode be z (Scalar n) (Num x) = scalar_mem be n x"
| "encode be z (Array k t) (Vec vs) = encode_list be z t vs"
| "encode be z (Struct fs) (Rec vs) = fill_to z (size_of (Struct fs)) (encode_fields be z [] fs vs)"
| "encode be z (Union fs) (Variant f v) =
     (case map_of fs f of
        Some t \<Rightarrow> fill_to z (size_of (Union fs)) (encode be z t v)
      | None \<Rightarrow> [])"
| "encode be z _ _ = []"
| "encode_list be z t [] = []"
| "encode_list be z t (v # vs) = encode be z t v @ encode_list be z t vs"
| "encode_fields be z b [] vs = b"
| "encode_fields be z b fs [] = b"
| "encode_fields be z b ((f, t) # fs) (v # vs) =
     encode_fields be z (fill_to z (round_up (align_of t) (length b)) b @ encode be z t v) fs vs"

text \<open>Values of a type.\<close>

fun cval_ok :: "ctype \<Rightarrow> cval \<Rightarrow> bool"
  and cvals_ok :: "ctype \<Rightarrow> cval list \<Rightarrow> bool"
  and fvals_ok :: "(string \<times> ctype) list \<Rightarrow> cval list \<Rightarrow> bool" where
  "cval_ok (Scalar n) (Num x) \<longleftrightarrow> x < 256 ^ n"
| "cval_ok (Array k t) (Vec vs) \<longleftrightarrow> length vs = k \<and> cvals_ok t vs"
| "cval_ok (Struct fs) (Rec vs) \<longleftrightarrow> fvals_ok fs vs"
| "cval_ok (Union fs) (Variant f v) \<longleftrightarrow> (case map_of fs f of Some t \<Rightarrow> cval_ok t v | None \<Rightarrow> False)"
| "cval_ok _ _ \<longleftrightarrow> False"
| "cvals_ok t [] \<longleftrightarrow> True"
| "cvals_ok t (v # vs) \<longleftrightarrow> cval_ok t v \<and> cvals_ok t vs"
| "fvals_ok [] [] \<longleftrightarrow> True"
| "fvals_ok ((f, t) # fs) (v # vs) \<longleftrightarrow> cval_ok t v \<and> fvals_ok fs vs"
| "fvals_ok _ _ \<longleftrightarrow> False"

fun val_in :: "(string \<times> ctype) list \<Rightarrow> cval list \<Rightarrow> string \<Rightarrow> cval option" where
  "val_in ((g, t) # fs) (v # vs) f = (if g = f then Some v else val_in fs vs f)"
| "val_in _ _ f = None"

fun val_at :: "ctype \<Rightarrow> cval \<Rightarrow> path_in \<Rightarrow> cval option" where
  "val_at t v [] = Some v"
| "val_at (Struct fs) (Rec vs) (Fld f # p) =
     (case (map_of fs f, val_in fs vs f) of (Some t, Some v) \<Rightarrow> val_at t v p | _ \<Rightarrow> None)"
| "val_at (Union fs) (Variant g v) (Fld f # p) =
     (case map_of fs f of Some t \<Rightarrow> if f = g then val_at t v p else None | None \<Rightarrow> None)"
| "val_at (Array k t) (Vec vs) (Idx i # p) = (if i < length vs then val_at t (vs ! i) p else None)"
| "val_at _ _ (_ # p) = None"

lemma length_scalar_mem [simp]: "length (scalar_mem be n x) = n"
  by (simp add: scalar_mem_def mem_octets_def)

lemma length_fill_to [simp]: "length b \<le> n \<Longrightarrow> length (fill_to z n b) = n"
  by (simp add: fill_to_def)

lemma length_encode:
  "ctype_ok t \<Longrightarrow> cval_ok t v \<Longrightarrow> length (encode be z t v) = size_of t"
  "ctype_ok t \<Longrightarrow> cvals_ok t vs \<Longrightarrow> length (encode_list be z t vs) = length vs * size_of t"
  "fields_ok fs \<Longrightarrow> fvals_ok fs vs \<Longrightarrow> length (encode_fields be z b fs vs) = end_of (length b) fs"
proof (induction be z t v and be z t vs and be z b fs vs rule: encode_encode_list_encode_fields.induct)
  case (3 be z fs vs)
  then show ?case by (simp add: round_up_ge)
next
  case (4 be z fs f v)
  then obtain t where t: "map_of fs f = Some t" "cval_ok t v" by (auto split: option.splits)
  then have mem: "(f, t) \<in> set fs" by (auto dest: map_of_SomeD)
  have "size_of t \<le> size_of (Union fs)"
    using biggest_member [OF mem] round_up_ge [of "biggest fs" "align_of_fields fs"] by simp
  moreover have "length (encode be z t v) = size_of t"
    using 4 t fields_ok_member [OF _ mem] by simp
  ultimately show ?case using t by simp
qed (simp_all add: round_up_ge)

text \<open>What is written before stays in front, and each field is written at its offset.\<close>

lemma encode_fields_prefix: "\<exists>r. encode_fields be z b fs vs = b @ r"
proof (induction fs arbitrary: b vs)
  case (Cons x fs)
  obtain f t where x: "x = (f, t)" by force
  show ?case
  proof (cases vs)
    case (Cons v vs')
    then show ?thesis
      using Cons.IH [of "fill_to z (round_up (align_of t) (length b)) b @ encode be z t v" vs']
      by (auto simp: x fill_to_def)
  qed simp
qed simp

lemma encode_fields_at:
  assumes "fields_ok fs" "fvals_ok fs vs" "offset_in (length b) fs f = Some (off, t)"
  shows "\<exists>v. map_of fs f = Some t \<and> val_in fs vs f = Some v \<and> cval_ok t v \<and>
    take (size_of t) (drop off (encode_fields be z b fs vs)) = encode be z t v"
  using assms
proof (induction fs arbitrary: vs b)
  case (Cons x fs)
  obtain g u where x: "x = (g, u)" by force
  obtain v vs' where vs: "vs = v # vs'" using Cons.prems(2) by (cases vs) (auto simp: x)
  let ?b = "fill_to z (round_up (align_of u) (length b)) b @ encode be z u v"
  have u: "ctype_ok u" "cval_ok u v" using Cons.prems by (simp_all add: x vs)
  then have len: "length (encode be z u v) = size_of u" by (rule length_encode)
  show ?case
  proof (cases "g = f")
    case True
    obtain r where "encode_fields be z ?b fs vs' = ?b @ r" using encode_fields_prefix by blast
    then show ?thesis using True Cons.prems u len by (auto simp: x vs Let_def round_up_ge)
  next
    case False
    then show ?thesis
      using Cons.IH [of vs' ?b] Cons.prems len by (auto simp: x vs Let_def round_up_ge)
  qed
qed simp

lemma take_drop_inner: "off + n \<le> k \<Longrightarrow> take n (drop off (take k (drop a b))) = take n (drop (a + off) b)"
  by (simp add: drop_take min_def add.commute)

lemma encode_list_at:
  assumes "ctype_ok t" "cvals_ok t vs" "i < length vs"
  shows "cval_ok t (vs ! i) \<and> take (size_of t) (drop (i * size_of t) (encode_list be z t vs @ rest)) =
    encode be z t (vs ! i)"
  using assms
proof (induction vs arbitrary: i)
  case (Cons v vs)
  have len: "length (encode be z t v) = size_of t" using Cons.prems by (simp add: length_encode)
  show ?case using Cons.prems Cons.IH [of "i - 1"] len by (cases i) auto
qed simp

lemma take_drop_append: "off + n \<le> length b \<Longrightarrow> take n (drop off (b @ r)) = take n (drop off b)"
  by simp

text \<open>The bytes at the offset of a field are the encoding of its value.\<close>

lemma encode_at:
  "ctype_ok t \<Longrightarrow> cval_ok t v \<Longrightarrow> field_of t p = Some (off, u) \<Longrightarrow> val_at t v p = Some w \<Longrightarrow>
    cval_ok u w \<and> take (size_of u) (drop off (encode be z t v)) = encode be z u w"
proof (induction t p arbitrary: v off rule: field_of.induct)
  case (1 t)
  then show ?case by (simp add: length_encode)
next
  case (2 fs f p)
  then obtain a s off' where s: "offset_in 0 fs f = Some (a, s)" "field_of s p = Some (off', u)" "off = a + off'"
    by (auto split: option.splits)
  obtain vs where vs: "v = Rec vs" "fvals_ok fs vs" using 2 by (cases v) auto
  have ok: "fields_ok fs" "ctype_ok s" using 2(2) fields_ok_member offset_in_member [OF s(1)] by auto
  obtain x where x: "map_of fs f = Some s" "val_in fs vs f = Some x" "cval_ok s x"
      "take (size_of s) (drop a (encode_fields be z [] fs vs)) = encode be z s x"
    using encode_fields_at [of fs vs "[]" f a s be z] ok(1) vs(2) s(1) by auto
  have IH: "cval_ok u w \<and> take (size_of u) (drop off' (encode be z s x)) = encode be z u w"
    using 2(1) [of "(a, s)" a s x off'] 2(5) s ok(2) vs x by simp
  have fit: "off' + size_of u \<le> size_of s" using field_of_sound [OF ok(2) s(2)] by simp
  have "a + size_of s \<le> length (encode_fields be z [] fs vs)"
    using offset_in_bounds [OF s(1)] length_encode(3) [OF ok(1) vs(2), of be z "[]"] by simp
  then have "take (size_of u) (drop off (encode be z (Struct fs) v)) =
      take (size_of u) (drop off' (take (size_of s) (drop a (encode_fields be z [] fs vs))))"
    using fit by (simp add: vs s(3) fill_to_def take_drop_append take_drop_inner)
  then show ?case using IH x(4) by simp
next
  case (3 fs f p)
  then obtain s where s: "map_of fs f = Some s" "field_of s p = Some (off, u)" by (auto split: option.splits)
  obtain x where x: "v = Variant f x" "val_at s x p = Some w" "cval_ok s x"
    using 3 s by (cases v) (auto split: if_splits)
  have ok: "ctype_ok s" using 3(2) fields_ok_member map_of_SomeD [OF s(1)] by auto
  have IH: "cval_ok u w \<and> take (size_of u) (drop off (encode be z s x)) = encode be z u w"
    using 3(1) [of s x off] s x ok by simp
  have "off + size_of u \<le> length (encode be z s x)"
    using field_of_sound [OF ok s(2)] length_encode(1) [OF ok x(3), of be z] by simp
  then show ?case using IH by (simp add: x s fill_to_def)
next
  case (4 k t i p)
  then obtain off' where off: "i < k" "field_of t p = Some (off', u)" "off = i * size_of t + off'"
    by (auto split: if_splits)
  obtain vs where vs: "v = Vec vs" "length vs = k" "cvals_ok t vs" using 4 by (cases v) auto
  have ok: "ctype_ok t" using 4(2) by simp
  have w: "val_at t (vs ! i) p = Some w" using 4(5) vs off(1) by simp
  have el: "cval_ok t (vs ! i)" "take (size_of t) (drop (i * size_of t) (encode_list be z t vs)) = encode be z t (vs ! i)"
    using encode_list_at [OF ok vs(3), of i be z "[]"] vs(2) off(1) by simp_all
  have IH: "cval_ok u w \<and> take (size_of u) (drop off' (encode be z t (vs ! i))) = encode be z u w"
    using 4(1) ok off el(1) w by simp
  have "off' + size_of u \<le> size_of t" using field_of_sound [OF ok off(2)] by simp
  then show ?case
    using IH el(2) by (simp add: vs(1) off(3) flip: take_drop_inner [of off' "size_of u" "size_of t" "i * size_of t"])
qed simp_all

text \<open>Reading a scalar field of a structure gives its value.\<close>

lemma octets_of_mem: "map (\<lambda>c. of_nat (byte c)) (scalar_mem be n x) = mem_octets be n x"
proof -
  have "of_nat (byte (char_of (unat b))) = b" for b :: u8
    using unsigned_less [of b] by (simp add: byte_def)
  then show ?thesis by (simp add: scalar_mem_def o_def map_idI)
qed

lemma field_at_encode:
  assumes "ctype_ok t" "cval_ok t v" "field_of t p = Some (off, Scalar n)" "val_at t v p = Some (Num x)"
  shows "field_at be off n (encode be z t v) = x"
  using encode_at [OF assms, of be z] by (simp add: field_at_def octets_of_mem mem_value_mem_octets)

section \<open>Structures that are read field by field\<close>

definition get :: "bool \<Rightarrow> ctype \<Rightarrow> bytes \<Rightarrow> path_in \<Rightarrow> nat" where
  "get be t b p = (case field_of t p of Some (off, u) \<Rightarrow> field_at be off (size_of u) b | None \<Rightarrow> 0)"

text \<open>The value at a path; a field of a union only has one while the union holds that variant.\<close>

definition num_at :: "ctype \<Rightarrow> cval \<Rightarrow> path_in \<Rightarrow> nat" where
  "num_at t v p = (case val_at t v p of Some (Num x) \<Rightarrow> x | _ \<Rightarrow> 0)"

definition has_num :: "ctype \<Rightarrow> cval \<Rightarrow> path_in \<Rightarrow> bool" where
  "has_num t v p = (case val_at t v p of Some (Num x) \<Rightarrow> True | _ \<Rightarrow> False)"

definition scalar_path :: "ctype \<Rightarrow> path_in \<Rightarrow> bool" where
  "scalar_path t p = (case field_of t p of Some (off, Scalar n) \<Rightarrow> True | _ \<Rightarrow> False)"

text \<open>The items of a vector that starts at an address: so many structures one behind the other.\<close>

definition items_at :: "ctype \<Rightarrow> (bytes \<Rightarrow> 'a) \<Rightarrow> nat \<Rightarrow> bytes \<Rightarrow> 'a list" where
  "items_at t read_item n mem = map (\<lambda>i. read_item (take (size_of t) (drop (i * size_of t) mem))) [0..<n]"

lemma scalar_path_iff: "scalar_path t p \<longleftrightarrow> (\<exists>off n. field_of t p = Some (off, Scalar n))"
proof (cases "field_of t p")
  case (Some x)
  then show ?thesis by (cases x; cases "snd x") (auto simp: scalar_path_def)
qed (simp add: scalar_path_def)

lemma has_num_iff: "has_num t v p \<longleftrightarrow> (\<exists>x. val_at t v p = Some (Num x))"
proof (cases "val_at t v p")
  case (Some x)
  then show ?thesis by (cases x) (auto simp: has_num_def)
qed (simp add: has_num_def)

lemma get_encode:
  assumes "ctype_ok t" "cval_ok t v" "scalar_path t p" "has_num t v p"
  shows "get be t (encode be z t v) p = num_at t v p"
proof -
  obtain off n where f: "field_of t p = Some (off, Scalar n)"
    using assms(3) by (auto simp: scalar_path_iff)
  obtain x where "val_at t v p = Some (Num x)" using assms(4) by (auto simp: has_num_iff)
  then show ?thesis using field_at_encode [OF assms(1,2) f] f by (simp add: get_def num_at_def)
qed

lemma get_take: "ctype_ok t \<Longrightarrow> get be t (take (size_of t) b) = get be t b"
proof
  fix p assume ok: "ctype_ok t"
  show "get be t (take (size_of t) b) p = get be t b p"
  proof (cases "field_of t p")
    case (Some x)
    obtain off u where x: "x = (off, u)" by force
    have "off + size_of u \<le> size_of t" using field_of_sound [OF ok, of p off u] Some x by simp
    then show ?thesis by (simp add: get_def Some x field_at_take)
  qed (simp add: get_def)
qed

text \<open>In a type without unions every value has a number at every scalar.\<close>

fun no_union :: "ctype \<Rightarrow> bool" and no_unions :: "(string \<times> ctype) list \<Rightarrow> bool" where
  "no_union (Scalar n) \<longleftrightarrow> True"
| "no_union (Array k t) \<longleftrightarrow> no_union t"
| "no_union (Struct fs) \<longleftrightarrow> no_unions fs"
| "no_union (Union fs) \<longleftrightarrow> False"
| "no_unions [] \<longleftrightarrow> True"
| "no_unions ((f, t) # fs) \<longleftrightarrow> no_union t \<and> no_unions fs"

lemma no_unions_member: "no_unions fs \<Longrightarrow> (f, t) \<in> set fs \<Longrightarrow> no_union t"
  by (induction fs) auto

lemma cvals_ok_nth: "cvals_ok t vs \<Longrightarrow> i < length vs \<Longrightarrow> cval_ok t (vs ! i)"
  by (induction vs arbitrary: i) (auto simp: nth_Cons split: nat.splits)

lemma no_union_val:
  "ctype_ok t \<Longrightarrow> no_union t \<Longrightarrow> cval_ok t v \<Longrightarrow> field_of t p = Some (off, Scalar n) \<Longrightarrow>
    \<exists>x. val_at t v p = Some (Num x)"
proof (induction t p arbitrary: v off rule: field_of.induct)
  case (1 t)
  then show ?case by (cases v) auto
next
  case (2 fs f p)
  then obtain a s off' where s: "offset_in 0 fs f = Some (a, s)" "field_of s p = Some (off', Scalar n)"
    by (auto split: option.splits)
  obtain vs where vs: "v = Rec vs" "fvals_ok fs vs" using 2 by (cases v) auto
  have mem: "(f, s) \<in> set fs" using s(1) by (rule offset_in_member)
  obtain x where "map_of fs f = Some s" "val_in fs vs f = Some x" "cval_ok s x"
    using encode_fields_at [of fs vs "[]" f a s] 2(2) vs(2) s(1) by auto
  then show ?case
    using 2(1) [of "(a, s)" a s x off'] 2(2,3) s vs fields_ok_member [OF _ mem] no_unions_member [OF _ mem] by simp
next
  case (4 k t i p)
  then obtain vs where vs: "v = Vec vs" "length vs = k" "cvals_ok t vs" by (cases v) auto
  then show ?case using 4 cvals_ok_nth [OF vs(3)] by (auto split: if_splits)
qed simp_all

lemma no_union_has_num:
  "ctype_ok t \<Longrightarrow> no_union t \<Longrightarrow> cval_ok t v \<Longrightarrow> scalar_path t p \<Longrightarrow> has_num t v p"
  by (auto simp: scalar_path_iff has_num_iff dest: no_union_val)

text \<open>
  The contract: a type as it is declared, the paths that are read, and a record made of the numbers at
  these paths.
\<close>

locale c_struct =
  fixes t :: ctype and paths :: "path_in list" and view :: "(path_in \<Rightarrow> nat) \<Rightarrow> 'a"
  assumes type_ok: "ctype_ok t"
    and scalars: "list_all (scalar_path t) paths"
    and view_cong: "(\<And>p. p \<in> set paths \<Longrightarrow> f p = g p) \<Longrightarrow> view f = view g"
begin

lemma read_encode:
  assumes "cval_ok t v" "list_all (has_num t v) paths"
  shows "view (get be t (encode be z t v)) = view (num_at t v)"
  using assms scalars type_ok by (auto intro!: view_cong get_encode simp: list_all_iff)

lemma read_within: "view (get be t (take (size_of t) b)) = view (get be t b)"
  using type_ok by (simp add: get_take)

lemma read_items:
  assumes "cvals_ok t vs" "list_all (\<lambda>v. list_all (has_num t v) paths) vs"
  shows "items_at t (\<lambda>b. view (get be t b)) (length vs) (encode_list be z t vs @ rest) =
    map (\<lambda>v. view (num_at t v)) vs"
proof (rule nth_equalityI)
  fix i assume "i < length (items_at t (\<lambda>b. view (get be t b)) (length vs) (encode_list be z t vs @ rest))"
  then have i: "i < length vs" by (simp add: items_at_def)
  then show "items_at t (\<lambda>b. view (get be t b)) (length vs) (encode_list be z t vs @ rest) ! i =
      map (\<lambda>v. view (num_at t v)) vs ! i"
    using encode_list_at [OF type_ok assms(1) i, of be z rest] read_encode [of "vs ! i" be z] assms(2)
    by (simp add: items_at_def list_all_length)
qed (simp add: items_at_def)

lemma count_items: "0 < size_of t \<Longrightarrow> cvals_ok t vs \<Longrightarrow> length (encode_list be z t vs) div size_of t = length vs"
  using type_ok by (simp add: length_encode)

end

text \<open>Structures without unions always have numbers at their paths.\<close>

locale flat_struct = c_struct +
  assumes flat: "no_union t"
begin

lemma has_nums: "cval_ok t v \<Longrightarrow> list_all (has_num t v) paths"
  using scalars type_ok flat by (auto simp: list_all_iff intro: no_union_has_num)

lemma has_nums_list: "cvals_ok t vs \<Longrightarrow> list_all (\<lambda>v. list_all (has_num t v) paths) vs"
  by (induction vs) (auto intro: has_nums)

lemma read_flat: "cval_ok t v \<Longrightarrow> view (get be t (encode be z t v)) = view (num_at t v)"
  by (simp add: read_encode has_nums)

lemma read_flat_items:
  "cvals_ok t vs \<Longrightarrow> items_at t (\<lambda>b. view (get be t b)) (length vs) (encode_list be z t vs @ rest) =
    map (\<lambda>v. view (num_at t v)) vs"
  by (simp add: read_items has_nums_list)

text \<open>The first of several items only needs the first structure in memory.\<close>

lemma read_flat_first:
  assumes "cval_ok t v" "0 < n"
  shows "\<exists>xs. items_at t (\<lambda>b. view (get be t b)) n (encode be z t v @ rest) = view (num_at t v) # xs"
proof -
  have "size_of t = length (encode be z t v)" using assms(1) type_ok by (simp add: length_encode)
  then have "take (size_of t) (drop (0 * size_of t) (encode be z t v @ rest)) = encode be z t v" by simp
  then have "view (get be t (take (size_of t) (drop (0 * size_of t) (encode be z t v @ rest)))) = view (num_at t v)"
    using read_flat [OF assms(1), of be z] by simp
  then show ?thesis using assms(2) by (auto simp: items_at_def upt_conv_Cons)
qed

end

text \<open>Numbers are within the width of their field.\<close>

lemma num_at_less:
  assumes "ctype_ok t" "cval_ok t v" "field_of t p = Some (off, Scalar n)"
  shows "num_at t v p < 256 ^ n"
proof (cases "val_at t v p")
  case (Some w)
  then show ?thesis
    using encode_at [OF assms Some, of False NUL] by (cases w) (auto simp: num_at_def)
qed (simp add: num_at_def)

end
