(* ===== verification/Net_Macos.thy ===== *)
theory Net_Macos
  imports Repr_C
begin

text \<open>
  Network counters on macOS: \<open>heim-net/src/sys/macos\<close>. The kernel answers one buffer of routing
  messages of various lengths; the iterator \<open>Routes\<close> walks it by the length in each header and
  yields the messages that describe an interface.

  The iterator reads a whole \<open>if_msghdr2\<close> without looking at how many bytes are left; \<open>beyond\<close> stands
  for the memory behind the buffer. Headers and messages are read through the declared structures, of which
  \<open>timeval\<close> is that of \<open>libc\<close>.

  The theorems: a buffer of complete messages yields exactly the interface messages, in order, without
  reading behind the buffer; a message of length zero that is no interface message never lets the
  iterator return; a buffer that ends right behind a header is a panic.
\<close>

section \<open>Declarations\<close>

record libc_types =
  timeval_t :: ctype
  itimerval_t :: ctype
  xucred_t :: ctype

text \<open>The structures of \<open>libc\<close> as the headers of macOS declare them.\<close>

definition libc_ok :: "libc_types \<Rightarrow> bool" where
  "libc_ok L \<longleftrightarrow>
     timeval_t L = Struct [(''tv_sec'', Scalar 8), (''tv_usec'', Scalar 4)] \<and>
     itimerval_t L = Struct [(''it_interval'', timeval_t L), (''it_value'', timeval_t L)] \<and>
     xucred_t L = Struct [(''cr_version'', Scalar 4), (''cr_uid'', Scalar 4), (''cr_ngroups'', Scalar 2),
       (''cr_groups'', Array 16 (Scalar 4))]"

lemma libc_simps:
  assumes "libc_ok L"
  shows "timeval_t L = Struct [(''tv_sec'', Scalar 8), (''tv_usec'', Scalar 4)]"
    "itimerval_t L = Struct [(''it_interval'', Struct [(''tv_sec'', Scalar 8), (''tv_usec'', Scalar 4)]),
       (''it_value'', Struct [(''tv_sec'', Scalar 8), (''tv_usec'', Scalar 4)])]"
    "xucred_t L = Struct [(''cr_version'', Scalar 4), (''cr_uid'', Scalar 4), (''cr_ngroups'', Scalar 2),
       (''cr_groups'', Array 16 (Scalar 4))]"
  using assms by (auto simp: libc_ok_def)

text \<open>The structures of \<open>libc\<close> are determined by their declarations.\<close>

definition darwin_libc :: libc_types where
  "darwin_libc =
     (let tv = Struct [(''tv_sec'', Scalar 8), (''tv_usec'', Scalar 4)] in
      \<lparr>timeval_t = tv, itimerval_t = Struct [(''it_interval'', tv), (''it_value'', tv)],
       xucred_t = Struct [(''cr_version'', Scalar 4), (''cr_uid'', Scalar 4), (''cr_ngroups'', Scalar 2),
         (''cr_groups'', Array 16 (Scalar 4))]\<rparr>)"

lemma libc_ok_iff: "libc_ok L \<longleftrightarrow> L = darwin_libc"
  by (cases L) (auto simp: libc_ok_def darwin_libc_def Let_def)

lemmas darwin_libc_simps = libc_simps [OF libc_ok_iff [THEN iffD2], OF refl]

definition if_data64_t :: "libc_types \<Rightarrow> ctype" where
  "if_data64_t L = Struct
    [(''ifi_type'', Scalar 1), (''ifi_typelen'', Scalar 1), (''ifi_physical'', Scalar 1),
     (''ifi_addrlen'', Scalar 1), (''ifi_hdrlen'', Scalar 1), (''ifi_recvquota'', Scalar 1),
     (''ifi_xmitquota'', Scalar 1), (''ifi_unused1'', Scalar 1), (''ifi_mtu'', Scalar 4),
     (''ifi_metric'', Scalar 4), (''ifi_baudrate'', Scalar 8), (''ifi_ipackets'', Scalar 8),
     (''ifi_ierrors'', Scalar 8), (''ifi_opackets'', Scalar 8), (''ifi_oerrors'', Scalar 8),
     (''ifi_collisions'', Scalar 8), (''ifi_ibytes'', Scalar 8), (''ifi_obytes'', Scalar 8),
     (''ifi_imcasts'', Scalar 8), (''ifi_omcasts'', Scalar 8), (''ifi_iqdrops'', Scalar 8),
     (''ifi_noproto'', Scalar 8), (''ifi_recvtiming'', Scalar 4), (''ifi_xmittiming'', Scalar 4),
     (''ifi_lastchange'', timeval_t L)]"

definition if_msghdr2_t :: "libc_types \<Rightarrow> ctype" where
  "if_msghdr2_t L = Struct
    [(''ifm_msglen'', Scalar 2), (''ifm_version'', Scalar 1), (''ifm_type'', Scalar 1),
     (''ifm_addrs'', Scalar 4), (''ifm_flags'', Scalar 4), (''ifm_index'', Scalar 2),
     (''ifm_snd_len'', Scalar 4), (''ifm_snd_maxlen'', Scalar 4), (''ifm_snd_drops'', Scalar 4),
     (''ifm_timer'', Scalar 4), (''ifm_data'', if_data64_t L)]"

definition if_msghdr_partial_t :: "ctype" where
  "if_msghdr_partial_t = Struct
    [(''ifm_msglen'', Scalar 2), (''ifm_version'', Scalar 1), (''ifm_type'', Scalar 1)]"

lemmas net_layout_defs = if_msghdr2_t_def if_data64_t_def if_msghdr_partial_t_def

lemma net_sizes:
  "size_of if_msghdr_partial_t = 4"
  "libc_ok L \<Longrightarrow> size_of (if_msghdr2_t L) = 168"
  by (simp_all add: net_layout_defs libc_simps round_up_def del: One_nat_def)

section \<open>The buffer of messages\<close>

text \<open>The fields of a message that are read.\<close>

record if_msghdr2 =
  ifm_msglen :: nat
  ifm_type :: nat
  ifm_index :: nat
  ifi_ipackets :: u64
  ifi_ierrors :: u64
  ifi_opackets :: u64
  ifi_oerrors :: u64
  ifi_ibytes :: u64
  ifi_obytes :: u64
  ifi_iqdrops :: u64

record darwin_net = darwin_host +
  CTL_NET :: i32
  PF_ROUTE :: i32
  NET_RT_IFLIST2 :: i32
  RTM_IFINFO2 :: nat
  route_dry :: "i32 \<times> nat"
  route_fill :: "nat \<Rightarrow> i32 \<times> bytes"
  beyond :: bytes
  if_indextoname :: "nat \<Rightarrow> bytes option"

definition partial_size :: nat where "partial_size = size_of if_msghdr_partial_t"
definition msghdr2_size :: nat where "msghdr2_size = size_of (if_msghdr2_t darwin_libc)"

text \<open>A message in memory, read through its declaration.\<close>

definition msghdr_view :: "(path_in \<Rightarrow> nat) \<Rightarrow> if_msghdr2" where
  "msghdr_view f =
     (let d = \<lambda>n. of_nat (f [Fld ''ifm_data'', Fld n]) in
      \<lparr>ifm_msglen = f [Fld ''ifm_msglen''], ifm_type = f [Fld ''ifm_type''], ifm_index = f [Fld ''ifm_index''],
       ifi_ipackets = d ''ifi_ipackets'', ifi_ierrors = d ''ifi_ierrors'', ifi_opackets = d ''ifi_opackets'',
       ifi_oerrors = d ''ifi_oerrors'', ifi_ibytes = d ''ifi_ibytes'', ifi_obytes = d ''ifi_obytes'',
       ifi_iqdrops = d ''ifi_iqdrops''\<rparr>)"

definition if_msghdr2_at :: "bool \<Rightarrow> bytes \<Rightarrow> if_msghdr2" where
  "if_msghdr2_at be b = msghdr_view (get be (if_msghdr2_t darwin_libc) b)"

datatype route_round = End | Skip nat | Yield if_msghdr2 nat

text \<open>
  One round of \<open>next\<close> at a position; \<open>da\<close> says that debug assertions are on. The position is that
  behind the message.
\<close>

definition Routes_round ::
    "bool \<Rightarrow> bool \<Rightarrow> 'h darwin_net_scheme \<Rightarrow> bytes \<Rightarrow> nat \<Rightarrow> (route_round, heim_error) outcome" where
  "Routes_round da be d data pos =
     (if pos = length data then Ok End
      else if \<not> pos + partial_size < length data then Panic
      else
        let hdr = take partial_size (drop pos data);
            msglen = get be if_msghdr_partial_t hdr [Fld ''ifm_msglen''];
            type = get be if_msghdr_partial_t hdr [Fld ''ifm_type'']
        in if da \<and> length data + pos < msglen then Panic
           else if type = RTM_IFINFO2 d then
             Ok (Yield (if_msghdr2_at be (take msghdr2_size (drop pos (data @ beyond d)))) (pos + msglen))
           else Ok (Skip (pos + msglen)))"

text \<open>The loop of \<open>next\<close>: the item, if any, and the new position. \<open>None\<close> is a loop without end.\<close>

partial_function (option) Routes_next ::
    "bool \<Rightarrow> bool \<Rightarrow> 'h darwin_net_scheme \<Rightarrow> bytes \<Rightarrow> nat
      \<Rightarrow> ((if_msghdr2 \<times> nat) option, heim_error) outcome option" where
  "Routes_next da be d data pos =
     (case Routes_round da be d data pos of
        Panic \<Rightarrow> Some Panic
      | Err e \<Rightarrow> Some (Err e)
      | Ok End \<Rightarrow> Some (Ok None)
      | Ok (Yield m pos') \<Rightarrow> Some (Ok (Some (m, pos')))
      | Ok (Skip pos') \<Rightarrow> Routes_next da be d data pos')"

declare Routes_next.simps [code]

text \<open>All items of the iterator.\<close>

partial_function (option) Routes_collect ::
    "bool \<Rightarrow> bool \<Rightarrow> 'h darwin_net_scheme \<Rightarrow> bytes \<Rightarrow> nat \<Rightarrow> if_msghdr2 list
      \<Rightarrow> (if_msghdr2 list, heim_error) outcome option" where
  "Routes_collect da be d data pos items =
     (case Routes_next da be d data pos of
        None \<Rightarrow> None
      | Some Panic \<Rightarrow> Some Panic
      | Some (Err e) \<Rightarrow> Some (Err e)
      | Some (Ok None) \<Rightarrow> Some (Ok items)
      | Some (Ok (Some (m, pos'))) \<Rightarrow> Routes_collect da be d data pos' (items @ [m]))"

declare Routes_collect.simps [code]

text \<open>\<open>net_pf_route\<close>: the size, then the buffer; a capacity above \<open>isize::MAX\<close> is a panic.\<close>

definition net_pf_route :: "'h darwin_net_scheme \<Rightarrow> (bytes, heim_error) outcome" where
  "net_pf_route d =
     (let name = [CTL_NET d, PF_ROUTE d, 0, 0, NET_RT_IFLIST2 d, 0];
          failed = Err (with_sysctl (Error_last_os_error (last_errno d)) name) in
      case route_dry d of (result, len) \<Rightarrow>
        if result \<noteq> 0 then failed
        else if 2 ^ 63 \<le> len then Panic
        else case route_fill d len of (result', data) \<Rightarrow> if result' = 0 then Ok data else failed)"

record macos_net_counters =
  mn_name :: string
  mn_data :: if_msghdr2

text \<open>
  One item of \<open>io_counters\<close>. \<open>if_indextoname\<close> gives the name buffer as the call leaves it, of sixteen
  bytes, or nothing for a null pointer.
\<close>

definition net_item :: "'h darwin_net_scheme \<Rightarrow> if_msghdr2 \<Rightarrow> (macos_net_counters, heim_error) outcome" where
  "net_item d msg =
     (case if_indextoname d (ifm_index msg) of
        None \<Rightarrow> Err (with_ffi (Error_last_os_error (last_errno d)) ''if_indextoname'')
      | Some name \<Rightarrow>
          let first_nul = unwrap_or_zero (position (\<lambda>c. c = NUL) name)
          in Ok \<lparr>mn_name = utf8_lossy (take first_nul name), mn_data = msg\<rparr>)"

definition macos_net_io_counters ::
    "bool \<Rightarrow> bool \<Rightarrow> 'h darwin_net_scheme
      \<Rightarrow> ((macos_net_counters, heim_error) outcome list, heim_error) outcome option" where
  "macos_net_io_counters da be d =
     (case net_pf_route d of
        Ok data \<Rightarrow> map_option (map_ok (map (net_item d))) (Routes_collect da be d data 0 [])
      | Err e \<Rightarrow> Some (Err e)
      | Panic \<Rightarrow> Some Panic)"

definition macos_bytes_sent :: "'h host_scheme \<Rightarrow> macos_net_counters \<Rightarrow> u64" where
  "macos_bytes_sent h c = Information_new h Byte (ifi_obytes (mn_data c))"

definition macos_bytes_recv :: "'h host_scheme \<Rightarrow> macos_net_counters \<Rightarrow> u64" where
  "macos_bytes_recv h c = Information_new h Byte (ifi_ibytes (mn_data c))"

section \<open>The messages in memory\<close>

lemma partial_size_eq: "partial_size = 4"
  by (simp add: partial_size_def net_sizes)

lemma msghdr2_size_eq: "msghdr2_size = 168"
  by (simp add: msghdr2_size_def net_sizes libc_ok_iff)

lemma partial_offsets:
  "get be if_msghdr_partial_t b [Fld ''ifm_msglen''] = field_at be 0 2 b"
  "get be if_msghdr_partial_t b [Fld ''ifm_type''] = field_at be 3 1 b"
proof -
  have "map (field_of if_msghdr_partial_t) [[Fld ''ifm_msglen''], [Fld ''ifm_type'']] =
      [Some (0, Scalar 2), Some (3, Scalar 1)]" by code_simp
  then show "get be if_msghdr_partial_t b [Fld ''ifm_msglen''] = field_at be 0 2 b"
    "get be if_msghdr_partial_t b [Fld ''ifm_type''] = field_at be 3 1 b"
    by (simp_all add: get_def)
qed

definition msghdr_paths :: "path_in list" where
  "msghdr_paths = [[Fld ''ifm_msglen''], [Fld ''ifm_type''], [Fld ''ifm_index'']] @
     map (\<lambda>f. [Fld ''ifm_data'', Fld f]) [''ifi_ipackets'', ''ifi_ierrors'', ''ifi_opackets'', ''ifi_oerrors'',
       ''ifi_ibytes'', ''ifi_obytes'', ''ifi_iqdrops'']"

interpretation msghdr: c_struct "if_msghdr2_t darwin_libc" msghdr_paths msghdr_view
  by (unfold_locales, code_simp, code_simp) (simp add: msghdr_paths_def msghdr_view_def Let_def)

lemma msghdr_offsets:
  "if_msghdr2_at be b =
     \<lparr>ifm_msglen = field_at be 0 2 b, ifm_type = field_at be 3 1 b, ifm_index = field_at be 12 2 b,
      ifi_ipackets = of_nat (field_at be 56 8 b), ifi_ierrors = of_nat (field_at be 64 8 b),
      ifi_opackets = of_nat (field_at be 72 8 b), ifi_oerrors = of_nat (field_at be 80 8 b),
      ifi_ibytes = of_nat (field_at be 96 8 b), ifi_obytes = of_nat (field_at be 104 8 b),
      ifi_iqdrops = of_nat (field_at be 128 8 b)\<rparr>"
proof -
  have "map (field_of (if_msghdr2_t darwin_libc)) msghdr_paths =
      [Some (0, Scalar 2), Some (3, Scalar 1), Some (12, Scalar 2), Some (56, Scalar 8), Some (64, Scalar 8),
       Some (72, Scalar 8), Some (80, Scalar 8), Some (96, Scalar 8), Some (104, Scalar 8), Some (128, Scalar 8)]"
    by code_simp
  then show ?thesis by (simp add: if_msghdr2_at_def msghdr_view_def msghdr_paths_def get_def Let_def)
qed

section \<open>Complete messages\<close>

text \<open>
  A complete message: its header carries its own length, something follows the four bytes that are
  read first, and an interface message holds the whole structure.
\<close>

definition msg_ok :: "bool \<Rightarrow> nat \<Rightarrow> bytes \<Rightarrow> bool" where
  "msg_ok be info2 m \<longleftrightarrow> partial_size < length m \<and> field_at be 0 2 m = length m \<and>
     (field_at be 3 1 m = info2 \<longrightarrow> msghdr2_size \<le> length m)"

lemma if_msghdr2_at_take: "if_msghdr2_at be (take msghdr2_size b) = if_msghdr2_at be b"
  by (simp add: msghdr_offsets msghdr2_size_eq field_at_take)

lemma if_msghdr2_at_append:
  "msghdr2_size \<le> length m \<Longrightarrow> if_msghdr2_at be (m @ rest) = if_msghdr2_at be m"
  by (simp add: msghdr_offsets msghdr2_size_eq field_at_append)

lemma Routes_round_msg:
  assumes "msg_ok be (RTM_IFINFO2 d) m"
  shows "Routes_round da be d (pre @ m @ rest) (length pre) =
    Ok (if field_at be 3 1 m = RTM_IFINFO2 d then Yield (if_msghdr2_at be m) (length (pre @ m))
        else Skip (length (pre @ m)))"
proof -
  have m: "4 < length m" "field_at be 0 2 m = length m" using assms by (auto simp: msg_ok_def partial_size_eq)
  have "field_at be 0 2 (take 4 (m @ rest)) = length m" "field_at be 3 1 (take 4 (m @ rest)) = field_at be 3 1 m"
    using m by (simp_all add: field_at_take field_at_append)
  moreover have "if_msghdr2_at be (take msghdr2_size (m @ rest @ beyond d)) = if_msghdr2_at be m"
    if "field_at be 3 1 m = RTM_IFINFO2 d"
    using assms that by (simp add: msg_ok_def if_msghdr2_at_take if_msghdr2_at_append)
  ultimately show ?thesis using m by (auto simp: Routes_round_def partial_size_eq partial_offsets Let_def)
qed

lemma Routes_round_end: "Routes_round da be d data (length data) = Ok End"
  by (simp add: Routes_round_def)

lemma Routes_next_skip:
  assumes "msg_ok be (RTM_IFINFO2 d) m" "field_at be 3 1 m \<noteq> RTM_IFINFO2 d"
  shows "Routes_next da be d (pre @ m @ rest) (length pre) =
    Routes_next da be d (pre @ m @ rest) (length (pre @ m))"
  using assms(2) by (subst Routes_next.simps) (simp add: Routes_round_msg [OF assms(1)])

lemma Routes_collect_msgs:
  assumes "\<forall>m\<in>set ms. msg_ok be (RTM_IFINFO2 d) m"
  shows "Routes_collect da be d (pre @ concat ms) (length pre) items =
    Some (Ok (items @ map (if_msghdr2_at be) (filter (\<lambda>m. field_at be 3 1 m = RTM_IFINFO2 d) ms)))"
  using assms
proof (induction ms arbitrary: pre items)
  case Nil
  have "Routes_next da be d pre (length pre) = Some (Ok None)"
    by (subst Routes_next.simps) (simp add: Routes_round_end)
  then show ?case by (subst Routes_collect.simps) simp
next
  case (Cons m ms)
  have ok: "msg_ok be (RTM_IFINFO2 d) m" using Cons.prems by simp
  have IH: "Routes_collect da be d (pre @ m @ concat ms) (length (pre @ m)) items' =
      Some (Ok (items' @ map (if_msghdr2_at be) (filter (\<lambda>m. field_at be 3 1 m = RTM_IFINFO2 d) ms)))" for items'
    using Cons.IH [of "pre @ m" items'] Cons.prems by simp
  show ?case
  proof (cases "field_at be 3 1 m = RTM_IFINFO2 d")
    case True
    then have "Routes_next da be d (pre @ m @ concat ms) (length pre) =
        Some (Ok (Some (if_msghdr2_at be m, length (pre @ m))))"
      by (subst Routes_next.simps) (simp add: Routes_round_msg [OF ok])
    with IH True show ?thesis by (subst Routes_collect.simps) simp
  next
    case False
    have "Routes_collect da be d (pre @ m @ concat ms) (length pre) items =
        Routes_collect da be d (pre @ m @ concat ms) (length (pre @ m)) items"
      by (subst (1 2) Routes_collect.simps) (simp add: Routes_next_skip [OF ok False])
    with IH False show ?thesis by simp
  qed
qed

section \<open>Properties\<close>

text \<open>
  (C28) From a buffer of complete routing messages the macOS iterator yields exactly the interface
  messages, decoded from their own bytes and in order, whatever lies behind the buffer, and every one
  of them becomes an item of the counters.
\<close>

theorem macos_net_io_counters_msgs:
  assumes "net_pf_route d = Ok (concat ms)" "\<forall>m\<in>set ms. msg_ok be (RTM_IFINFO2 d) m"
  shows "macos_net_io_counters da be d = Some (Ok (map (\<lambda>m. net_item d (if_msghdr2_at be m))
    (filter (\<lambda>m. field_at be 3 1 m = RTM_IFINFO2 d) ms)))"
  using Routes_collect_msgs [OF assms(2), of da "[]" "[]"] assms(1)
  by (simp add: macos_net_io_counters_def o_def)

definition sample_msg :: "nat \<Rightarrow> nat \<Rightarrow> bytes" where
  "sample_msg type len = [char_of len, NUL, NUL, char_of type] @ replicate 8 NUL @ [CHR 0x07, NUL] @ replicate (len - 14) NUL"

definition sample_net :: "bytes list \<Rightarrow> darwin_net" where
  "sample_net ms = darwin_host.extend (sample_darwin 1577 2)
     \<lparr>CTL_NET = 4, PF_ROUTE = 17, NET_RT_IFLIST2 = 6, RTM_IFINFO2 = 18, route_dry = (0, 4096),
      route_fill = (\<lambda>_. (0, concat ms)), beyond = [],
      if_indextoname = (\<lambda>n. if n = 7 then Some (''en0'' @ replicate 13 NUL) else None)\<rparr>"

theorem macos_net_io_counters_msgs_witness:
  "macos_net_io_counters True False (sample_net [sample_msg 12 20, sample_msg 18 180]) =
     Some (Ok [Ok \<lparr>mn_name = ''en0'', mn_data = if_msghdr2_at False (sample_msg 18 180)\<rparr>])"
proof -
  let ?d = "sample_net [sample_msg 12 20, sample_msg 18 180]"
  have d: "RTM_IFINFO2 ?d = 18" "net_pf_route ?d = Ok (concat [sample_msg 12 20, sample_msg 18 180])"
    by (simp_all add: sample_net_def darwin_host.extend_def net_pf_route_def Let_def)
  have m: "field_at False 3 1 (sample_msg 12 20) = 12" "field_at False 3 1 (sample_msg 18 180) = 18"
    "field_at False 0 2 (sample_msg 12 20) = 20" "field_at False 0 2 (sample_msg 18 180) = 180"
    "length (sample_msg 12 20) = 20" "length (sample_msg 18 180) = 180"
    "field_at False 12 2 (sample_msg 18 180) = 7"
    by (simp_all add: field_at_def sample_msg_def mem_value_def byte_def)
  have en0: "utf8_lossy ''en0'' = ''en0''" by code_simp
  have item: "net_item ?d (if_msghdr2_at False (sample_msg 18 180)) =
      Ok \<lparr>mn_name = ''en0'', mn_data = if_msghdr2_at False (sample_msg 18 180)\<rparr>"
    by (simp add: net_item_def msghdr_offsets m(7)) (simp add: sample_net_def darwin_host.extend_def
      position_def unwrap_or_zero_def Let_def en0)
  from macos_net_io_counters_msgs [OF d(2), of False True] show ?thesis
    by (simp add: m d(1) item msg_ok_def partial_size_eq msghdr2_size_eq del: One_nat_def)
qed

text \<open>A position the iterator stays at: a header that is no interface message and says length zero.\<close>

definition stuck_at :: "bool \<Rightarrow> nat \<Rightarrow> bytes \<Rightarrow> nat \<Rightarrow> bool" where
  "stuck_at be info2 data pos \<longleftrightarrow> pos + partial_size < length data \<and>
     field_at be 0 2 (drop pos data) = 0 \<and> field_at be 3 1 (drop pos data) \<noteq> info2"

lemma Routes_round_stuck:
  "stuck_at be (RTM_IFINFO2 d) data pos \<Longrightarrow> Routes_round da be d data pos = Ok (Skip pos)"
  by (auto simp: stuck_at_def Routes_round_def partial_size_eq partial_offsets Let_def field_at_take simp del: One_nat_def)

lemma Routes_next_stuck:
  assumes "stuck_at be (RTM_IFINFO2 d) data pos"
  shows "Routes_next da be d data pos = None"
proof (cases "Routes_next da be d data pos")
  case (Some y)
  have "\<not> stuck_at be (RTM_IFINFO2 d) data pos"
  proof (rule Routes_next.raw_induct [OF _ Some, where P = "\<lambda>da be d data pos y. \<not> stuck_at be (RTM_IFINFO2 d) data pos"])
    fix next_loop da be d data pos y
    assume IH: "\<And>da be d data pos y. next_loop da be d data pos = Some y \<Longrightarrow>
        \<not> stuck_at be (RTM_IFINFO2 d) data pos"
      and step: "(case Routes_round da be d data pos of
          Ok End \<Rightarrow> Some (Ok None)
        | Ok (Skip pos') \<Rightarrow> next_loop da be d data pos'
        | Ok (Yield m pos') \<Rightarrow> Some (Ok (Some (m, pos')))
        | Err e \<Rightarrow> Some (Err e) | Panic \<Rightarrow> Some Panic) = Some y"
    show "\<not> stuck_at be (RTM_IFINFO2 d) data pos"
      using step IH [of da be d data pos] by (auto simp: Routes_round_stuck)
  qed
  with assms show ?thesis by simp
qed

text \<open>
  The two ways complete messages can fail to follow: behind any complete messages, a header of
  length zero that is no interface message keeps the iterator from ever returning, and one to four
  remaining bytes are a panic, even when they are a whole header.
\<close>

theorem Routes_bad_tail:
  assumes "\<forall>m\<in>set ms. msg_ok be (RTM_IFINFO2 d) m \<and> field_at be 3 1 m \<noteq> RTM_IFINFO2 d"
  shows "(stuck_at be (RTM_IFINFO2 d) tail 0 \<longrightarrow> Routes_next da be d (concat ms @ tail) 0 = None) \<and>
    (0 < length tail \<and> length tail \<le> 4 \<longrightarrow> Routes_next da be d (concat ms @ tail) 0 = Some Panic)"
proof -
  have skip: "Routes_next da be d (pre @ concat ms @ tail) (length pre) =
      Routes_next da be d (pre @ concat ms @ tail) (length (pre @ concat ms))" for pre
    using assms
  proof (induction ms arbitrary: pre)
    case (Cons m ms)
    then have "Routes_next da be d (pre @ m @ concat ms @ tail) (length pre) =
        Routes_next da be d (pre @ m @ concat ms @ tail) (length (pre @ m))"
      by (intro Routes_next_skip) auto
    with Cons.IH [of "pre @ m"] Cons.prems show ?case by simp
  qed simp
  have "stuck_at be (RTM_IFINFO2 d) (concat ms @ tail) (length (concat ms))"
    if "stuck_at be (RTM_IFINFO2 d) tail 0"
    using that by (simp add: stuck_at_def)
  moreover have "Routes_next da be d (concat ms @ tail) (length (concat ms)) = Some Panic"
    if "0 < length tail" "length tail \<le> 4"
    using that by (subst Routes_next.simps) (simp add: Routes_round_def partial_size_eq)
  ultimately show ?thesis using skip [of "[]"] Routes_next_stuck by auto
qed

theorem Routes_bad_tail_witness:
  "Routes_next True False (sample_net []) (sample_msg 12 20 @ replicate 5 NUL) 0 = None \<and>
   Routes_next True False (sample_net []) (sample_msg 12 20 @ [CHR 0x04, NUL, NUL, CHR 0x0C]) 0 = Some Panic"
proof -
  have d: "RTM_IFINFO2 (sample_net []) = 18" by (simp add: sample_net_def darwin_host.extend_def)
  have m: "field_at False 3 1 (sample_msg 12 20) = 12" "field_at False 0 2 (sample_msg 12 20) = 20"
    "length (sample_msg 12 20) = 20"
    by (simp_all add: field_at_def sample_msg_def mem_value_def byte_def)
  have "stuck_at False 18 (replicate 5 NUL) 0"
    by (simp add: stuck_at_def partial_size_eq field_at_def mem_value_def byte_def numeral_2_eq_2)
  then show ?thesis
    using Routes_bad_tail [of "[sample_msg 12 20]" False "sample_net []" "replicate 5 NUL" True]
      Routes_bad_tail [of "[sample_msg 12 20]" False "sample_net []" "[CHR 0x04, NUL, NUL, CHR 0x0C]" True]
    by (simp add: d m msg_ok_def partial_size_eq del: One_nat_def)
qed

end
