(* ===== verification/Disk_Macos.thy ===== *)
theory Disk_Macos
  imports Process_Macos Disk_Linux
begin

text \<open>
  Disks on macOS: \<open>heim-disk/src/sys/unix/partitions.rs\<close>, \<open>sys/unix/bindings/mod.rs\<close>,
  \<open>sys/macos/counters.rs\<close>, and the IOKit wrappers \<open>heim-common/src/sys/macos/iokit\<close> they use.

  IOKit is a kernel state of any type with the calls the code makes; \<open>iokit_ok\<close> states what is relied
  on: the references a call hands out are counted, a reference that is held can be given back, and an
  iterator has finitely many objects. Core Foundation values are a datatype.

  The theorems: the mount list panics when the first call fails, and in debug builds when the number
  of mounts changes between the calls; the physical partitions are those with a known file system;
  reading the counters of all block devices ends and gives back every reference it took.
\<close>

section \<open>Mounts and partitions\<close>

record statfs =
  f_flags :: u32
  f_fstypename :: bytes
  f_mntonname :: bytes
  f_mntfromname :: bytes
  f_after :: bytes

definition statfs_size :: i32 where "statfs_size = 2168"

text \<open>
  \<open>mounts\<close>: \<open>dry\<close> is the answer to the call without a buffer, \<open>fill\<close> that to the call with a buffer
  of a size, with the entries it stored. A capacity of a negative number is more than a vector can
  have; the product of the size is taken in 32 bits.
\<close>

definition mounts ::
    "bool \<Rightarrow> bool \<Rightarrow> 'h host_scheme \<Rightarrow> i32 \<Rightarrow> (i32 \<Rightarrow> i32 \<times> statfs list) \<Rightarrow> (statfs list, heim_error) outcome" where
  "mounts oc da h dry fill_buf =
     (if sint dry < 0 then Panic
      else if oc \<and> \<not> sint statfs_size * sint dry < 2 ^ 31 then Panic
      else case fill_buf (statfs_size * dry) of (result, entries) \<Rightarrow>
        if result = -1 then Err (with_ffi (Error_last_os_error (last_errno h)) ''getfsstat64'')
        else if da \<and> dry \<noteq> result then Panic
        else Ok (take (unat result) entries))"

record unix_partition =
  up_device :: string
  up_fs :: file_system
  up_mount_point :: string
  up_flags :: u32

definition unix_Partition_from :: "statfs \<Rightarrow> (unix_partition, heim_error) outcome" where
  "unix_Partition_from st =
     (let device = utf8_lossy (CStr_from_ptr (f_mntfromname st @ f_after st));
          fs_type = utf8_lossy (CStr_from_ptr
            (f_fstypename st @ f_mntonname st @ f_mntfromname st @ f_after st));
          mount_point = utf8_lossy (CStr_from_ptr (f_mntonname st @ f_mntfromname st @ f_after st))
      in case FileSystem_from_str fs_type of
           Ok fs \<Rightarrow> Ok \<lparr>up_device = device, up_fs = fs, up_mount_point = mount_point, up_flags = f_flags st\<rparr>
         | _ \<Rightarrow> Panic)"

definition unix_partitions ::
    "bool \<Rightarrow> bool \<Rightarrow> 'h host_scheme \<Rightarrow> i32 \<Rightarrow> (i32 \<Rightarrow> i32 \<times> statfs list)
      \<Rightarrow> ((unix_partition, heim_error) outcome list, heim_error) outcome" where
  "unix_partitions oc da h dry fill_buf = map_ok (map unix_Partition_from) (mounts oc da h dry fill_buf)"

text \<open>\<open>try_filter_map\<close>: errors are kept, partitions on virtual file systems dropped.\<close>

definition keep_physical_item :: "(unix_partition, heim_error) outcome \<Rightarrow> bool" where
  "keep_physical_item r = (case r of Ok p \<Rightarrow> is_physical (up_fs p) | _ \<Rightarrow> True)"

definition unix_partitions_physical ::
    "bool \<Rightarrow> bool \<Rightarrow> 'h host_scheme \<Rightarrow> i32 \<Rightarrow> (i32 \<Rightarrow> i32 \<times> statfs list)
      \<Rightarrow> ((unix_partition, heim_error) outcome list, heim_error) outcome" where
  "unix_partitions_physical oc da h dry fill_buf =
     map_ok (filter keep_physical_item) (unix_partitions oc da h dry fill_buf)"

section \<open>IOKit\<close>

datatype cf_value =
    CFString string
  | CFBoolean bool
  | CFNumber "i64 option"
  | CFDictionary "(string \<times> cf_value) list"

type_synonym cf_dict = "(string \<times> cf_value) list"

text \<open>A number that is no \<open>i64\<close> is \<open>CFNumber None\<close>.\<close>

record 'k iokit =
  IOMasterPort :: "'k \<Rightarrow> (i32 \<times> u32) \<times> 'k"
  master_port_deallocate :: "u32 \<Rightarrow> 'k \<Rightarrow> i32 \<times> 'k"
  matching_is_null :: "bytes \<Rightarrow> bool"
  IOServiceGetMatchingServices :: "u32 \<Rightarrow> bytes \<Rightarrow> 'k \<Rightarrow> (i32 \<times> u32) \<times> 'k"
  IOIteratorNext :: "u32 \<Rightarrow> 'k \<Rightarrow> u32 \<times> 'k"
  IOObjectRelease :: "u32 \<Rightarrow> 'k \<Rightarrow> i32 \<times> 'k"
  IORegistryEntryGetParentEntry :: "u32 \<Rightarrow> bytes \<Rightarrow> 'k \<Rightarrow> (i32 \<times> u32) \<times> 'k"
  IOObjectConformsTo :: "u32 \<Rightarrow> bytes \<Rightarrow> 'k \<Rightarrow> bool"
  CreateCFProperties :: "u32 \<Rightarrow> 'k \<Rightarrow> i32 \<times> cf_dict"
  cf_reinterpret :: "cf_value \<Rightarrow> cf_dict"

definition io_failed :: "'h host_scheme \<Rightarrow> string \<Rightarrow> heim_error" where
  "io_failed h name = with_ffi (Error_last_os_error (last_errno h)) name"

text \<open>Dropping an object when its scope ends: a failure to release it is a panic.\<close>

definition IoObject_drop ::
    "'h macos_host_scheme \<Rightarrow> 'k iokit \<Rightarrow> u32 \<Rightarrow> ('a, heim_error) outcome \<times> 'k \<Rightarrow> ('a, heim_error) outcome \<times> 'k" where
  "IoObject_drop m api obj s =
     (case IOObjectRelease api obj (snd s) of (result, k) \<Rightarrow>
        (if result = KERN_SUCCESS m then fst s else Panic, k))"

definition IoObject_properties ::
    "'h macos_host_scheme \<Rightarrow> 'k iokit \<Rightarrow> u32 \<Rightarrow> 'k \<Rightarrow> (cf_dict, heim_error) outcome" where
  "IoObject_properties m api obj k =
     (case CreateCFProperties api obj k of (result, props) \<Rightarrow>
        if result \<noteq> KERN_SUCCESS m then Err (io_failed m ''IORegistryEntryCreateCFProperties'') else Ok props)"

definition IoObject_parent ::
    "'h macos_host_scheme \<Rightarrow> 'k iokit \<Rightarrow> u32 \<Rightarrow> bytes \<Rightarrow> 'k \<Rightarrow> (u32, heim_error) outcome \<times> 'k" where
  "IoObject_parent m api obj plane k =
     (case IORegistryEntryGetParentEntry api obj plane k of ((result, par), k') \<Rightarrow>
        (if result \<noteq> KERN_SUCCESS m then Err (io_failed m ''IORegistryEntryGetParentEntry'') else Ok par, k'))"

definition IoIterator_next :: "'k iokit \<Rightarrow> u32 \<Rightarrow> 'k \<Rightarrow> u32 option \<times> 'k" where
  "IoIterator_next api it k =
     (case IOIteratorNext api it k of (obj, k') \<Rightarrow> (if obj = 0 then None else Some obj, k'))"

definition IoMasterPort_new ::
    "'h macos_host_scheme \<Rightarrow> 'k iokit \<Rightarrow> 'k \<Rightarrow> (u32, heim_error) outcome \<times> 'k" where
  "IoMasterPort_new m api k =
     (case IOMasterPort api k of ((result, port), k') \<Rightarrow>
        (if result \<noteq> KERN_SUCCESS m then Err (io_failed m ''IOMasterPort'') else Ok port, k'))"

definition IoMasterPort_get_services ::
    "'h macos_host_scheme \<Rightarrow> 'k iokit \<Rightarrow> u32 \<Rightarrow> bytes \<Rightarrow> 'k \<Rightarrow> (u32, heim_error) outcome \<times> 'k" where
  "IoMasterPort_get_services m api port name k =
     (if matching_is_null api name then (Panic, k)
      else case IOServiceGetMatchingServices api port name k of ((result, it), k') \<Rightarrow>
        (if result = KERN_SUCCESS m then Ok it else Err (io_failed m ''IOServiceGetMatchingServices''), k'))"

definition IoMasterPort_drop ::
    "'h macos_host_scheme \<Rightarrow> 'k iokit \<Rightarrow> u32 \<Rightarrow> ('a, heim_error) outcome \<times> 'k \<Rightarrow> ('a, heim_error) outcome \<times> 'k" where
  "IoMasterPort_drop m api port s =
     (case master_port_deallocate api port (snd s) of (result, k) \<Rightarrow>
        (if result = KERN_SUCCESS m then fst s else Panic, k))"

text \<open>
  The typed lookups. With debug assertions a value of another type is a panic. Without, a value that is
  no dictionary is taken for one, and what is read then is given by \<open>cf_reinterpret\<close>; the other
  lookups treat it as missing.
\<close>

definition get_dict :: "bool \<Rightarrow> 'k iokit \<Rightarrow> cf_dict \<Rightarrow> string \<Rightarrow> (cf_dict, heim_error) outcome" where
  "get_dict da api props key =
     (case map_of props key of
        None \<Rightarrow> Err (Error_missing_key key [])
      | Some (CFDictionary d) \<Rightarrow> Ok d
      | Some v \<Rightarrow> if da then Panic else Ok (cf_reinterpret api v))"

definition get_bool :: "bool \<Rightarrow> cf_dict \<Rightarrow> string \<Rightarrow> (bool, heim_error) outcome" where
  "get_bool da props key =
     (case map_of props key of
        None \<Rightarrow> Err (Error_missing_key key [])
      | Some (CFBoolean b) \<Rightarrow> Ok b
      | Some _ \<Rightarrow> if da then Panic else Err (Error_missing_key key []))"

definition get_i64 :: "bool \<Rightarrow> cf_dict \<Rightarrow> string \<Rightarrow> (i64, heim_error) outcome" where
  "get_i64 da props key =
     (case map_of props key of
        None \<Rightarrow> Err (Error_missing_key key [])
      | Some (CFNumber n) \<Rightarrow> ok_or n (Error_missing_key key [])
      | Some _ \<Rightarrow> if da then Panic else Err (Error_missing_key key []))"

definition get_string :: "bool \<Rightarrow> cf_dict \<Rightarrow> string \<Rightarrow> (string, heim_error) outcome" where
  "get_string da props key =
     (case map_of props key of
        None \<Rightarrow> Err (Error_missing_key key [])
      | Some (CFString s) \<Rightarrow> Ok s
      | Some _ \<Rightarrow> if da then Panic else Err (Error_missing_key key []))"

section \<open>Counters\<close>

record macos_disk_counters =
  md_device :: string
  md_removable :: bool
  md_reads :: u64
  md_writes :: u64
  md_read_bytes :: u64
  md_write_bytes :: u64
  md_read_time :: fval
  md_write_time :: fval

definition counters_of_props ::
    "bool \<Rightarrow> 'h macos_host_scheme \<Rightarrow> cf_dict \<Rightarrow> string \<Rightarrow> cf_dict \<Rightarrow> (macos_disk_counters, heim_error) outcome" where
  "counters_of_props da m disk_props name stats =
     and_then (get_bool da disk_props ''Removable'') (\<lambda>removable.
     and_then (get_i64 da stats ''Operations (Read)'') (\<lambda>reads.
     and_then (get_i64 da stats ''Operations (Write)'') (\<lambda>writes.
     and_then (get_i64 da stats ''Bytes (Read)'') (\<lambda>read_bytes.
     and_then (get_i64 da stats ''Bytes (Write)'') (\<lambda>write_bytes.
     and_then (get_i64 da stats ''Total Time (Read)'') (\<lambda>read_time.
     and_then (get_i64 da stats ''Total Time (Write)'') (\<lambda>write_time.
       Ok \<lparr>md_device = name, md_removable = removable, md_reads = reads, md_writes = writes,
           md_read_bytes = Information_new m Byte read_bytes,
           md_write_bytes = Information_new m Byte write_bytes,
           md_read_time = Time_nano m (f64_of_i64 read_time),
           md_write_time = Time_nano m (f64_of_i64 write_time)\<rparr>)))))))"

definition block_device_body ::
    "bool \<Rightarrow> 'h macos_host_scheme \<Rightarrow> 'k iokit \<Rightarrow> u32 \<Rightarrow> u32 \<Rightarrow> 'k
      \<Rightarrow> (macos_disk_counters option, heim_error) outcome" where
  "block_device_body da m api device par k =
     (if \<not> IOObjectConformsTo api par (''IOBlockStorageDriver'' @ [NUL]) k then Ok None
      else
        and_then (IoObject_properties m api device k) (\<lambda>disk_props.
        and_then (IoObject_properties m api par k) (\<lambda>parent_props.
        and_then (get_string da disk_props ''BSD Name'') (\<lambda>name.
        and_then (get_dict da api parent_props ''Statistics'') (\<lambda>stats.
          map_ok Some (counters_of_props da m disk_props name stats))))))"

definition filter_map_block_devices ::
    "bool \<Rightarrow> 'h macos_host_scheme \<Rightarrow> 'k iokit \<Rightarrow> u32 \<Rightarrow> 'k
      \<Rightarrow> (macos_disk_counters option, heim_error) outcome \<times> 'k" where
  "filter_map_block_devices da m api device k =
     IoObject_drop m api device
       (case IoObject_parent m api device (''IOService'' @ [NUL]) k of
          (Ok par, k') \<Rightarrow> IoObject_drop m api par (block_device_body da m api device par k', k')
        | (Err e, k') \<Rightarrow> (Err e, k')
        | (Panic, k') \<Rightarrow> (Panic, k'))"

text \<open>
  Consuming the stream to its end, and dropping the iterator. A panic in one item drops it too.
  \<open>None\<close> is an iterator without end.
\<close>

partial_function (option) drain ::
    "bool \<Rightarrow> 'h macos_host_scheme \<Rightarrow> 'k iokit \<Rightarrow> u32 \<Rightarrow> 'k \<Rightarrow> (macos_disk_counters, heim_error) outcome list
      \<Rightarrow> (((macos_disk_counters, heim_error) outcome list, heim_error) outcome \<times> 'k) option" where
  "drain da m api it k items =
     (case IoIterator_next api it k of
        (None, k1) \<Rightarrow> Some (IoObject_drop m api it (Ok items, k1))
      | (Some device, k1) \<Rightarrow>
          (case filter_map_block_devices da m api device k1 of
             (Ok None, k2) \<Rightarrow> drain da m api it k2 items
           | (Ok (Some c), k2) \<Rightarrow> drain da m api it k2 (items @ [Ok c])
           | (Err e, k2) \<Rightarrow> drain da m api it k2 (items @ [Err e])
           | (Panic, k2) \<Rightarrow> Some (IoObject_drop m api it (Panic, k2))))"

declare drain.simps [code]

text \<open>
  \<open>io_counters\<close> with its stream read to the end. The master port is dropped when the function
  returns, before the stream is read.
\<close>

definition disk_services ::
    "'h macos_host_scheme \<Rightarrow> 'k iokit \<Rightarrow> 'k \<Rightarrow> (u32, heim_error) outcome \<times> 'k" where
  "disk_services m api k =
     (case IoMasterPort_new m api k of
        (Ok port, k1) \<Rightarrow>
          IoMasterPort_drop m api port (IoMasterPort_get_services m api port (''IOMedia'' @ [NUL]) k1)
      | (Err e, k1) \<Rightarrow> (Err e, k1)
      | (Panic, k1) \<Rightarrow> (Panic, k1))"

definition macos_disk_io_counters ::
    "bool \<Rightarrow> 'h macos_host_scheme \<Rightarrow> 'k iokit \<Rightarrow> 'k
      \<Rightarrow> (((macos_disk_counters, heim_error) outcome list, heim_error) outcome \<times> 'k) option" where
  "macos_disk_io_counters da m api k =
     (case disk_services m api k of
        (Ok it, k1) \<Rightarrow> drain da m api it k1 []
      | (Err e, k1) \<Rightarrow> Some (Err e, k1)
      | (Panic, k1) \<Rightarrow> Some (Panic, k1))"

definition macos_disk_io_counters_physical ::
    "bool \<Rightarrow> 'h macos_host_scheme \<Rightarrow> 'k iokit \<Rightarrow> 'k
      \<Rightarrow> (((macos_disk_counters, heim_error) outcome list, heim_error) outcome \<times> 'k) option" where
  "macos_disk_io_counters_physical da m api k =
     map_option (\<lambda>(r, k'). (map_ok (filter (\<lambda>item.
       case item of Ok c \<Rightarrow> \<not> md_removable c | _ \<Rightarrow> True)) r, k')) (macos_disk_io_counters da m api k)"

section \<open>References\<close>

definition take_ref :: "(u32 \<Rightarrow> nat) \<Rightarrow> u32 \<Rightarrow> u32 \<Rightarrow> nat" where
  "take_ref f x = f(x := Suc (f x))"

definition give_ref :: "(u32 \<Rightarrow> nat) \<Rightarrow> u32 \<Rightarrow> u32 \<Rightarrow> nat" where
  "give_ref f x = f(x := f x - 1)"

lemma give_take_ref [simp]: "give_ref (take_ref f x) x = f" "0 < take_ref f x x"
  by (simp_all add: give_ref_def take_ref_def fun_eq_iff)

lemma give_ref_take_ref: "0 < f y \<Longrightarrow> give_ref (take_ref f x) y = take_ref (give_ref f y) x"
  by (auto simp: give_ref_def take_ref_def fun_eq_iff)

text \<open>
  What IOKit promises, for the references \<open>refs\<close> a kernel state counts and the number \<open>left\<close> of objects
  its iterators still have.
\<close>

definition iokit_ok :: "i32 \<Rightarrow> 'k iokit \<Rightarrow> ('k \<Rightarrow> u32 \<Rightarrow> nat) \<Rightarrow> ('k \<Rightarrow> nat) \<Rightarrow> bool" where
  "iokit_ok success api refs left \<longleftrightarrow>
     (\<forall>k r p k'. IOMasterPort api k = ((r, p), k') \<longrightarrow>
        refs k' = (if r = success then take_ref (refs k) p else refs k)) \<and>
     (\<forall>port name k r it k'. IOServiceGetMatchingServices api port name k = ((r, it), k') \<longrightarrow>
        refs k' = (if r = success then take_ref (refs k) it else refs k)) \<and>
     (\<forall>obj plane k r p k'. IORegistryEntryGetParentEntry api obj plane k = ((r, p), k') \<longrightarrow>
        refs k' = (if r = success then take_ref (refs k) p else refs k) \<and> left k' \<le> left k) \<and>
     (\<forall>it k obj k'. IOIteratorNext api it k = (obj, k') \<longrightarrow>
        (if obj = 0 then refs k' = refs k else refs k' = take_ref (refs k) obj \<and> left k' < left k)) \<and>
     (\<forall>k obj. 0 < refs k obj \<longrightarrow> (\<exists>k'. IOObjectRelease api obj k = (success, k') \<and>
        refs k' = give_ref (refs k) obj \<and> left k' \<le> left k)) \<and>
     (\<forall>k port. 0 < refs k port \<longrightarrow> (\<exists>k'. master_port_deallocate api port k = (success, k') \<and>
        refs k' = give_ref (refs k) port))"

lemma iokit_okD:
  assumes "iokit_ok success api refs left"
  shows "IOMasterPort api k = ((r, p), k') \<Longrightarrow>
      refs k' = (if r = success then take_ref (refs k) p else refs k)"
    and "IOServiceGetMatchingServices api port name k = ((r, p), k') \<Longrightarrow>
      refs k' = (if r = success then take_ref (refs k) p else refs k)"
    and "IORegistryEntryGetParentEntry api obj plane k = ((r, p), k') \<Longrightarrow>
      refs k' = (if r = success then take_ref (refs k) p else refs k) \<and> left k' \<le> left k"
    and "IOIteratorNext api it k = (obj, k') \<Longrightarrow>
      if obj = 0 then refs k' = refs k else refs k' = take_ref (refs k) obj \<and> left k' < left k"
    and "0 < refs k obj \<Longrightarrow> \<exists>k'. IOObjectRelease api obj k = (success, k') \<and>
      refs k' = give_ref (refs k) obj \<and> left k' \<le> left k"
    and "0 < refs k obj \<Longrightarrow> \<exists>k'. master_port_deallocate api obj k = (success, k') \<and>
      refs k' = give_ref (refs k) obj"
proof -
  note ok = assms [unfolded iokit_ok_def]
  show "IOMasterPort api k = ((r, p), k') \<Longrightarrow>
      refs k' = (if r = success then take_ref (refs k) p else refs k)" using ok by (elim conjE) metis
  show "IOServiceGetMatchingServices api port name k = ((r, p), k') \<Longrightarrow>
      refs k' = (if r = success then take_ref (refs k) p else refs k)" using ok by (elim conjE) metis
  show "IORegistryEntryGetParentEntry api obj plane k = ((r, p), k') \<Longrightarrow>
      refs k' = (if r = success then take_ref (refs k) p else refs k) \<and> left k' \<le> left k" using ok by (elim conjE) metis
  show "IOIteratorNext api it k = (obj, k') \<Longrightarrow>
      if obj = 0 then refs k' = refs k else refs k' = take_ref (refs k) obj \<and> left k' < left k" using ok by (elim conjE) metis
  show "0 < refs k obj \<Longrightarrow> \<exists>k'. IOObjectRelease api obj k = (success, k') \<and>
      refs k' = give_ref (refs k) obj \<and> left k' \<le> left k" using ok by (elim conjE) metis
  show "0 < refs k obj \<Longrightarrow> \<exists>k'. master_port_deallocate api obj k = (success, k') \<and>
      refs k' = give_ref (refs k) obj" using ok by (elim conjE) metis
qed

lemma IoObject_drop_ok:
  assumes "iokit_ok (KERN_SUCCESS m) api refs left" "0 < refs (snd s) obj"
  shows "\<exists>k. IoObject_drop m api obj s = (fst s, k) \<and> refs k = give_ref (refs (snd s)) obj \<and>
    left k \<le> left (snd s)"
  using iokit_okD(5) [OF assms] by (auto simp: IoObject_drop_def)

lemma filter_map_block_devices_balanced:
  assumes ok: "iokit_ok (KERN_SUCCESS m) api refs left" and held: "0 < refs k device"
  shows "\<exists>r k'. filter_map_block_devices da m api device k = (r, k') \<and>
    refs k' = give_ref (refs k) device \<and> left k' \<le> left k"
proof -
  let ?plane = "''IOService'' @ [NUL]"
  obtain r p k1 where par: "IORegistryEntryGetParentEntry api device ?plane k = ((r, p), k1)"
    by (metis prod.exhaust)
  note k1 = iokit_okD(3) [OF ok par]
  let ?inner = "case IoObject_parent m api device ?plane k of
      (Ok par, k') \<Rightarrow> IoObject_drop m api par (block_device_body da m api device par k', k')
    | (Err e, k') \<Rightarrow> (Err e, k') | (Panic, k') \<Rightarrow> (Panic, k')"
  have "\<exists>res k2. ?inner = (res, k2) \<and> refs k2 = refs k \<and> left k2 \<le> left k"
  proof (cases "r = KERN_SUCCESS m")
    case True
    with k1 have "0 < refs k1 p" by simp
    then obtain k2 where "IoObject_drop m api p (block_device_body da m api device p k1, k1) =
        (block_device_body da m api device p k1, k2)" "refs k2 = give_ref (refs k1) p" "left k2 \<le> left k1"
      using IoObject_drop_ok [OF ok, of "(block_device_body da m api device p k1, k1)" p] by auto
    with par k1 True show ?thesis by (auto simp: IoObject_parent_def)
  next
    case False
    with par k1 show ?thesis by (simp add: IoObject_parent_def)
  qed
  then obtain res k2 where inner: "?inner = (res, k2)" and k2: "refs k2 = refs k" "left k2 \<le> left k"
    by blast
  from k2 held obtain k3 where "IoObject_drop m api device (res, k2) = (res, k3)"
    "refs k3 = give_ref (refs k) device" "left k3 \<le> left k"
    using IoObject_drop_ok [OF ok, of "(res, k2)" device] by auto
  with inner show ?thesis unfolding filter_map_block_devices_def by simp
qed

lemma drain_balanced:
  assumes ok: "iokit_ok (KERN_SUCCESS m) api refs left"
  shows "0 < refs k it \<Longrightarrow> \<exists>r k'. drain da m api it k items = Some (r, k') \<and> refs k' = give_ref (refs k) it"
proof (induction "left k" arbitrary: k items rule: less_induct)
  case less
  obtain obj k1 where nxt: "IOIteratorNext api it k = (obj, k1)" by force
  note k1 = iokit_okD(4) [OF ok nxt]
  have stop: "\<exists>k'. IoObject_drop m api it (r, k0) = (r, k') \<and> refs k' = give_ref (refs k) it"
    if "refs k0 = refs k" for r :: "((macos_disk_counters, heim_error) outcome list, heim_error) outcome" and k0
    using IoObject_drop_ok [OF ok, of "(r, k0)" it] that less.prems by auto
  show ?case
  proof (cases "obj = 0")
    case True
    with k1 stop [of k1 "Ok items"] nxt show ?thesis
      by (subst drain.simps) (auto simp: IoIterator_next_def)
  next
    case False
    with k1 have "0 < refs k1 obj" by simp
    from filter_map_block_devices_balanced [OF ok this] obtain r k2
      where item: "filter_map_block_devices da m api obj k1 = (r, k2)"
        and k2: "refs k2 = refs k" "left k2 < left k" using k1 False by (fastforce split: if_splits)
    have again: "\<exists>r' k'. drain da m api it k2 items' = Some (r', k') \<and> refs k' = give_ref (refs k) it" for items'
      using less.hyps [of k2 items'] less.prems k2 by simp
    show ?thesis
      using nxt False item again stop [OF k2(1), of Panic]
      by (subst drain.simps) (auto simp: IoIterator_next_def split: outcome.split option.split)
  qed
qed

lemma disk_services_balanced:
  assumes ok: "iokit_ok (KERN_SUCCESS m) api refs left"
  shows "\<exists>r k'. disk_services m api k = (r, k') \<and>
    refs k' = (case r of Ok it \<Rightarrow> take_ref (refs k) it | _ \<Rightarrow> refs k)"
proof -
  obtain r port k1 where new: "IOMasterPort api k = ((r, port), k1)" by (metis prod.exhaust)
  note k1 = iokit_okD(1) [OF ok new]
  show ?thesis
  proof (cases "r = KERN_SUCCESS m")
    case False
    with new k1 show ?thesis by (simp add: disk_services_def IoMasterPort_new_def)
  next
    case True
    let ?name = "''IOMedia'' @ [NUL]"
    obtain res k2 where get: "IoMasterPort_get_services m api port ?name k1 = (res, k2)" by force
    obtain r' it k3 where match: "IOServiceGetMatchingServices api port ?name k1 = ((r', it), k3)"
      by (metis prod.exhaust)
    have refs2: "refs k2 = (case res of Ok it \<Rightarrow> take_ref (refs k1) it | _ \<Rightarrow> refs k1)"
      using get match iokit_okD(2) [OF ok match]
      by (auto simp: IoMasterPort_get_services_def split: if_splits)
    have "0 < refs k2 port"
      using refs2 k1 True by (auto simp: take_ref_def split: outcome.splits)
    then obtain k4 where "master_port_deallocate api port k2 = (KERN_SUCCESS m, k4)"
      "refs k4 = give_ref (refs k2) port"
      using iokit_okD(6) [OF ok] by blast
    then show ?thesis
      using new True get k1 refs2
      by (auto simp: disk_services_def IoMasterPort_new_def IoMasterPort_drop_def give_ref_take_ref
          split: outcome.splits)
  qed
qed

text \<open>
  (C27) Reading the counters of all macOS block devices always ends, and gives back every reference it
  took, to the master port, the iterator, the devices and their parents, whatever properties are
  missing or of another type and whichever call fails.
\<close>

theorem macos_disk_io_counters_balanced:
  assumes "iokit_ok (KERN_SUCCESS m) api refs left"
  shows "\<exists>r k'. macos_disk_io_counters da m api k = Some (r, k') \<and> refs k' = refs k"
proof -
  obtain r k1 where s: "disk_services m api k = (r, k1)"
    and refs: "refs k1 = (case r of Ok it \<Rightarrow> take_ref (refs k) it | _ \<Rightarrow> refs k)"
    using disk_services_balanced [OF assms] by blast
  show ?thesis
  proof (cases r)
    case (Ok it)
    with refs drain_balanced [OF assms, of k1 it da "[]"] s show ?thesis
      by (auto simp: macos_disk_io_counters_def)
  qed (use s refs in \<open>simp_all add: macos_disk_io_counters_def\<close>)
qed

text \<open>A kernel with a list of devices, all of them children of object 99, and reference counts.\<close>

type_synonym counting_kernel = "u32 list \<times> (u32 \<Rightarrow> nat)"

definition counting_iokit :: "(u32 \<Rightarrow> cf_dict) \<Rightarrow> counting_kernel iokit" where
  "counting_iokit props =
     \<lparr>IOMasterPort = (\<lambda>(ds, f). ((0, 50), (ds, take_ref f 50))),
      master_port_deallocate = (\<lambda>o' (ds, f). if 0 < f o' then (0, (ds, give_ref f o')) else (15, (ds, f))),
      matching_is_null = (\<lambda>_. False),
      IOServiceGetMatchingServices = (\<lambda>_ _ (ds, f). ((0, 60), (ds, take_ref f 60))),
      IOIteratorNext = (\<lambda>_ (ds, f). case ds of [] \<Rightarrow> (0, ([], f))
        | d # ds' \<Rightarrow> if d = 0 then (0, (ds', f)) else (d, (ds', take_ref f d))),
      IOObjectRelease = (\<lambda>o' (ds, f). if 0 < f o' then (0, (ds, give_ref f o')) else (15, (ds, f))),
      IORegistryEntryGetParentEntry = (\<lambda>_ _ (ds, f). ((0, 99), (ds, take_ref f 99))),
      IOObjectConformsTo = (\<lambda>_ _ _. True),
      CreateCFProperties = (\<lambda>o' _. (0, props o')),
      cf_reinterpret = (\<lambda>_. [])\<rparr>"

lemma counting_iokit_ok: "iokit_ok 0 (counting_iokit props) snd (\<lambda>k. length (fst k))"
  by (auto simp: iokit_ok_def counting_iokit_def split: list.splits if_splits)

theorem macos_disk_io_counters_balanced_witness:
  "\<exists>r k'. macos_disk_io_counters True sample_macos (counting_iokit (\<lambda>_. [])) ([5, 6], \<lambda>_. 0) = Some (r, k') \<and>
     snd k' = (\<lambda>_. 0)"
proof -
  have "iokit_ok (KERN_SUCCESS sample_macos) (counting_iokit (\<lambda>_. [])) snd (\<lambda>k. length (fst k))"
    using counting_iokit_ok by (simp add: sample_macos_def unix_host.extend_def)
  from macos_disk_io_counters_balanced [OF this, of True "([5, 6], \<lambda>_. 0)"] show ?thesis by simp
qed

section \<open>Mount lists\<close>

text \<open>
  The mount list of macOS: a failure of the first call is a panic, not an error, in every build.
  When the first call reports at most a million mounts, the second call fails with an error or gives
  its entries, except that a build with debug assertions panics whenever the number of mounts changed
  in between.
\<close>

theorem mounts_cases:
  assumes "sint dry \<le> 990000" "0 \<le> sint dry" "fill_buf (statfs_size * dry) = (result, entries)"
  shows "mounts oc da h (-1) fill_buf = Panic \<and>
    mounts oc da h dry fill_buf =
      (if result = -1 then Err \<lparr>err_source = Os (last_errno h), err_context = Some (Ffi ''getfsstat64'')\<rparr>
       else if da \<and> result \<noteq> dry then Panic
       else Ok (take (unat result) entries))"
  using assms
  by (auto simp: mounts_def statfs_size_def Error_last_os_error_def with_context_defs)

theorem mounts_cases_witness:
  "mounts True True sample_macos 1 (\<lambda>_. (2, [])) = Panic \<and> mounts True False sample_macos 1 (\<lambda>_. (2, [])) = Ok []"
  using mounts_cases [of 1 "\<lambda>_. (2, [])" 2 "[]" True True sample_macos]
    mounts_cases [of 1 "\<lambda>_. (2, [])" 2 "[]" True False sample_macos] by simp

text \<open>
  The macOS partitions: every mount is one, the conversion never panics, and the physical ones
  are exactly those whose file system is one of the known kinds, in the order of the mounts.
\<close>

theorem unix_partitions_physical_known:
  assumes "mounts oc da h dry fill_buf = Ok ms"
  shows "\<exists>ps. unix_partitions oc da h dry fill_buf = Ok (map Ok ps) \<and> length ps = length ms \<and>
    unix_partitions_physical oc da h dry fill_buf = Ok (map Ok (filter (\<lambda>p. is_physical (up_fs p)) ps))"
proof -
  have total: "\<exists>p. unix_Partition_from st = Ok p" for st
    by (auto simp: unix_Partition_from_def FileSystem_from_str_def Let_def split: option.splits)
  then obtain f where f: "unix_Partition_from = (\<lambda>st. Ok (f st))" by metis
  have "filter keep_physical_item (map (\<lambda>st. Ok (f st)) xs) =
      map Ok (filter (\<lambda>p. is_physical (up_fs p)) (map f xs))" for xs
    by (induction xs) (auto simp: keep_physical_item_def)
  then show ?thesis
    using assms
    by (intro exI [of _ "map f ms"]) (simp add: unix_partitions_def unix_partitions_physical_def f o_def)
qed

theorem unix_partitions_physical_known_witness:
  "\<exists>ps. unix_partitions True True sample_macos 0 (\<lambda>_. (0, [])) = Ok (map Ok ps) \<and> length ps = 0 \<and>
    unix_partitions_physical True True sample_macos 0 (\<lambda>_. (0, [])) =
      Ok (map Ok (filter (\<lambda>p. is_physical (up_fs p)) ps))"
  using unix_partitions_physical_known [of True True sample_macos 0 "\<lambda>_. (0, [])" "[]"]
  by (simp add: mounts_def)

end
