(* ===== verification/Windows_Sys.thy ===== *)
theory Windows_Sys
  imports Retry_Buffer Host_Linux
begin

text \<open>
  Windows below the process level: \<open>heim-common/src/sys/windows\<close> (handles, the conversion of file
  times), \<open>heim-host/src/sys/windows\<close> (boot time, uptime), \<open>heim-memory/src/sys/windows\<close> and
  \<open>heim-cpu/src/sys/windows\<close>.

  The answers of the system are fields of the record \<open>win_host\<close>: a result with the value that was
  written. The handles of a process are a kernel state of any type with the call that closes one.

  The theorems: closing a handle explicitly always panics; the buffer of the processor list is too
  small whenever the list grew; the physical processors are the core entries of that list, and an
  entry of size zero is never passed; the swap numbers are exact or underflow.
\<close>

section \<open>The answers of the system\<close>

record filetime =
  dwLowDateTime :: u32
  dwHighDateTime :: u32

record memory_status =
  ullTotalPhys :: u64
  ullAvailPhys :: u64
  ullTotalPageFile :: u64
  ullAvailPageFile :: u64

record processor_performance =
  IdleTime :: filetime
  KernelTime :: filetime
  UserTime :: filetime
  InterruptCount :: u32

record system_performance =
  ContextSwitches :: u32
  SystemCalls :: u32

record processor_power =
  MaxMhz :: u32
  CurrentMhz :: u32

text \<open>
  \<open>lpi_answer i n\<close> is what the \<open>i\<close>-th call for the processor list answers for a buffer said to have \<open>n\<close>
  bytes: its result, the error, the size it reports and the bytes it stored. The lists of the other
  answers are the memory of the buffer after the call.
\<close>

record win_host = host +
  ERROR_INSUFFICIENT_BUFFER :: i32
  STATUS_SUCCESS :: i32
  RelationProcessorCore :: nat
  Time_milli :: "fval \<Rightarrow> fval"
  Frequency_mhz :: "u64 \<Rightarrow> u64"
  system_time :: filetime
  tick_count :: u64
  memory_status_answer :: "i32 \<times> memory_status"
  active_processor_count :: u32
  number_of_processors :: u32
  lpi_dry :: nat
  lpi_answer :: "nat \<Rightarrow> nat \<Rightarrow> i32 \<times> i32 \<times> nat \<times> bytes"
  lpi_beyond :: bytes
  system_times_answer :: "i32 \<times> filetime \<times> filetime \<times> filetime"
  processor_performance_answer :: "i32 \<times> processor_performance list"
  system_performance_answer :: "i32 \<times> system_performance list"
  dpc_answer :: "i32 \<times> u32 list"
  power_answer :: "i32 \<times> processor_power list"

section \<open>Times\<close>

text \<open>\<open>f64::mul_add\<close>: one rounding for the product and the sum.\<close>

fun f_mul_add :: "(rat \<Rightarrow> fval) \<Rightarrow> fval \<Rightarrow> fval \<Rightarrow> fval \<Rightarrow> fval" where
  "f_mul_add r (Fin a) (Fin b) (Fin c) = r (a * b + c)"
| "f_mul_add r (Fin a) (Fin b) c = c"
| "f_mul_add r a b c = f_add r (f_mul r a b) c"

definition HI_T :: fval where "HI_T = rnd64 (4294967296 / 10000000)"
definition LO_T :: fval where "LO_T = rnd64 (1 / 10000000)"

definition filetime_into_time :: "'h host_scheme \<Rightarrow> filetime \<Rightarrow> fval" where
  "filetime_into_time h ft =
     (let low = f_mul rnd64 LO_T (f64_of_u32 (dwLowDateTime ft))
      in Time_new h (f_mul_add rnd64 HI_T (f64_of_u32 (dwHighDateTime ft)) low))"

text \<open>A large integer: its high part is signed.\<close>

definition large_integer_into_time :: "'h host_scheme \<Rightarrow> filetime \<Rightarrow> fval" where
  "large_integer_into_time h li =
     (let low = f_mul rnd64 LO_T (f64_of_u32 (dwLowDateTime li))
      in Time_new h (f_mul_add rnd64 HI_T (f64_of_i32 (dwHighDateTime li)) low))"

section \<open>Handles\<close>

text \<open>The kernel's table of open handles is any state; \<open>CloseHandle\<close> answers nonzero on success.\<close>

record 'k handle_api =
  INVALID_HANDLE_VALUE :: u64
  CloseHandle :: "u64 \<Rightarrow> 'k \<Rightarrow> i32 \<times> 'k"

definition Handle_new :: "'k handle_api \<Rightarrow> u64 \<Rightarrow> (u64, 'e) outcome" where
  "Handle_new api h = (if h = INVALID_HANDLE_VALUE api then Panic else Ok h)"

text \<open>Dropping a handle at the end of its scope, with the result computed in it.\<close>

definition Handle_drop :: "'k handle_api \<Rightarrow> u64 \<Rightarrow> ('a, 'e) outcome \<times> 'k \<Rightarrow> ('a, 'e) outcome \<times> 'k" where
  "Handle_drop api h s =
     (case CloseHandle api h (snd s) of (result, k) \<Rightarrow> (if result \<noteq> 0 then fst s else Panic, k))"

text \<open>\<open>close\<close> takes the handle by value, so that it is dropped when the method returns.\<close>

definition Handle_close ::
    "'h host_scheme \<Rightarrow> 'k handle_api \<Rightarrow> u64 \<Rightarrow> 'k \<Rightarrow> (unit, heim_error) outcome \<times> 'k" where
  "Handle_close h api handle k =
     Handle_drop api handle
       (case CloseHandle api handle k of (result, k') \<Rightarrow>
          (if result = 0 then Err (with_ffi (Error_last_os_error (last_errno h)) ''Closehandle'') else Ok (), k'))"

section \<open>Host\<close>

definition unix_epoch_delta :: "'h host_scheme \<Rightarrow> fval" where
  "unix_epoch_delta h = Time_new h (Fin 11644473600)"

definition windows_boot_time :: "'h win_host_scheme \<Rightarrow> (fval, heim_error) outcome" where
  "windows_boot_time w = Ok (f_sub rnd64 (filetime_into_time w (system_time w)) (unix_epoch_delta w))"

definition windows_uptime :: "'h win_host_scheme \<Rightarrow> (fval, heim_error) outcome" where
  "windows_uptime w = Ok (Time_milli w (f64_of_u64 (tick_count w)))"

section \<open>Memory\<close>

definition memory_status :: "'h win_host_scheme \<Rightarrow> (memory_status, heim_error) outcome" where
  "memory_status w =
     (case memory_status_answer w of (result, status) \<Rightarrow>
        if result = 0 then Err (Error_last_os_error (last_errno w)) else Ok status)"

definition windows_memory_total :: "'h host_scheme \<Rightarrow> memory_status \<Rightarrow> u64" where
  "windows_memory_total h m = Information_new h Byte (ullTotalPhys m)"

definition windows_memory_available :: "'h host_scheme \<Rightarrow> memory_status \<Rightarrow> u64" where
  "windows_memory_available h m = Information_new h Byte (ullAvailPhys m)"

definition windows_memory_free :: "'h host_scheme \<Rightarrow> memory_status \<Rightarrow> u64" where
  "windows_memory_free h m = windows_memory_available h m"

definition windows_swap_total :: "'h host_scheme \<Rightarrow> memory_status \<Rightarrow> (u64, heim_error) outcome" where
  "windows_swap_total h m =
     map_ok (Information_new h Byte) (u64_sub (overflow_checks h) (ullTotalPageFile m) (ullTotalPhys m))"

definition windows_swap_free :: "'h host_scheme \<Rightarrow> memory_status \<Rightarrow> (u64, heim_error) outcome" where
  "windows_swap_free h m =
     and_then (u64_sub (overflow_checks h) (ullAvailPageFile m) (ullAvailPhys m)) (\<lambda>avail.
     and_then (windows_swap_total h m) (\<lambda>tot.
       Ok (min (Information_new h Byte avail) tot)))"

definition windows_swap_used :: "'h host_scheme \<Rightarrow> memory_status \<Rightarrow> (u64, heim_error) outcome" where
  "windows_swap_used h m =
     and_then (windows_swap_total h m) (\<lambda>tot.
     and_then (windows_swap_free h m) (\<lambda>free. u64_sub (overflow_checks h) tot free))"

definition windows_memory :: "'h win_host_scheme \<Rightarrow> (memory_status, heim_error) outcome" where
  "windows_memory w = memory_status w"

definition windows_swap :: "'h win_host_scheme \<Rightarrow> (memory_status, heim_error) outcome" where
  "windows_swap w = memory_status w"

section \<open>The list of processors\<close>

text \<open>
  \<open>LogicalProcessors::get\<close>: one round with the capacity \<open>cap\<close> and the size reported so far. A size
  below the capacity underflows: the difference wraps to more than any vector can hold, so it is a
  panic in every build.
\<close>

datatype lpi_result = LpiAgain nat nat | LpiDone "(bytes, heim_error) outcome"

definition lpi_round ::
    "'h win_host_scheme \<Rightarrow> nat \<Rightarrow> nat \<Rightarrow> nat \<Rightarrow> fill_call list \<times> lpi_result" where
  "lpi_round w i cap buffer_size =
     (case (if buffer_size < cap then Panic else reserve 1 cap 0 (buffer_size - cap)) of
        Ok cap' \<Rightarrow>
          (case lpi_answer w i buffer_size of (result, errno, sz, data) \<Rightarrow>
             ([\<lparr>told = buffer_size, room = cap'\<rparr>],
              if result = 0 then
                if errno = ERROR_INSUFFICIENT_BUFFER w then LpiAgain cap' sz
                else LpiDone (Err (with_ffi (Error_last_os_error errno) ''GetLogicalProcessorInformationEx''))
              else LpiDone (Ok data)))
      | Err e \<Rightarrow> ([], LpiDone (Err e))
      | Panic \<Rightarrow> ([], LpiDone Panic))"

partial_function (option) lpi_loop ::
    "'h win_host_scheme \<Rightarrow> nat \<Rightarrow> nat \<Rightarrow> nat \<Rightarrow> fill_call list
      \<Rightarrow> (fill_call list \<times> (bytes, heim_error) outcome) option" where
  "lpi_loop w i cap buffer_size calls =
     (case lpi_round w i cap buffer_size of
        (new, LpiAgain cap' sz) \<Rightarrow> lpi_loop w (Suc i) cap' sz (calls @ new)
      | (new, LpiDone r) \<Rightarrow> Some (calls @ new, r))"

declare lpi_loop.simps [code]

definition LogicalProcessors_get ::
    "'h win_host_scheme \<Rightarrow> (fill_call list \<times> (bytes, heim_error) outcome) option" where
  "LogicalProcessors_get w = lpi_loop w 0 0 (lpi_dry w) []"

text \<open>
  The iterator: the relationship is the first word of an entry and its size the second. Reading an
  entry does not look at how many bytes are left.
\<close>

definition LogicalProcessorsIter_next :: "bool \<Rightarrow> bytes \<Rightarrow> bytes \<Rightarrow> nat \<Rightarrow> (nat \<times> nat) option" where
  "LogicalProcessorsIter_next be after data offset =
     (if length data \<le> offset then None
      else let entry = drop offset (data @ after)
           in Some (field_at be 0 4 entry, offset + field_at be 4 4 entry))"

text \<open>Counting the entries of one relationship; \<open>None\<close> is an iterator without end.\<close>

partial_function (option) count_entries :: "bool \<Rightarrow> bytes \<Rightarrow> nat \<Rightarrow> bytes \<Rightarrow> nat \<Rightarrow> nat \<Rightarrow> nat option" where
  "count_entries be after relation data offset n =
     (case LogicalProcessorsIter_next be after data offset of
        None \<Rightarrow> Some n
      | Some (r, offset') \<Rightarrow> count_entries be after relation data offset' (if r = relation then Suc n else n))"

declare count_entries.simps [code]

definition windows_physical_count :: "bool \<Rightarrow> 'h win_host_scheme \<Rightarrow> (u64 option, heim_error) outcome option" where
  "windows_physical_count be w =
     (case LogicalProcessors_get w of
        None \<Rightarrow> None
      | Some (_, Ok data) \<Rightarrow>
          map_option (\<lambda>count. Ok (if 0 < count then Some (of_nat count) else None))
            (count_entries be (lpi_beyond w) (RelationProcessorCore w) data 0 0)
      | Some (_, Err e) \<Rightarrow> Some (Err e)
      | Some (_, Panic) \<Rightarrow> Some Panic)"

definition windows_logical_count :: "'h win_host_scheme \<Rightarrow> (u64, heim_error) outcome" where
  "windows_logical_count w =
     (if 0 < active_processor_count w then Ok (ucast (active_processor_count w))
      else Err (with_ffi (Error_last_os_error (last_errno w)) ''GetActiveProcessorCount''))"

section \<open>Times, statistics, frequency\<close>

record windows_cpu_time =
  wct_user :: fval
  wct_system :: fval
  wct_idle :: fval

definition windows_time :: "'h win_host_scheme \<Rightarrow> (windows_cpu_time, heim_error) outcome" where
  "windows_time w =
     (case system_times_answer w of (result, idle, kern, user) \<Rightarrow>
        if result = 0 then Err (with_ffi (Error_last_os_error (last_errno w)) ''GetSystemTimes'')
        else let idle' = filetime_into_time w idle
             in Ok \<lparr>wct_user = filetime_into_time w user,
                    wct_system = f_sub rnd64 (filetime_into_time w kern) idle', wct_idle = idle'\<rparr>)"

definition no_processors :: heim_error where
  "no_processors = with_message (Error_from_io (Simple InvalidData)) ''No processors were found''"

text \<open>
  The wrapper around \<open>NtQuerySystemInformation\<close>: as many items as there are processors, whatever
  number the system stored.
\<close>

definition query_system_information ::
    "'h win_host_scheme \<Rightarrow> i32 \<times> 'a list \<Rightarrow> ('a list, heim_error) outcome" where
  "query_system_information w answer =
     (if number_of_processors w = 0 then Err no_processors
      else case answer of (result, mem) \<Rightarrow>
        if result \<noteq> STATUS_SUCCESS w
        then Err (with_ffi (Error_last_os_error (last_errno w)) ''NtQuerySystemInformation'')
        else Ok (take (unat (number_of_processors w)) mem))"

definition windows_times :: "'h win_host_scheme \<Rightarrow> (windows_cpu_time list, heim_error) outcome" where
  "windows_times w =
     map_ok (map (\<lambda>p.
       let idle = large_integer_into_time w (IdleTime p)
       in \<lparr>wct_user = large_integer_into_time w (UserTime p),
           wct_system = f_sub rnd64 (large_integer_into_time w (KernelTime p)) idle, wct_idle = idle\<rparr>))
       (query_system_information w (processor_performance_answer w))"

record windows_cpu_stats =
  ws_ctx_switches :: u64
  ws_interrupts :: u64
  ws_dpc :: u64
  ws_syscalls :: u64

definition system_performance_info :: "'h win_host_scheme \<Rightarrow> (u64 \<times> u64, heim_error) outcome" where
  "system_performance_info w =
     and_then (query_system_information w (system_performance_answer w)) (\<lambda>info.
       case info of
         [] \<Rightarrow> Panic
       | p # _ \<Rightarrow> Ok (ucast (ContextSwitches p), ucast (SystemCalls p)))"

definition dpc_count :: "'h win_host_scheme \<Rightarrow> (u64, heim_error) outcome" where
  "dpc_count w =
     map_ok (\<lambda>info. foldl (\<lambda>acc n. acc + ucast n) 0 info) (query_system_information w (dpc_answer w))"

definition windows_interrupts :: "'h win_host_scheme \<Rightarrow> (u64, heim_error) outcome" where
  "windows_interrupts w =
     map_ok (\<lambda>info. foldl (\<lambda>acc p. acc + ucast (InterruptCount p)) 0 info)
       (query_system_information w (processor_performance_answer w))"

definition windows_stats :: "'h win_host_scheme \<Rightarrow> (windows_cpu_stats, heim_error) outcome" where
  "windows_stats w =
     and_then (system_performance_info w) (\<lambda>(ctx_switches, system_calls).
     and_then (dpc_count w) (\<lambda>dpc.
     and_then (windows_interrupts w) (\<lambda>interrupts.
       Ok \<lparr>ws_ctx_switches = ctx_switches, ws_interrupts = interrupts, ws_dpc = dpc,
           ws_syscalls = system_calls\<rparr>)))"

definition get_processors :: "'h win_host_scheme \<Rightarrow> (processor_power list, heim_error) outcome" where
  "get_processors w =
     (if number_of_processors w = 0 then Err no_processors
      else case power_answer w of (result, mem) \<Rightarrow>
        if result = STATUS_SUCCESS w then Ok (take (unat (number_of_processors w)) mem)
        else Err (with_ffi (Error_last_os_error (last_errno w)) ''CallNtPowerInformation''))"

definition windows_frequency :: "'h win_host_scheme \<Rightarrow> (processor_power, heim_error) outcome" where
  "windows_frequency w =
     and_then (get_processors w) (\<lambda>ps. case ps of [] \<Rightarrow> Err no_processors | p # _ \<Rightarrow> Ok p)"

definition windows_frequency_current :: "'h win_host_scheme \<Rightarrow> processor_power \<Rightarrow> u64" where
  "windows_frequency_current w p = Frequency_mhz w (ucast (CurrentMhz p))"

definition windows_frequency_max :: "'h win_host_scheme \<Rightarrow> processor_power \<Rightarrow> u64 option" where
  "windows_frequency_max w p = Some (Frequency_mhz w (ucast (MaxMhz p)))"

section \<open>Closing handles\<close>

text \<open>What is relied on: an open handle can be closed once, and closing any other number fails.\<close>

definition handles_ok :: "'k handle_api \<Rightarrow> ('k \<Rightarrow> u64 set) \<Rightarrow> bool" where
  "handles_ok api opened \<longleftrightarrow>
     (\<forall>k h. \<exists>r k'. CloseHandle api h k = (r, k') \<and> opened k' = opened k - {h} \<and> (r \<noteq> 0 \<longleftrightarrow> h \<in> opened k))"

lemma handles_okE:
  assumes "handles_ok api opened"
  obtains r k' where "CloseHandle api h k = (r, k')" "opened k' = opened k - {h}" "r \<noteq> 0 \<longleftrightarrow> h \<in> opened k"
  using assms unfolding handles_ok_def by metis

lemma Handle_drop_open:
  assumes "handles_ok api opened" "h \<in> opened (snd s)"
  shows "\<exists>k. Handle_drop api h s = (fst s, k) \<and> opened k = opened (snd s) - {h}"
  using assms by (elim handles_okE [of api opened h "snd s"]) (auto simp: Handle_drop_def)

text \<open>
  Closing a Windows handle explicitly always panics: the handle is closed, and then closed again
  when the method drops it, which fails. Dropping it without the call closes it once.
\<close>

theorem Handle_close_panics:
  assumes "handles_ok api opened"
  shows "(\<exists>k'. Handle_close h api handle k = (Panic, k') \<and> opened k' = opened k - {handle}) \<and>
    (handle \<in> opened k \<longrightarrow>
      (\<exists>k'. Handle_drop api handle (r, k) = (r, k') \<and> opened k' = opened k - {handle}))"
proof
  obtain r1 k1 where c1: "CloseHandle api handle k = (r1, k1)" "opened k1 = opened k - {handle}"
    using handles_okE [OF assms] by metis
  obtain r2 k2 where c2: "CloseHandle api handle k1 = (r2, k2)" "opened k2 = opened k1 - {handle}"
      "r2 \<noteq> 0 \<longleftrightarrow> handle \<in> opened k1"
    using handles_okE [OF assms] by metis
  from c1 c2 show "\<exists>k'. Handle_close h api handle k = (Panic, k') \<and> opened k' = opened k - {handle}"
    by (auto simp: Handle_close_def Handle_drop_def)
  show "handle \<in> opened k \<longrightarrow>
      (\<exists>k'. Handle_drop api handle (r, k) = (r, k') \<and> opened k' = opened k - {handle})"
    using Handle_drop_open [OF assms, of handle "(r, k)"] by auto
qed

definition set_handles :: "u64 set handle_api" where
  "set_handles =
     \<lparr>INVALID_HANDLE_VALUE = -1, CloseHandle = (\<lambda>h k. (if h \<in> k then 1 else 0, k - {h}))\<rparr>"

lemma set_handles_ok: "handles_ok set_handles (\<lambda>k. k)"
  by (simp add: handles_ok_def set_handles_def)

theorem Handle_close_panics_witness: "fst (Handle_close sample_host set_handles 8 {8}) = Panic"
  using Handle_close_panics [OF set_handles_ok, where h = sample_host and handle = 8 and k = "{8}" and
      r = "Ok () :: (unit, heim_error) outcome"] by auto

section \<open>The buffer of the processor list\<close>

definition lpi_cap :: "nat \<Rightarrow> nat \<Rightarrow> nat" where
  "lpi_cap cap n = (if cap < n - cap then max (max (2 * cap) (n - cap)) 8 else cap)"

interpretation windows_buffer: retry_buffer lpi_cap 8
  by unfold_locales (auto simp: lpi_cap_def max_def)

lemma lpi_round_call:
  "lpi_round w i cap n = (new, LpiAgain cap' sz) \<Longrightarrow> new = [\<lparr>told = n, room = lpi_cap cap n\<rparr>] \<and> cap' = lpi_cap cap n"
  "lpi_round w i cap n = (new, LpiDone r) \<Longrightarrow> new = [] \<or> new = [\<lparr>told = n, room = lpi_cap cap n\<rparr>]"
  by (auto simp: lpi_round_def reserve_def lpi_cap_def max_def split: if_splits prod.splits outcome.splits)

lemma lpi_loop_calls:
  assumes run: "lpi_loop w i cap n calls = Some (cs, r)"
  shows "\<exists>new. cs = calls @ new \<and> calls_from lpi_cap cap new"
proof -
  let ?P = "\<lambda>(w :: 'a win_host_scheme) (i :: nat) cap (n :: nat) calls (y :: fill_call list \<times> (bytes, heim_error) outcome).
    \<exists>new. fst y = calls @ new \<and> calls_from lpi_cap cap new"
  have "?P w i cap n calls (cs, r)"
  proof (rule lpi_loop.raw_induct [OF _ run])
    fix loop w i cap n calls y
    assume IH: "\<And>w i cap n calls y. loop w i cap n calls = Some y \<Longrightarrow> ?P w i cap n calls y"
      and step: "(case lpi_round w i cap n of
          (new, LpiAgain cap' sz) \<Rightarrow> loop w (Suc i) cap' sz (calls @ new)
        | (new, LpiDone r) \<Rightarrow> Some (calls @ new, r)) = Some y"
    obtain new res where round: "lpi_round w i cap n = (new, res)" by force
    show "?P w i cap n calls y"
    proof (cases res)
      case (LpiAgain cap' sz)
      then have "loop w (Suc i) cap' sz (calls @ new) = Some y" using step round by simp
      from IH [OF this] lpi_round_call(1) [of w i cap n new cap' sz] round LpiAgain show ?thesis by auto
    next
      case (LpiDone r)
      with step round lpi_round_call(2) [of w i cap n new r] show ?thesis by auto
    qed
  qed
  then show ?thesis by simp
qed

text \<open>
  (C25) The buffer for the Windows processor list: the first call never tells the system of more room
  than the buffer has, and a repeated call does so exactly when the list no longer fits the buffer of
  the call before (if that has room for eight bytes), which is why it is repeated.
\<close>

theorem LogicalProcessors_buffer_room:
  assumes "LogicalProcessors_get w = Some (calls, r)"
  shows "(calls \<noteq> [] \<longrightarrow> fits (hd calls)) \<and>
    (\<forall>k. Suc k < length calls \<and> 8 \<le> room (calls ! k) \<longrightarrow>
      (fits (calls ! Suc k) \<longleftrightarrow> told (calls ! Suc k) \<le> room (calls ! k)))"
proof -
  have "calls_from lpi_cap 0 calls"
    using lpi_loop_calls assms unfolding LogicalProcessors_get_def by fastforce
  then show ?thesis using windows_buffer.calls_fit by blast
qed

definition sample_win :: win_host where
  "sample_win = host.extend sample_host
     \<lparr>ERROR_INSUFFICIENT_BUFFER = 122, STATUS_SUCCESS = 0, RelationProcessorCore = 0,
      Time_milli = (\<lambda>x. f_div rnd64 x (Fin 1000)), Frequency_mhz = (\<lambda>n. n * 1000000),
      system_time = \<lparr>dwLowDateTime = 0, dwHighDateTime = 30000000\<rparr>, tick_count = 5000,
      memory_status_answer = (1, \<lparr>ullTotalPhys = 8, ullAvailPhys = 4, ullTotalPageFile = 12, ullAvailPageFile = 6\<rparr>),
      active_processor_count = 4, number_of_processors = 1, lpi_dry = 32,
      lpi_answer = (\<lambda>i n. if i = 0 then (0, 122, 48, []) else (1, 0, n, replicate 48 NUL)), lpi_beyond = [],
      system_times_answer = (0, \<lparr>dwLowDateTime = 0, dwHighDateTime = 0\<rparr>, \<lparr>dwLowDateTime = 0, dwHighDateTime = 0\<rparr>,
        \<lparr>dwLowDateTime = 0, dwHighDateTime = 0\<rparr>),
      processor_performance_answer = (0, []), system_performance_answer = (0, []), dpc_answer = (0, []),
      power_answer = (0, [])\<rparr>"

theorem LogicalProcessors_buffer_room_witness:
  "\<exists>r. LogicalProcessors_get sample_win = Some ([\<lparr>told = 32, room = 32\<rparr>, \<lparr>told = 48, room = 32\<rparr>], r) \<and>
     \<not> fits \<lparr>told = 48, room = 32\<rparr>"
proof -
  have run: "LogicalProcessors_get sample_win =
      Some ([\<lparr>told = 32, room = 32\<rparr>, \<lparr>told = 48, room = 32\<rparr>], Ok (replicate 48 NUL))"
    unfolding LogicalProcessors_get_def
    by (subst lpi_loop.simps, simp add: lpi_round_def reserve_def sample_win_def host.extend_def,
        subst lpi_loop.simps, simp add: lpi_round_def reserve_def sample_win_def host.extend_def)
  from LogicalProcessors_buffer_room [OF run] run show ?thesis by (auto simp: fits_def)
qed

section \<open>Counting processors\<close>

text \<open>An entry of the list: it carries its own size, of at least the two words that are read.\<close>

definition entry_ok :: "bool \<Rightarrow> bytes \<Rightarrow> bool" where
  "entry_ok be e \<longleftrightarrow> 8 \<le> length e \<and> field_at be 4 4 e = length e"

lemma count_entries_list:
  assumes "\<forall>e\<in>set es. entry_ok be e"
  shows "count_entries be after relation (pre @ concat es) (length pre) n =
    Some (n + length (filter (\<lambda>e. field_at be 0 4 e = relation) es))"
  using assms
proof (induction es arbitrary: pre n)
  case Nil
  then show ?case by (subst count_entries.simps) (simp add: LogicalProcessorsIter_next_def)
next
  case (Cons e es)
  have e: "8 \<le> length e" "field_at be 4 4 e = length e" using Cons.prems by (auto simp: entry_ok_def)
  then have "LogicalProcessorsIter_next be after (pre @ e @ concat es) (length pre) =
      Some (field_at be 0 4 e, length (pre @ e))"
    by (auto simp: LogicalProcessorsIter_next_def Let_def field_at_append)
  with Cons.IH [of "pre @ e"] Cons.prems show ?case by (subst count_entries.simps) simp
qed

text \<open>
  The number of physical processors on Windows: of a list of complete entries, the entries for
  cores are counted, whatever lies behind the buffer; a list without any gives no number.
\<close>

theorem windows_physical_count_entries:
  assumes "LogicalProcessors_get w = Some (calls, Ok (concat es))" "\<forall>e\<in>set es. entry_ok be e"
  defines "n \<equiv> length (filter (\<lambda>e. field_at be 0 4 e = RelationProcessorCore w) es)"
  shows "windows_physical_count be w = Some (Ok (if n = 0 then None else Some (of_nat n)))"
  using assms(1) count_entries_list [OF assms(2), of "lpi_beyond w" "RelationProcessorCore w" "[]" 0]
  by (simp add: windows_physical_count_def n_def)

definition sample_entry :: "nat \<Rightarrow> bytes" where
  "sample_entry relation =
     [char_of relation, NUL, NUL, NUL, CHR 0x0C, NUL, NUL, NUL, NUL, NUL, NUL, NUL]"

theorem windows_physical_count_entries_witness:
  "windows_physical_count False (sample_win\<lparr>lpi_answer := \<lambda>_ _. (1, 0, 36,
     concat [sample_entry 0, sample_entry 2, sample_entry 0])\<rparr>) = Some (Ok (Some 2))"
proof -
  let ?es = "[sample_entry 0, sample_entry 2, sample_entry 0]"
  let ?w = "sample_win\<lparr>lpi_answer := \<lambda>_ _. (1, 0, 36, concat ?es)\<rparr>"
  have run: "LogicalProcessors_get ?w = Some ([\<lparr>told = 32, room = 32\<rparr>], Ok (concat ?es))"
    unfolding LogicalProcessors_get_def
    by (subst lpi_loop.simps, simp add: lpi_round_def reserve_def sample_win_def host.extend_def)
  have e: "entry_ok False (sample_entry 0)" "entry_ok False (sample_entry 2)"
    "field_at False 0 4 (sample_entry 0) = 0" "field_at False 0 4 (sample_entry 2) = 2"
    by (simp_all add: entry_ok_def sample_entry_def field_at_def mem_value_def byte_def)
  have core: "RelationProcessorCore sample_win = 0" by (simp add: sample_win_def host.extend_def)
  show ?thesis using windows_physical_count_entries [OF run, of False] by (simp add: e core)
qed

section \<open>Swap\<close>

text \<open>
  Swap on Windows: when both differences of the kernel's numbers are not negative, the total is
  the first, the free amount the second but never more than the total, and the used amount what is
  left; when less of the page file than of the memory is available, a build with overflow checks
  panics, and one without reports all of the swap as free, the wrapped difference being larger.
\<close>

theorem windows_swap_amounts:
  assumes bytes: "\<And>n. Information_new h Byte n = n" and tot: "ullTotalPhys m \<le> ullTotalPageFile m"
    and fit: "ullTotalPageFile m - ullTotalPhys m \<le> ullAvailPageFile m - ullAvailPhys m \<or>
      ullAvailPhys m \<le> ullAvailPageFile m"
  defines "t \<equiv> ullTotalPageFile m - ullTotalPhys m" and "a \<equiv> ullAvailPageFile m - ullAvailPhys m"
  shows "windows_swap_total h m = Ok t \<and>
    windows_swap_free h m =
      (if ullAvailPageFile m < ullAvailPhys m \<and> overflow_checks h then Panic else Ok (min a t)) \<and>
    windows_swap_used h m =
      (if ullAvailPageFile m < ullAvailPhys m \<and> overflow_checks h then Panic else Ok (t - min a t)) \<and>
    (ullAvailPageFile m < ullAvailPhys m \<longrightarrow> min a t = t)"
proof -
  have t: "windows_swap_total h m = Ok t"
    using tot bytes by (simp add: windows_swap_total_def u64_sub_exact t_def)
  have free: "windows_swap_free h m =
      (if ullAvailPageFile m < ullAvailPhys m \<and> overflow_checks h then Panic else Ok (min a t))"
    using t bytes by (simp add: windows_swap_free_def u64_sub_def a_def)
  have "min a t \<le> t" by simp
  with t free have "windows_swap_used h m =
      (if ullAvailPageFile m < ullAvailPhys m \<and> overflow_checks h then Panic else Ok (t - min a t))"
    by (simp add: windows_swap_used_def u64_sub_exact)
  moreover have "ullAvailPageFile m < ullAvailPhys m \<longrightarrow> min a t = t"
    using fit by (auto simp: t_def a_def min_def)
  ultimately show ?thesis using t free by simp
qed

theorem windows_swap_amounts_witness:
  "windows_swap_used (sample_host) \<lparr>ullTotalPhys = 8, ullAvailPhys = 4, ullTotalPageFile = 12, ullAvailPageFile = 6\<rparr> = Ok 2"
  using windows_swap_amounts [of sample_host
      "\<lparr>ullTotalPhys = 8, ullAvailPhys = 4, ullTotalPageFile = 12, ullAvailPageFile = 6\<rparr>"]
  by (simp add: sample_host_def min_def)

end
