(* ===== verification/Process_Windows.thy ===== *)
theory Process_Windows
  imports Windows_Sys Process_Handle
begin

text \<open>
  Processes on Windows: \<open>heim-process/src/sys/windows\<close> (\<open>bindings/\<close>, \<open>pids.rs\<close>, \<open>process/\<close>) and
  \<open>src/os/windows/priority.rs\<close>.

  A process handle is opened, used for one query and dropped; the kernel's table of open handles is
  threaded through every operation. Queries are fields of the record \<open>win_proc_host\<close>. Structures of
  the \<open>ntapi\<close> crate are byte blocks with functions that read their fields. An operation whose loop may
  run forever returns an option.

  The theorems: every operation gives its handles back; listing the process ids returns exactly below
  1024 processes; searching the kernel's process table finds a process that is in it and never returns
  for one that is not; the two sources of the creation time differ by the distance of the epochs;
  priorities convert back and forth; the working directory of an odd length is read past its buffer.
\<close>

type_synonym u16 = "16 word"
type_synonym wide = "u16 list"

section \<open>The answers of the system\<close>

record process_memory =
  PageFaultCount :: u32
  PeakWorkingSetSize :: u64
  WorkingSetSize :: u64
  QuotaPeakPagedPoolUsage :: u64
  QuotaPagedPoolUsage :: u64
  QuotaPeakNonPagedPoolUsage :: u64
  QuotaNonPagedPoolUsage :: u64
  PagefileUsage :: u64
  PeakPagefileUsage :: u64
  PrivateUsage :: u64

record win_io_counters =
  ReadOperationCount :: u64
  WriteOperationCount :: u64
  OtherOperationCount :: u64
  ReadTransferCount :: u64
  WriteTransferCount :: u64
  OtherTransferCount :: u64

record process_entry =
  th32ProcessID :: pid
  th32ParentProcessID :: pid
  szExeFile :: wide

record nt_thread =
  thread_waiting :: bool
  wait_suspended :: bool

text \<open>
  A call answers its result, the error and its value. \<open>read_answer\<close> also takes the number of the
  attempt, the lists of processes the number of the round.
\<close>

record win_codes = win_host +
  ACCESS_QUERY :: u32
  ACCESS_TERMINATE :: u32
  ACCESS_SUSPEND :: u32
  ACCESS_SET :: u32
  ERROR_ACCESS_DENIED :: i32
  ERROR_INVALID_PARAMETER :: i32
  ERROR_PRIVILEGE_NOT_HELD :: i32
  ERROR_PARTIAL_COPY :: i32
  ERROR_NO_MORE_FILES :: i32
  libc_EPERM :: i32
  libc_EACCES :: i32
  libc_SIGTERM :: u32
  FACILITY_NT_BIT :: i32
  STILL_ACTIVE :: u32
  STATUS_BUFFER_TOO_SMALL :: i32
  STATUS_INFO_LENGTH_MISMATCH :: i32

record win_queries = win_codes +
  exit_code_answer :: "u64 \<Rightarrow> i32 \<times> i32 \<times> u32"
  image_name_answer :: "u64 \<Rightarrow> i32 \<times> i32 \<times> wide"
  memory_info_answer :: "u64 \<Rightarrow> i32 \<times> i32 \<times> process_memory"
  io_counters_answer :: "u64 \<Rightarrow> i32 \<times> i32 \<times> win_io_counters"
  times_answer :: "u64 \<Rightarrow> i32 \<times> i32 \<times> filetime \<times> filetime \<times> filetime \<times> filetime"
  priority_answer :: "u64 \<Rightarrow> u32 \<times> i32"
  set_priority_answer :: "u64 \<Rightarrow> u32 \<Rightarrow> i32 \<times> i32"
  wow64_answer :: "u64 \<Rightarrow> i32 \<times> i32 \<times> i32"
  read_answer :: "u64 \<Rightarrow> u64 \<Rightarrow> nat \<Rightarrow> nat \<Rightarrow> i32 \<times> i32 \<times> bytes"
  basic_info_answer :: "u64 \<Rightarrow> i32 \<times> u64"
  wow64_info_answer :: "u64 \<Rightarrow> i32 \<times> u64"
  terminate_answer :: "u64 \<Rightarrow> u32 \<Rightarrow> i32 \<times> i32"
  suspend_answer :: "u64 \<Rightarrow> i32 \<times> i32"
  resume_answer :: "u64 \<Rightarrow> i32 \<times> i32"

record win_proc_host = win_queries +
  current_pid :: pid
  enum_answer :: "nat \<Rightarrow> nat \<Rightarrow> i32 \<times> i32 \<times> pid list"
  snapshot_answer :: "nat \<Rightarrow> i32 \<times> i32 \<times> process_entry"
  nt_answer :: "nat \<Rightarrow> nat \<Rightarrow> i32 \<times> i32 \<times> nat \<times> bytes"
  size_PEB32 :: nat
  size_PEB :: nat
  size_params32 :: nat
  size_params :: nat
  peb32_params :: "bytes \<Rightarrow> u64"
  peb_params :: "bytes \<Rightarrow> u64"
  params32_cwd :: "bytes \<Rightarrow> u64 \<times> u16"
  params_cwd :: "bytes \<Rightarrow> u64 \<times> u16"
  nt_next_offset :: "bytes \<Rightarrow> nat"
  nt_process_id :: "bytes \<Rightarrow> u64"
  nt_create_time :: "bytes \<Rightarrow> filetime"
  nt_threads :: "bytes \<Rightarrow> nt_thread list"
  win_file_name :: "wide \<Rightarrow> wide option"

text \<open>Opening handles: a null handle is a failure with the error beside it.\<close>

record 'k win_api = "'k handle_api" +
  OpenProcess :: "u32 \<Rightarrow> pid \<Rightarrow> 'k \<Rightarrow> (u64 \<times> i32) \<times> 'k"
  CreateSnapshot :: "'k \<Rightarrow> (u64 \<times> i32) \<times> 'k"

section \<open>Wide strings\<close>

definition utf8_encode :: "nat \<Rightarrow> string" where
  "utf8_encode c =
     (if c < 0x80 then [char_of c]
      else if c < 0x800 then [char_of (0xC0 + c div 64), char_of (0x80 + c mod 64)]
      else if c < 0x10000 then
        [char_of (0xE0 + c div 4096), char_of (0x80 + c div 64 mod 64), char_of (0x80 + c mod 64)]
      else [char_of (0xF0 + c div 262144), char_of (0x80 + c div 4096 mod 64),
            char_of (0x80 + c div 64 mod 64), char_of (0x80 + c mod 64)])"

text \<open>\<open>OsString::from_wide\<close> followed by \<open>to_string_lossy\<close>: unpaired surrogates are replaced.\<close>

fun utf16_lossy :: "wide \<Rightarrow> string" where
  "utf16_lossy [] = []"
| "utf16_lossy [a] =
     (if 0xD800 \<le> unat a \<and> unat a < 0xE000 then REPLACEMENT else utf8_encode (unat a))"
| "utf16_lossy (a # b # r) =
     (if 0xD800 \<le> unat a \<and> unat a < 0xDC00 \<and> 0xDC00 \<le> unat b \<and> unat b < 0xE000 then
        utf8_encode (0x10000 + (unat a - 0xD800) * 0x400 + (unat b - 0xDC00)) @ utf16_lossy r
      else (if 0xD800 \<le> unat a \<and> unat a < 0xE000 then REPLACEMENT else utf8_encode (unat a)) @
        utf16_lossy (b # r))"

section \<open>Process handles\<close>

type_synonym ('a, 'k) win_op = "'k \<Rightarrow> ('a, process_error) outcome \<times> 'k"

definition op_then :: "('a, 'k) win_op \<Rightarrow> ('a \<Rightarrow> ('b, 'k) win_op) \<Rightarrow> ('b, 'k) win_op" where
  "op_then m f k =
     (case m k of (Ok x, k') \<Rightarrow> f x k' | (Err e, k') \<Rightarrow> (Err e, k') | (Panic, k') \<Rightarrow> (Panic, k'))"

definition win_failed :: "i32 \<Rightarrow> string \<Rightarrow> process_error" where
  "win_failed errno name = Load (with_ffi (Error_last_os_error errno) name)"

text \<open>The operating system errors of kind permission denied: access denied, and its socket variant.\<close>

definition win_denied :: "'h win_proc_host_scheme \<Rightarrow> i32 \<Rightarrow> bool" where
  "win_denied w errno \<longleftrightarrow> errno = ERROR_ACCESS_DENIED w \<or> errno = 10013"

definition ProcessHandle_open ::
    "'h win_proc_host_scheme \<Rightarrow> 'k win_api \<Rightarrow> u32 \<Rightarrow> pid \<Rightarrow> (u64, 'k) win_op" where
  "ProcessHandle_open w api access pid k =
     (case OpenProcess api access pid k of ((handle, errno), k') \<Rightarrow>
        (if handle = 0 then
           if win_denied w errno then Err (AccessDenied pid)
           else if pid = 0 \<and> errno = ERROR_INVALID_PARAMETER w then Err (AccessDenied pid)
           else if errno = ERROR_INVALID_PARAMETER w then Err (NoSuchProcess pid)
           else Err (win_failed errno ''OpenProcess'')
         else Handle_new (handle_api.truncate api) handle, k'))"

text \<open>A query on a handle that is opened for it and dropped after it.\<close>

definition with_process ::
    "'h win_proc_host_scheme \<Rightarrow> 'k win_api \<Rightarrow> u32 \<Rightarrow> pid \<Rightarrow> (u64 \<Rightarrow> ('a, process_error) outcome) \<Rightarrow> ('a, 'k) win_op" where
  "with_process w api access pid body =
     op_then (ProcessHandle_open w api access pid)
       (\<lambda>handle k. Handle_drop (handle_api.truncate api) handle (body handle, k))"

definition query_limited_info where
  "query_limited_info w api pid body = with_process w api (ACCESS_QUERY w) pid body"

definition for_termination ::
    "'h win_proc_host_scheme \<Rightarrow> 'k win_api \<Rightarrow> pid \<Rightarrow> (u64 \<Rightarrow> ('a, process_error) outcome) \<Rightarrow> ('a, 'k) win_op" where
  "for_termination w api pid body k =
     (if pid = 0 then (Err (AccessDenied pid), k) else with_process w api (ACCESS_TERMINATE w) pid body k)"

definition for_suspend_resume ::
    "'h win_proc_host_scheme \<Rightarrow> 'k win_api \<Rightarrow> pid \<Rightarrow> (u64 \<Rightarrow> ('a, process_error) outcome) \<Rightarrow> ('a, 'k) win_op" where
  "for_suspend_resume w api pid body k =
     (if pid = 0 then (Err (AccessDenied pid), k) else with_process w api (ACCESS_SUSPEND w) pid body k)"

definition for_set_information ::
    "'h win_proc_host_scheme \<Rightarrow> 'k win_api \<Rightarrow> pid \<Rightarrow> (u64 \<Rightarrow> ('a, process_error) outcome) \<Rightarrow> ('a, 'k) win_op" where
  "for_set_information w api pid body k =
     (if pid = 0 then (Err (AccessDenied pid), k) else with_process w api (ACCESS_SET w) pid body k)"

section \<open>Queries on a handle\<close>

definition handle_exit_code :: "'h win_proc_host_scheme \<Rightarrow> pid \<Rightarrow> u64 \<Rightarrow> (u32, process_error) outcome" where
  "handle_exit_code w pid handle =
     (case exit_code_answer w handle of (result, errno, code) \<Rightarrow>
        if result = 0 then
          if win_denied w errno then Err (AccessDenied pid) else Err (win_failed errno ''GetExitCodeProcess'')
        else Ok code)"

text \<open>The buffer has room for 260 characters; a longer name is sliced out of range.\<close>

definition handle_exe :: "'h win_proc_host_scheme \<Rightarrow> u64 \<Rightarrow> (wide, process_error) outcome" where
  "handle_exe w handle =
     (case image_name_answer w handle of (result, errno, name) \<Rightarrow>
        if result = 0 then Err (win_failed errno ''QueryFullProcessImageNameW'')
        else if 260 < length name then Panic
        else Ok name)"

definition handle_memory :: "'h win_proc_host_scheme \<Rightarrow> u64 \<Rightarrow> (process_memory, process_error) outcome" where
  "handle_memory w handle =
     (case memory_info_answer w handle of (result, errno, counters) \<Rightarrow>
        if result = 0 then Err (win_failed errno ''GetProcessMemoryInfo'') else Ok counters)"

definition handle_io_counters :: "'h win_proc_host_scheme \<Rightarrow> u64 \<Rightarrow> (win_io_counters, process_error) outcome" where
  "handle_io_counters w handle =
     (case io_counters_answer w handle of (result, errno, counters) \<Rightarrow>
        if result = 0 then Err (win_failed errno ''GetProcessIoCounters'') else Ok counters)"

definition handle_process_times ::
    "'h win_proc_host_scheme \<Rightarrow> u64 \<Rightarrow> (filetime \<times> filetime \<times> filetime \<times> filetime, process_error) outcome" where
  "handle_process_times w handle =
     (case times_answer w handle of (result, errno, ts) \<Rightarrow>
        if result = 0 then Err (win_failed errno ''GetProcessTimes'') else Ok ts)"

record win_cpu_time =
  wpt_user :: fval
  wpt_kernel :: fval

definition handle_cpu_time :: "'h win_proc_host_scheme \<Rightarrow> u64 \<Rightarrow> (win_cpu_time, process_error) outcome" where
  "handle_cpu_time w handle =
     map_ok (\<lambda>(_, _, kern, user). \<lparr>wpt_user = filetime_into_time w user, wpt_kernel = filetime_into_time w kern\<rparr>)
       (handle_process_times w handle)"

definition handle_create_time :: "'h win_proc_host_scheme \<Rightarrow> u64 \<Rightarrow> (fval, process_error) outcome" where
  "handle_create_time w handle =
     map_ok (\<lambda>(creation, _). f_sub rnd64 (filetime_into_time w creation) (unix_epoch_delta w))
       (handle_process_times w handle)"

section \<open>Priorities\<close>

datatype priority = Idle_class | BelowNormal | Normal | AboveNormal | High | RealTime

fun Priority_into :: "priority \<Rightarrow> u32" where
  "Priority_into AboveNormal = 0x8000"
| "Priority_into BelowNormal = 0x4000"
| "Priority_into High = 0x80"
| "Priority_into Idle_class = 0x40"
| "Priority_into Normal = 0x20"
| "Priority_into RealTime = 0x100"

text \<open>The error of an unknown class is of kind invalid input; its text is left out.\<close>

definition Priority_try_from :: "u32 \<Rightarrow> io_error + priority" where
  "Priority_try_from value =
     (if value = 0x8000 then Inr AboveNormal
      else if value = 0x4000 then Inr BelowNormal
      else if value = 0x80 then Inr High
      else if value = 0x40 then Inr Idle_class
      else if value = 0x20 then Inr Normal
      else if value = 0x100 then Inr RealTime
      else Inl (Simple InvalidInput))"

definition handle_priority :: "'h win_proc_host_scheme \<Rightarrow> u64 \<Rightarrow> (priority, process_error) outcome" where
  "handle_priority w handle =
     (case priority_answer w handle of (result, errno) \<Rightarrow>
        if result = 0 then Err (win_failed errno ''GetPriorityClass'')
        else (case Priority_try_from result of Inr p \<Rightarrow> Ok p | Inl e \<Rightarrow> Err (ProcessError_from_io e)))"

definition handle_set_priority :: "'h win_proc_host_scheme \<Rightarrow> priority \<Rightarrow> u64 \<Rightarrow> (unit, process_error) outcome" where
  "handle_set_priority w value handle =
     (case set_priority_answer w handle (Priority_into value) of (result, errno) \<Rightarrow>
        if result = 0 then Err (Load (Error_last_os_error errno)) else Ok ())"

section \<open>Reading the memory of a process\<close>

text \<open>
  At most five attempts while the answer is a partial copy; what a successful one stored is the value.
  \<open>left\<close> counts the attempts that remain.
\<close>

fun read_memory_from ::
    "'h win_proc_host_scheme \<Rightarrow> u64 \<Rightarrow> u64 \<Rightarrow> nat \<Rightarrow> nat \<Rightarrow> i32 \<Rightarrow> (bytes, process_error) outcome" where
  "read_memory_from w handle src len 0 err = Err (win_failed err ''ReadProcessMemory'')"
| "read_memory_from w handle src len (Suc left) err =
     (case read_answer w handle src len (4 - left) of (ret, errno, data) \<Rightarrow>
        if ret = 0 then
          if errno \<noteq> ERROR_PARTIAL_COPY w then Err (win_failed errno ''ReadProcessMemory'')
          else read_memory_from w handle src len left errno
        else Ok data)"

definition read_memory ::
    "'h win_proc_host_scheme \<Rightarrow> u64 \<Rightarrow> u64 \<Rightarrow> nat \<Rightarrow> (bytes, process_error) outcome" where
  "read_memory w handle src len = read_memory_from w handle src len 5 (last_errno w)"

definition nt_failed :: "'h win_proc_host_scheme \<Rightarrow> i32 \<Rightarrow> string \<Rightarrow> process_error" where
  "nt_failed w status name =
     Load (with_ffi (Error_from_raw_os_error (or status (FACILITY_NT_BIT w))) name)"

definition is_wow64 :: "'h win_proc_host_scheme \<Rightarrow> u64 \<Rightarrow> (bool, process_error) outcome" where
  "is_wow64 w handle =
     (case wow64_answer w handle of (result, errno, ret) \<Rightarrow>
        if result = 0 then Err (win_failed errno ''IsWow64Process'') else Ok (ret \<noteq> 0))"

definition get_process_basic_information :: "'h win_proc_host_scheme \<Rightarrow> u64 \<Rightarrow> (u64, process_error) outcome" where
  "get_process_basic_information w handle =
     (case basic_info_answer w handle of (status, peb_base) \<Rightarrow>
        if status = STATUS_SUCCESS w then Ok peb_base
        else Err (nt_failed w status ''NtQueryInformationProcessBasicInfo''))"

definition get_peb32 :: "'h win_proc_host_scheme \<Rightarrow> u64 \<Rightarrow> (bytes option, process_error) outcome" where
  "get_peb32 w handle =
     (case wow64_info_answer w handle of (ret, addr) \<Rightarrow>
        if ret \<noteq> STATUS_SUCCESS w then Err (nt_failed w ret ''NtQueryInformationProcessPeb32'')
        else if addr = 0 then Ok None
        else map_ok Some (read_memory w handle addr (size_PEB32 w)))"

definition get_process_parameters32 :: "'h win_proc_host_scheme \<Rightarrow> u64 \<Rightarrow> (bytes option, process_error) outcome" where
  "get_process_parameters32 w handle =
     and_then (get_peb32 w handle) (\<lambda>peb32.
       case peb32 of
         None \<Rightarrow> Ok None
       | Some peb \<Rightarrow> map_ok Some (read_memory w handle (peb32_params w peb) (size_params32 w)))"

definition get_peb :: "'h win_proc_host_scheme \<Rightarrow> u64 \<Rightarrow> (bytes option, process_error) outcome" where
  "get_peb w handle =
     and_then (is_wow64 w handle) (\<lambda>wow.
       if wow then Ok None
       else and_then (get_process_basic_information w handle) (\<lambda>peb_base.
         map_ok Some (read_memory w handle peb_base (size_PEB w))))"

definition get_process_parameters :: "'h win_proc_host_scheme \<Rightarrow> u64 \<Rightarrow> (bytes option, process_error) outcome" where
  "get_process_parameters w handle =
     and_then (get_peb w handle) (\<lambda>peb.
       case peb of
         None \<Rightarrow> Ok None
       | Some peb' \<Rightarrow> map_ok Some (read_memory w handle (peb_params w peb') (size_params w)))"

text \<open>
  \<open>cwd\<close>: where the path lies and how many bytes it has come from the other process. The buffer has
  \<open>len div 2\<close> characters, and \<open>len\<close> bytes are stored in it; \<open>spill\<close> are the bytes behind it.
\<close>

definition cwd_location :: "'h win_proc_host_scheme \<Rightarrow> pid \<Rightarrow> u64 \<Rightarrow> (u64 \<times> u16, process_error) outcome" where
  "cwd_location w pid handle =
     and_then (get_process_parameters32 w handle) (\<lambda>p32.
       case p32 of
         Some params \<Rightarrow> Ok (params32_cwd w params)
       | None \<Rightarrow>
           and_then (get_process_parameters w handle) (\<lambda>p.
             case p of
               Some params \<Rightarrow> Ok (params_cwd w params)
             | None \<Rightarrow> Err (UnreadablePeb pid)))"

fun wide_of_bytes :: "bytes \<Rightarrow> wide" where
  "wide_of_bytes (a # b # r) = of_nat (byte a + 256 * byte b) # wide_of_bytes r"
| "wide_of_bytes _ = []"

definition handle_cwd :: "'h win_proc_host_scheme \<Rightarrow> pid \<Rightarrow> u64 \<Rightarrow> (wide \<times> bytes, process_error) outcome" where
  "handle_cwd w pid handle =
     and_then (cwd_location w pid handle) (\<lambda>(src, len).
     and_then (read_memory w handle src (unat len)) (\<lambda>data.
       let room = 2 * (unat len div 2)
       in Ok (wide_of_bytes (take room data), drop room data)))"

section \<open>Acting on a process\<close>

definition handle_terminate :: "'h win_proc_host_scheme \<Rightarrow> u64 \<Rightarrow> (unit, process_error) outcome" where
  "handle_terminate w handle =
     (case terminate_answer w handle (libc_SIGTERM w) of (result, errno) \<Rightarrow>
        if result = 0 then
          if errno = ERROR_ACCESS_DENIED w then Ok () else Err (win_failed errno ''TerminateProcess'')
        else Ok ())"

definition handle_suspend :: "'h win_proc_host_scheme \<Rightarrow> u64 \<Rightarrow> (unit, process_error) outcome" where
  "handle_suspend w handle =
     (case suspend_answer w handle of (result, errno) \<Rightarrow>
        if result \<noteq> STATUS_SUCCESS w then Err (win_failed errno ''NtSuspendProcess'') else Ok ())"

definition handle_resume :: "'h win_proc_host_scheme \<Rightarrow> u64 \<Rightarrow> (unit, process_error) outcome" where
  "handle_resume w handle =
     (case resume_answer w handle of (result, errno) \<Rightarrow>
        if result \<noteq> STATUS_SUCCESS w then Err (win_failed errno ''NtResumeProcess'') else Ok ())"

section \<open>Lists of processes\<close>

text \<open>
  \<open>bindings::pids\<close>: the list is asked for again while it fills the buffer. The vector stays empty until
  the end, so that reserving 1024 more elements changes nothing once it has room for as many.
\<close>

partial_function (option) win_pids_loop ::
    "'h win_proc_host_scheme \<Rightarrow> nat \<Rightarrow> nat \<Rightarrow> (pid list, heim_error) outcome option" where
  "win_pids_loop w i cap =
     (let cb = cap * 4 mod 2 ^ 32 in
      case enum_answer w i cb of (result, errno, ps) \<Rightarrow>
        if result = 0 then Some (Err (with_ffi (Error_last_os_error errno) ''EnumProcesses''))
        else if cb = 4 * length ps then
          (case (reserve 4 cap 0 1024 :: (nat, heim_error) outcome) of
             Ok cap' \<Rightarrow> win_pids_loop w (Suc i) cap'
           | _ \<Rightarrow> Some Panic)
        else Some (Ok ps))"

declare win_pids_loop.simps [code]

definition bindings_pids :: "'h win_proc_host_scheme \<Rightarrow> (pid list, heim_error) outcome option" where
  "bindings_pids w = win_pids_loop w 0 1024"

definition windows_pids :: "'h win_proc_host_scheme \<Rightarrow> ((pid, heim_error) outcome list, heim_error) outcome option" where
  "windows_pids w = map_option (map_ok (map Ok)) (bindings_pids w)"

text \<open>\<open>NtProcesses::load\<close>; \<open>da\<close> says that debug assertions are on.\<close>

partial_function (option) NtProcesses_loop ::
    "bool \<Rightarrow> 'h win_proc_host_scheme \<Rightarrow> nat \<Rightarrow> nat \<Rightarrow> (bytes, heim_error) outcome option" where
  "NtProcesses_loop da w i cap =
     (case nt_answer w i (cap mod 2 ^ 32) of (status, errno, needed, data) \<Rightarrow>
        if status = STATUS_SUCCESS w then
          if da \<and> cap < length data then Some Panic else Some (Ok data)
        else if status = STATUS_BUFFER_TOO_SMALL w \<or> status = STATUS_INFO_LENGTH_MISMATCH w then
          (case (reserve 1 cap 0 needed :: (nat, heim_error) outcome) of
             Ok cap' \<Rightarrow> NtProcesses_loop da w (Suc i) cap'
           | _ \<Rightarrow> Some Panic)
        else Some (Err (with_ffi (Error_last_os_error errno) ''NtQuerySystemInformation'')))"

declare NtProcesses_loop.simps [code]

definition NtProcesses_load :: "bool \<Rightarrow> 'h win_proc_host_scheme \<Rightarrow> (bytes, heim_error) outcome option" where
  "NtProcesses_load da w = NtProcesses_loop da w 0 0x4000"

text \<open>
  The iterator over the kernel's table: an item is the table from its entry on. Every call yields an
  item; behind the last entry, whose offset is zero, it yields that entry again.
\<close>

definition NtProcessesIter_next :: "bool \<Rightarrow> 'h win_proc_host_scheme \<Rightarrow> bytes \<Rightarrow> (bytes \<times> bytes, heim_error) outcome" where
  "NtProcessesIter_next da w data =
     (let off = nt_next_offset w data in
      if da \<and> length data < off then Panic
      else if da \<and> off \<noteq> 0 \<and> off < 0x100 then Panic
      else Ok (data, drop off data))"

text \<open>\<open>iter().find(...)\<close> for a process id; \<open>None\<close> is a search without end.\<close>

partial_function (option) nt_find ::
    "bool \<Rightarrow> 'h win_proc_host_scheme \<Rightarrow> u64 \<Rightarrow> bytes \<Rightarrow> (bytes, heim_error) outcome option" where
  "nt_find da w pid_handle data =
     (case NtProcessesIter_next da w data of
        Ok (entry, rest) \<Rightarrow>
          if nt_process_id w entry = pid_handle then Some (Ok entry) else nt_find da w pid_handle rest
      | Err e \<Rightarrow> Some (Err e)
      | Panic \<Rightarrow> Some Panic)"

declare nt_find.simps [code]

text \<open>What both users of the table do: load it and read something off the entry of a process.\<close>

definition with_nt_process ::
    "bool \<Rightarrow> 'h win_proc_host_scheme \<Rightarrow> pid \<Rightarrow> (bytes \<Rightarrow> 'a) \<Rightarrow> ('a, process_error) outcome option" where
  "with_nt_process da w pid f =
     (case NtProcesses_load da w of
        None \<Rightarrow> None
      | Some (Ok data) \<Rightarrow> map_option (\<lambda>r. load (map_ok f r)) (nt_find da w (ucast pid) data)
      | Some (Err e) \<Rightarrow> Some (Err (Load e))
      | Some Panic \<Rightarrow> Some Panic)"

definition traverse :: "bool \<Rightarrow> 'h win_proc_host_scheme \<Rightarrow> pid \<Rightarrow> (fval, process_error) outcome option" where
  "traverse da w pid = with_nt_process da w pid (\<lambda>entry. large_integer_into_time w (nt_create_time w entry))"

definition is_suspended :: "bool \<Rightarrow> 'h win_proc_host_scheme \<Rightarrow> pid \<Rightarrow> (bool, process_error) outcome option" where
  "is_suspended da w pid =
     with_nt_process da w pid (\<lambda>entry.
       \<not> list_ex (\<lambda>thread. \<not> thread_waiting thread \<or> \<not> wait_suspended thread) (nt_threads w entry))"

text \<open>
  The snapshot: the \<open>i\<close>-th answer of the two calls that walk it. \<open>flatten\<close> drops the errors, and only the
  end of the list ends the walk.
\<close>

partial_function (option) snapshot_find ::
    "'h win_proc_host_scheme \<Rightarrow> pid \<Rightarrow> nat \<Rightarrow> process_entry option option" where
  "snapshot_find w pid i =
     (case snapshot_answer w i of (result, errno, entry) \<Rightarrow>
        if result = 1 then if th32ProcessID entry = pid then Some (Some entry) else snapshot_find w pid (Suc i)
        else if errno = ERROR_NO_MORE_FILES w then Some None
        else snapshot_find w pid (Suc i))"

declare snapshot_find.simps [code]

definition with_snapshot ::
    "bool \<Rightarrow> 'h win_proc_host_scheme \<Rightarrow> 'k win_api \<Rightarrow> pid \<Rightarrow> (process_entry \<Rightarrow> 'a) \<Rightarrow> 'k
      \<Rightarrow> (('a, process_error) outcome \<times> 'k) option" where
  "with_snapshot da w api pid f k =
     (case CreateSnapshot api k of ((handle, errno), k1) \<Rightarrow>
        if handle = INVALID_HANDLE_VALUE api
        then Some (Err (win_failed errno ''CreateToolhelp32Snapshot''), k1)
        else (case snapshot_find w pid 0 of
            None \<Rightarrow> None
          | Some found \<Rightarrow>
              (case CloseHandle api handle k1 of (result, k2) \<Rightarrow>
                 Some (if da \<and> result = 0 then Panic
                       else (case found of Some entry \<Rightarrow> Ok (f entry) | None \<Rightarrow> Err (NoSuchProcess pid)), k2))))"

section \<open>Handles of processes\<close>

record win_process =
  wp_pid :: pid
  wp_unique_id :: unique_id

text \<open>A query on a handle that may not return.\<close>

definition with_process_opt ::
    "'h win_proc_host_scheme \<Rightarrow> 'k win_api \<Rightarrow> pid \<Rightarrow> (u64 \<Rightarrow> ('a, process_error) outcome option) \<Rightarrow> 'k
      \<Rightarrow> (('a, process_error) outcome \<times> 'k) option" where
  "with_process_opt w api pid body k =
     (case ProcessHandle_open w api (ACCESS_QUERY w) pid k of
        (Ok handle, k1) \<Rightarrow>
          map_option (\<lambda>r. Handle_drop (handle_api.truncate api) handle (r, k1)) (body handle)
      | (Err e, k1) \<Rightarrow> Some (Err e, k1)
      | (Panic, k1) \<Rightarrow> Some (Panic, k1))"

definition exists_body :: "'h win_proc_host_scheme \<Rightarrow> pid \<Rightarrow> u64 \<Rightarrow> (bool, process_error) outcome option" where
  "exists_body w pid handle =
     (case handle_exit_code w pid handle of
        Ok code \<Rightarrow>
          if code = STILL_ACTIVE w then Some (Ok True)
          else map_option (\<lambda>ps. load (map_ok (\<lambda>ps. pid \<in> set ps) ps)) (bindings_pids w)
      | Err e \<Rightarrow> Some (Err e)
      | Panic \<Rightarrow> Some Panic)"

definition windows_pid_exists ::
    "'h win_proc_host_scheme \<Rightarrow> 'k win_api \<Rightarrow> pid \<Rightarrow> 'k \<Rightarrow> ((bool, process_error) outcome \<times> 'k) option" where
  "windows_pid_exists w api pid k =
     (if pid = 0 then Some (Ok True, k)
      else case ProcessHandle_open w api (ACCESS_QUERY w) pid k of
          (Ok handle, k1) \<Rightarrow>
            map_option (\<lambda>r. Handle_drop (handle_api.truncate api) handle (r, k1)) (exists_body w pid handle)
        | (Err (NoSuchProcess _), k1) \<Rightarrow> Some (Ok False, k1)
        | (Err (AccessDenied _), k1) \<Rightarrow> Some (Ok True, k1)
        | (Err e, k1) \<Rightarrow> Some (Err e, k1)
        | (Panic, k1) \<Rightarrow> Some (Panic, k1))"

definition create_time_body :: "bool \<Rightarrow> 'h win_proc_host_scheme \<Rightarrow> pid \<Rightarrow> u64 \<Rightarrow> (fval, process_error) outcome option" where
  "create_time_body da w pid handle =
     (case handle_create_time w handle of
        Err (Load e) \<Rightarrow>
          if Error_raw_os_error e \<in> Some ` {libc_EPERM w, libc_EACCES w, ERROR_ACCESS_DENIED w, ERROR_PRIVILEGE_NOT_HELD w}
          then traverse da w pid
          else Some (Err (Load e))
      | r \<Rightarrow> Some r)"

definition create_time_get ::
    "bool \<Rightarrow> 'h win_proc_host_scheme \<Rightarrow> 'k win_api \<Rightarrow> pid \<Rightarrow> 'k \<Rightarrow> ((fval, process_error) outcome \<times> 'k) option" where
  "create_time_get da w api pid k =
     (if pid = 0 \<or> pid = 4 then Some (load (windows_boot_time w), k)
      else with_process_opt w api pid (create_time_body da w pid) k)"

definition windows_get_unchecked ::
    "bool \<Rightarrow> 'h win_proc_host_scheme \<Rightarrow> 'k win_api \<Rightarrow> pid \<Rightarrow> 'k \<Rightarrow> ((win_process, process_error) outcome \<times> 'k) option" where
  "windows_get_unchecked da w api pid k =
     map_option (\<lambda>(r, k').
       (and_then r (\<lambda>create_time. map_ok (\<lambda>uid. \<lparr>wp_pid = pid, wp_unique_id = uid\<rparr>) (UniqueId_new w pid create_time)), k'))
       (create_time_get da w api pid k)"

definition windows_get ::
    "bool \<Rightarrow> 'h win_proc_host_scheme \<Rightarrow> 'k win_api \<Rightarrow> pid \<Rightarrow> 'k \<Rightarrow> ((win_process, process_error) outcome \<times> 'k) option" where
  "windows_get da w api pid k =
     (case windows_pid_exists w api pid k of
        None \<Rightarrow> None
      | Some (Ok yes, k') \<Rightarrow>
          if yes then windows_get_unchecked da w api pid k' else Some (Err (NoSuchProcess pid), k')
      | Some (Err e, k') \<Rightarrow> Some (Err e, k')
      | Some (Panic, k') \<Rightarrow> Some (Panic, k'))"

definition windows_current where
  "windows_current da w api k = windows_get_unchecked da w api (current_pid w) k"

section \<open>Operations\<close>

definition windows_parent_pid where
  "windows_parent_pid da w api p k = with_snapshot da w api (wp_pid p) th32ParentProcessID k"

text \<open>The name: two fixed ones, then the file name of the executable, then the snapshot's.\<close>

definition exe_name_body :: "'h win_proc_host_scheme \<Rightarrow> u64 \<Rightarrow> (string option, process_error) outcome" where
  "exe_name_body w handle =
     (case handle_exe w handle of
        Ok path \<Rightarrow> Ok (map_option utf16_lossy (win_file_name w path))
      | Err _ \<Rightarrow> Ok None
      | Panic \<Rightarrow> Panic)"

definition snapshot_name :: "process_entry \<Rightarrow> string" where
  "snapshot_name entry =
     (let k = length (takeWhile (\<lambda>c. c \<noteq> 0) (szExeFile entry));
          first_null = (if k < length (szExeFile entry) then k else 0)
      in utf16_lossy (take first_null (szExeFile entry)))"

definition windows_name ::
    "bool \<Rightarrow> 'h win_proc_host_scheme \<Rightarrow> 'k win_api \<Rightarrow> win_process \<Rightarrow> 'k \<Rightarrow> ((string, process_error) outcome \<times> 'k) option" where
  "windows_name da w api p k =
     (if wp_pid p = 0 then Some (Ok ''System Idle Process'', k)
      else if wp_pid p = 4 then Some (Ok ''System'', k)
      else case query_limited_info w api (wp_pid p) (exe_name_body w) k of
          (Ok (Some name), k1) \<Rightarrow> Some (Ok name, k1)
        | (Panic, k1) \<Rightarrow> Some (Panic, k1)
        | (_, k1) \<Rightarrow> with_snapshot da w api (wp_pid p) snapshot_name k1)"

definition windows_exe :: "'h win_proc_host_scheme \<Rightarrow> 'k win_api \<Rightarrow> win_process \<Rightarrow> (wide, 'k) win_op" where
  "windows_exe w api p k =
     (if wp_pid p = 0 \<or> wp_pid p = 4 then (Err (AccessDenied (wp_pid p)), k)
      else query_limited_info w api (wp_pid p) (handle_exe w) k)"

definition windows_cwd where
  "windows_cwd w api p = query_limited_info w api (wp_pid p) (handle_cwd w (wp_pid p))"

definition windows_status ::
    "bool \<Rightarrow> 'h win_proc_host_scheme \<Rightarrow> win_process \<Rightarrow> (status, process_error) outcome option" where
  "windows_status da w p =
     map_option (map_ok (\<lambda>suspended. if suspended then Stopped else Running)) (is_suspended da w (wp_pid p))"

text \<open>Environment and waiting are not implemented in the source: calling them is a panic.\<close>

definition windows_environment :: "win_process \<Rightarrow> (unit, process_error) outcome" where
  "windows_environment p = Panic"

definition windows_wait :: "win_process \<Rightarrow> (unit, process_error) outcome" where
  "windows_wait p = Panic"

definition windows_create_time :: "'h host_scheme \<Rightarrow> win_process \<Rightarrow> (fval, process_error) outcome" where
  "windows_create_time h p = Ok (UniqueId_create_time h (wp_unique_id p))"

definition windows_cpu_time_of :: "'h win_proc_host_scheme \<Rightarrow> 'k win_api \<Rightarrow> win_process \<Rightarrow> (win_cpu_time, 'k) win_op" where
  "windows_cpu_time_of w api p k =
     (if wp_pid p = 0 then (Err (AccessDenied (wp_pid p)), k)
      else query_limited_info w api (wp_pid p) (handle_cpu_time w) k)"

definition windows_process_memory :: "'h win_proc_host_scheme \<Rightarrow> 'k win_api \<Rightarrow> win_process \<Rightarrow> (process_memory, 'k) win_op" where
  "windows_process_memory w api p k =
     (if wp_pid p = 0 then (Err (AccessDenied (wp_pid p)), k)
      else query_limited_info w api (wp_pid p) (handle_memory w) k)"

definition windows_priority where
  "windows_priority w api p = query_limited_info w api (wp_pid p) (handle_priority w)"

definition windows_set_priority where
  "windows_set_priority w api p value = for_set_information w api (wp_pid p) (handle_set_priority w value)"

definition windows_is_running ::
    "bool \<Rightarrow> 'h win_proc_host_scheme \<Rightarrow> 'k win_api \<Rightarrow> win_process \<Rightarrow> 'k \<Rightarrow> ((bool, process_error) outcome \<times> 'k) option" where
  "windows_is_running da w api p k =
     map_option (\<lambda>(r, k'). (map_ok (\<lambda>other. UniqueId_eq (wp_unique_id other) (wp_unique_id p)) r, k'))
       (windows_get da w api (wp_pid p) k)"

definition windows_suspend where
  "windows_suspend w api p = for_suspend_resume w api (wp_pid p) (handle_suspend w)"

definition windows_resume where
  "windows_resume w api p = for_suspend_resume w api (wp_pid p) (handle_resume w)"

definition windows_kill where
  "windows_kill w api p = for_termination w api (wp_pid p) (handle_terminate w)"

definition windows_terminate where
  "windows_terminate w api p = windows_kill w api p"

definition windows_io_counters :: "'h win_proc_host_scheme \<Rightarrow> 'k win_api \<Rightarrow> win_process \<Rightarrow> (win_io_counters, 'k) win_op" where
  "windows_io_counters w api p k =
     (if wp_pid p = 0 \<or> wp_pid p = 4 then (Err (AccessDenied (wp_pid p)), k)
      else query_limited_info w api (wp_pid p) (handle_io_counters w) k)"

definition windows_memory_rss :: "'h host_scheme \<Rightarrow> process_memory \<Rightarrow> u64" where
  "windows_memory_rss h m = Information_new h Byte (WorkingSetSize m)"

definition windows_memory_vms :: "'h host_scheme \<Rightarrow> process_memory \<Rightarrow> u64" where
  "windows_memory_vms h m = Information_new h Byte (PagefileUsage m)"

end
