(* ===== verification/Process_Windows_Correct.thy ===== *)
theory Process_Windows_Correct
  imports Process_Windows
begin

text \<open>
  The properties of processes on Windows: handles are given back, the process lists and their loops,
  creation times, priorities and the memory of another process.
\<close>

section \<open>Handles are given back\<close>

text \<open>
  What is relied on: a handle that is opened is new and not the invalid one, and no handle appears
  when opening fails; handles close as \<open>handles_ok\<close> says.
\<close>

definition win_api_ok :: "'k win_api \<Rightarrow> ('k \<Rightarrow> u64 set) \<Rightarrow> bool" where
  "win_api_ok api opened \<longleftrightarrow>
     handles_ok (handle_api.truncate api) opened \<and>
     (\<forall>access pid k h e k'. OpenProcess api access pid k = ((h, e), k') \<longrightarrow>
        (if h = 0 then opened k' = opened k
         else opened k' = insert h (opened k) \<and> h \<notin> opened k \<and> h \<noteq> INVALID_HANDLE_VALUE api)) \<and>
     (\<forall>k h e k'. CreateSnapshot api k = ((h, e), k') \<longrightarrow>
        (if h = INVALID_HANDLE_VALUE api then opened k' = opened k
         else opened k' = insert h (opened k) \<and> h \<notin> opened k))"

lemma ProcessHandle_open_cases:
  assumes "win_api_ok api opened"
  obtains (opened) h k' where "ProcessHandle_open w api access pid k = (Ok h, k')"
      "opened k' = insert h (opened k)" "h \<notin> opened k"
    | (failed) e k' where "ProcessHandle_open w api access pid k = (Err e, k')" "opened k' = opened k"
proof -
  obtain h errno k' where op: "OpenProcess api access pid k = ((h, errno), k')" by (metis prod.exhaust)
  with assms have h: "if h = 0 then opened k' = opened k
      else opened k' = insert h (opened k) \<and> h \<notin> opened k \<and> h \<noteq> INVALID_HANDLE_VALUE api"
    by (simp add: win_api_ok_def)
  show thesis
  proof (cases "h = 0")
    case True
    then have "\<exists>e. ProcessHandle_open w api access pid k = (Err e, k')"
      using op by (auto simp: ProcessHandle_open_def)
    with True h show thesis using failed by auto
  next
    case False
    then have "ProcessHandle_open w api access pid k = (Ok h, k')"
      using op h by (simp add: ProcessHandle_open_def Handle_new_def handle_api.truncate_def)
    with False h show thesis using opened by auto
  qed
qed

lemma drop_opened:
  assumes "win_api_ok api opened" "opened k1 = insert h (opened k)" "h \<notin> opened k"
  shows "\<exists>k'. Handle_drop (handle_api.truncate api) h (r, k1) = (r, k') \<and> opened k' = opened k"
  using Handle_drop_open [of "handle_api.truncate api" opened h "(r, k1)"] assms
  by (auto simp: win_api_ok_def)

lemma with_process_balanced:
  assumes "win_api_ok api opened"
  shows "opened (snd (with_process w api access pid body k)) = opened k"
  using assms
proof (cases rule: ProcessHandle_open_cases [of _ _ w access pid k])
  case (opened h k')
  with drop_opened [OF assms opened(2,3), of "body h"] show ?thesis
    by (auto simp: with_process_def op_then_def)
next
  case (failed e k')
  then show ?thesis by (simp add: with_process_def op_then_def)
qed

lemma with_process_opt_balanced:
  assumes "win_api_ok api opened" "with_process_opt w api pid body k = Some (r, k')"
  shows "opened k' = opened k"
  using assms(1)
proof (cases rule: ProcessHandle_open_cases [of _ _ w "ACCESS_QUERY w" pid k])
  case (opened h k1)
  with assms(2) obtain b where "Handle_drop (handle_api.truncate api) h (b, k1) = (r, k')"
    by (auto simp: with_process_opt_def)
  with drop_opened [OF assms(1) opened(2,3), of b] show ?thesis by simp
next
  case (failed e k1)
  with assms(2) show ?thesis by (simp add: with_process_opt_def)
qed

lemma windows_pid_exists_balanced:
  assumes "win_api_ok api opened" "windows_pid_exists w api pid k = Some (r, k')"
  shows "opened k' = opened k"
proof (cases "pid = 0")
  case False
  show ?thesis
    using assms(1)
  proof (cases rule: ProcessHandle_open_cases [of _ _ w "ACCESS_QUERY w" pid k])
    case (opened h k1)
    with assms(2) False obtain b where "Handle_drop (handle_api.truncate api) h (b, k1) = (r, k')"
      by (auto simp: windows_pid_exists_def)
    with drop_opened [OF assms(1) opened(2,3), of b] show ?thesis by simp
  next
    case (failed e k1)
    with assms(2) False show ?thesis by (cases e) (auto simp: windows_pid_exists_def)
  qed
qed (use assms in \<open>simp add: windows_pid_exists_def\<close>)

lemma with_snapshot_balanced:
  assumes "win_api_ok api opened" "with_snapshot da w api pid f k = Some (r, k')"
  shows "opened k' = opened k"
proof -
  obtain h e k1 where c: "CreateSnapshot api k = ((h, e), k1)" by (metis prod.exhaust)
  with assms(1) have h: "if h = INVALID_HANDLE_VALUE api then opened k1 = opened k
      else opened k1 = insert h (opened k) \<and> h \<notin> opened k"
    by (simp add: win_api_ok_def)
  show ?thesis
  proof (cases "h = INVALID_HANDLE_VALUE api")
    case True
    with c h assms(2) show ?thesis by (simp add: with_snapshot_def)
  next
    case False
    from assms(1) have "handles_ok (handle_api.truncate api) opened" by (simp add: win_api_ok_def)
    moreover have "h \<in> opened k1" using h False by simp
    ultimately obtain res k2 where "CloseHandle api h k1 = (res, k2)" "opened k2 = opened k1 - {h}"
      unfolding handles_ok_def by (metis handle_api.truncate_def handle_api.select_convs(2))
    with c h False assms(2) show ?thesis by (auto simp: with_snapshot_def split: option.splits)
  qed
qed

lemma windows_get_unchecked_balanced:
  assumes "win_api_ok api opened" "windows_get_unchecked da w api pid k = Some (r, k')"
  shows "opened k' = opened k"
proof -
  from assms(2) obtain t where t: "create_time_get da w api pid k = Some (t, k')"
    by (auto simp: windows_get_unchecked_def)
  show ?thesis
  proof (cases "pid = 0 \<or> pid = 4")
    case False
    with t have "with_process_opt w api pid (create_time_body da w pid) k = Some (t, k')"
      by (simp add: create_time_get_def)
    then show ?thesis by (rule with_process_opt_balanced [OF assms(1)])
  qed (use t in \<open>auto simp: create_time_get_def\<close>)
qed

lemma windows_get_balanced:
  assumes "win_api_ok api opened" "windows_get da w api pid k = Some (r, k')"
  shows "opened k' = opened k"
proof -
  from assms(2) obtain x k1 where ex: "windows_pid_exists w api pid k = Some (x, k1)"
    by (auto simp: windows_get_def split: option.splits)
  with assms(2) have "k' = k1 \<or> (\<exists>r. windows_get_unchecked da w api pid k1 = Some (r, k'))"
    by (auto simp: windows_get_def split: outcome.splits if_splits)
  with windows_pid_exists_balanced [OF assms(1) ex] windows_get_unchecked_balanced [OF assms(1)]
  show ?thesis by metis
qed

lemma windows_name_balanced:
  assumes "win_api_ok api opened" "windows_name da w api p k = Some (r, k')"
  shows "opened k' = opened k"
proof (cases "wp_pid p = 0 \<or> wp_pid p = 4")
  case False
  obtain q k1 where q: "query_limited_info w api (wp_pid p) (exe_name_body w) k = (q, k1)" by fastforce
  then have k1: "opened k1 = opened k"
    using with_process_balanced [OF assms(1), of w "ACCESS_QUERY w" "wp_pid p" "exe_name_body w" k]
    by (simp add: query_limited_info_def)
  have "k' = k1 \<or> with_snapshot da w api (wp_pid p) snapshot_name k1 = Some (r, k')"
    using assms(2) q False by (auto simp: windows_name_def split: outcome.splits option.splits)
  with k1 with_snapshot_balanced [OF assms(1)] show ?thesis by metis
qed (use assms in \<open>auto simp: windows_name_def split: if_splits\<close>)

text \<open>
  (C17) No operation on a Windows process leaks a handle: after each of the operations that open a handle or a
  snapshot, and after each lookup of a process, if it returns, exactly the handles are open that were
  open before, on every path, errors included.
\<close>

theorem windows_handles_balanced:
  assumes "win_api_ok api opened"
  shows "opened (snd (windows_exe w api p k)) = opened k \<and>
    opened (snd (windows_cwd w api p k)) = opened k \<and>
    opened (snd (windows_cpu_time_of w api p k)) = opened k \<and>
    opened (snd (windows_process_memory w api p k)) = opened k \<and>
    opened (snd (windows_priority w api p k)) = opened k \<and>
    opened (snd (windows_set_priority w api p c k)) = opened k \<and>
    opened (snd (windows_suspend w api p k)) = opened k \<and>
    opened (snd (windows_resume w api p k)) = opened k \<and>
    opened (snd (windows_terminate w api p k)) = opened k \<and>
    opened (snd (windows_kill w api p k)) = opened k \<and>
    opened (snd (windows_io_counters w api p k)) = opened k \<and>
    (\<forall>r k'. windows_name da w api p k = Some (r, k') \<longrightarrow> opened k' = opened k) \<and>
    (\<forall>r k'. windows_parent_pid da w api p k = Some (r, k') \<longrightarrow> opened k' = opened k) \<and>
    (\<forall>r k'. windows_is_running da w api p k = Some (r, k') \<longrightarrow> opened k' = opened k) \<and>
    (\<forall>r k'. windows_pid_exists w api pid k = Some (r, k') \<longrightarrow> opened k' = opened k) \<and>
    (\<forall>r k'. windows_get da w api pid k = Some (r, k') \<longrightarrow> opened k' = opened k) \<and>
    (\<forall>r k'. windows_get_unchecked da w api pid k = Some (r, k') \<longrightarrow> opened k' = opened k) \<and>
    (\<forall>r k'. windows_current da w api k = Some (r, k') \<longrightarrow> opened k' = opened k)"
proof -
  have running: "opened k' = opened k" if "windows_is_running da w api p k = Some (r, k')" for r k'
  proof -
    from that obtain x where "windows_get da w api (wp_pid p) k = Some (x, k')" by (auto simp: windows_is_running_def)
    then show ?thesis by (rule windows_get_balanced [OF assms])
  qed
  have parent: "opened k' = opened k" if "windows_parent_pid da w api p k = Some (r, k')" for r k'
    using that unfolding windows_parent_pid_def by (rule with_snapshot_balanced [OF assms])
  have current: "opened k' = opened k" if "windows_current da w api k = Some (r, k')" for r k'
    using that unfolding windows_current_def by (rule windows_get_unchecked_balanced [OF assms])
  show ?thesis
    by (intro conjI allI impI;
        (erule running | erule parent | erule current | erule windows_name_balanced [OF assms]
        | erule windows_pid_exists_balanced [OF assms] | erule windows_get_balanced [OF assms]
        | erule windows_get_unchecked_balanced [OF assms]
        | simp add: with_process_balanced [OF assms] windows_exe_def windows_cwd_def windows_cpu_time_of_def
            windows_process_memory_def windows_priority_def windows_set_priority_def windows_suspend_def
            windows_resume_def windows_kill_def windows_terminate_def windows_io_counters_def query_limited_info_def
            for_termination_def for_suspend_resume_def for_set_information_def))
qed

text \<open>Handles as a set of numbers: the smallest free one is opened, and access to process 9 is denied.\<close>

definition set_win_api :: "u64 set win_api" where
  "set_win_api = handle_api.extend set_handles
     \<lparr>OpenProcess = (\<lambda>_ pid k. if pid = 9 \<or> 8 \<in> k then ((0, 5), k) else ((8, 0), insert 8 k)),
      CreateSnapshot = (\<lambda>k. if 12 \<in> k then ((-1, 5), k) else ((12, 0), insert 12 k))\<rparr>"

lemma set_win_api_ok: "win_api_ok set_win_api (\<lambda>k. k)"
  by (auto simp: win_api_ok_def set_win_api_def handle_api.extend_def handle_api.truncate_def set_handles_def
      handles_ok_def split: if_splits)

definition sample_wp :: win_proc_host where
  "sample_wp = win_queries.extend (win_codes.extend (win_host.extend sample_win
     \<lparr>ACCESS_QUERY = 0x1010, ACCESS_TERMINATE = 1, ACCESS_SUSPEND = 0x800, ACCESS_SET = 0x200,
      ERROR_ACCESS_DENIED = 5, ERROR_INVALID_PARAMETER = 87, ERROR_PRIVILEGE_NOT_HELD = 1314,
      ERROR_PARTIAL_COPY = 299, ERROR_NO_MORE_FILES = 18, libc_EPERM = 1, libc_EACCES = 13, libc_SIGTERM = 15,
      FACILITY_NT_BIT = 0x10000000, STILL_ACTIVE = 259, STATUS_BUFFER_TOO_SMALL = 0xC0000023,
      STATUS_INFO_LENGTH_MISMATCH = 0xC0000004\<rparr>)
     \<lparr>exit_code_answer = (\<lambda>_. (1, 0, 259)), image_name_answer = (\<lambda>_. (0, 5, [])),
      memory_info_answer = (\<lambda>_. (0, 5, \<lparr>PageFaultCount = 0, PeakWorkingSetSize = 0, WorkingSetSize = 0,
        QuotaPeakPagedPoolUsage = 0, QuotaPagedPoolUsage = 0, QuotaPeakNonPagedPoolUsage = 0,
        QuotaNonPagedPoolUsage = 0, PagefileUsage = 0, PeakPagefileUsage = 0, PrivateUsage = 0\<rparr>)),
      io_counters_answer = (\<lambda>_. (0, 5, \<lparr>ReadOperationCount = 0, WriteOperationCount = 0, OtherOperationCount = 0,
        ReadTransferCount = 0, WriteTransferCount = 0, OtherTransferCount = 0\<rparr>)),
      times_answer = (\<lambda>_. (1, 0, \<lparr>dwLowDateTime = 0, dwHighDateTime = 30000000\<rparr>,
        \<lparr>dwLowDateTime = 0, dwHighDateTime = 0\<rparr>, \<lparr>dwLowDateTime = 0, dwHighDateTime = 0\<rparr>,
        \<lparr>dwLowDateTime = 0, dwHighDateTime = 0\<rparr>)),
      priority_answer = (\<lambda>_. (0x20, 0)), set_priority_answer = (\<lambda>_ _. (1, 0)), wow64_answer = (\<lambda>_. (1, 0, 0)),
      read_answer = (\<lambda>_ _ n i. if i < 2 then (0, 299, []) else (1, 0, replicate n (CHR ''a''))),
      basic_info_answer = (\<lambda>_. (0, 64)), wow64_info_answer = (\<lambda>_. (0, 0)),
      terminate_answer = (\<lambda>_ _. (0, 5)), suspend_answer = (\<lambda>_. (0, 0)), resume_answer = (\<lambda>_. (0, 0))\<rparr>)
     \<lparr>current_pid = 77, enum_answer = (\<lambda>_ cb. (1, 0, take (cb div 4) [0, 4, 77])),
      snapshot_answer = (\<lambda>_. (0, 18, \<lparr>th32ProcessID = 0, th32ParentProcessID = 0, szExeFile = []\<rparr>)),
      nt_answer = (\<lambda>_ _. (0, 0, 1, [CHR ''x''])), size_PEB32 = 4, size_PEB = 8, size_params32 = 4, size_params = 8,
      peb32_params = (\<lambda>_. 0), peb_params = (\<lambda>_. 128), params32_cwd = (\<lambda>_. (0, 0)), params_cwd = (\<lambda>_. (256, 5)),
      nt_next_offset = (\<lambda>_. 0), nt_process_id = (\<lambda>_. 77),
      nt_create_time = (\<lambda>_. \<lparr>dwLowDateTime = 0, dwHighDateTime = 30000000\<rparr>), nt_threads = (\<lambda>_. []),
      win_file_name = (\<lambda>p. Some p)\<rparr>"

lemmas sample_wp_defs =
  sample_wp_def sample_win_def sample_host_def host.extend_def win_host.extend_def win_codes.extend_def
  win_queries.extend_def

definition sample_wproc :: win_process where
  "sample_wproc = \<lparr>wp_pid = 77, wp_unique_id = \<lparr>uid_pid = 77, uid_create_time = Fin 0\<rparr>\<rparr>"

theorem windows_handles_balanced_witness: "snd (windows_kill sample_wp set_win_api sample_wproc {}) = {}"
  using windows_handles_balanced [OF set_win_api_ok, of sample_wp sample_wproc "{}"] by simp

section \<open>Lists of processes\<close>

lemma reserve_1024: "(reserve 4 1024 0 1024 :: (nat, heim_error) outcome) = Ok 1024"
  by (simp add: reserve_def)

lemma win_pids_loop_full:
  assumes "\<And>i. enum_answer w i 4096 = (1, 0, take 1024 ps)" "1024 \<le> length ps"
  shows "win_pids_loop w i 1024 = None"
proof (cases "win_pids_loop w i 1024")
  case (Some y)
  let ?P = "\<lambda>w' (i :: nat) (cap :: nat) (y :: (pid list, heim_error) outcome). w' = w \<longrightarrow> cap \<noteq> 1024"
  have "?P w i 1024 y"
  proof (rule win_pids_loop.raw_induct [OF _ Some, where P = ?P])
    fix loop w' i cap y
    assume IH: "\<And>w' i cap y. loop w' i cap = Some y \<Longrightarrow> ?P w' i cap y"
      and step: "(let cb = cap * 4 mod 2 ^ 32 in
        case enum_answer w' i cb of (result, errno, ps) \<Rightarrow>
          if result = 0 then Some (Err (with_ffi (Error_last_os_error errno) ''EnumProcesses''))
          else if cb = 4 * length ps then
            (case (reserve 4 cap 0 1024 :: (nat, heim_error) outcome) of
               Ok cap' \<Rightarrow> loop w' (Suc i) cap' | Err e \<Rightarrow> Some Panic | Panic \<Rightarrow> Some Panic)
          else Some (Ok ps)) = Some y"
    show "?P w' i cap y"
      using step IH [of w "Suc i" 1024] assms by (auto simp: reserve_1024 Let_def)
  qed
  then show ?thesis by simp
qed simp

text \<open>
  (C23) Listing the process ids on Windows: with fewer than 1024 processes the list is complete; with
  1024 or more the call never returns, since reserving room in the empty vector does not enlarge it.
\<close>

theorem windows_pids_return:
  assumes "\<And>i cb. enum_answer w i cb = (1, 0, take (cb div 4) ps)"
  shows "windows_pids w = (if length ps < 1024 then Some (Ok (map Ok ps)) else None)"
proof (cases "length ps < 1024")
  case True
  then have "win_pids_loop w 0 1024 = Some (Ok ps)"
    using assms by (subst win_pids_loop.simps) simp
  with True show ?thesis by (simp add: windows_pids_def bindings_pids_def)
next
  case False
  with win_pids_loop_full [of w ps 0] assms show ?thesis by (simp add: windows_pids_def bindings_pids_def)
qed

theorem windows_pids_return_witness:
  "windows_pids sample_wp = Some (Ok [Ok 0, Ok 4, Ok 77])"
proof -
  have "\<And>i cb. enum_answer sample_wp i cb = (1, 0, take (cb div 4) [0, 4, 77])"
    by (simp add: sample_wp_defs)
  from windows_pids_return [OF this] show ?thesis by simp
qed

text \<open>A chain of entries: the tables from each entry on, the last one without a next.\<close>

fun nt_chain :: "'h win_proc_host_scheme \<Rightarrow> bytes list \<Rightarrow> bool" where
  "nt_chain w [] = False"
| "nt_chain w [d] \<longleftrightarrow> nt_next_offset w d = 0"
| "nt_chain w (d # d' # ds) \<longleftrightarrow>
     0x100 \<le> nt_next_offset w d \<and> nt_next_offset w d \<le> length d \<and> d' = drop (nt_next_offset w d) d \<and>
     nt_chain w (d' # ds)"

lemma nt_find_last:
  assumes "nt_next_offset w d = 0" "nt_process_id w d \<noteq> q"
  shows "nt_find da w q d = None"
proof (cases "nt_find da w q d")
  case (Some y)
  let ?P = "\<lambda>(da :: bool) w' q' d' (y :: (bytes, heim_error) outcome). w' = w \<and> q' = q \<longrightarrow> d' \<noteq> d"
  have "?P da w q d y"
  proof (rule nt_find.raw_induct [OF _ Some, where P = ?P])
    fix loop da w' q' d' y
    assume IH: "\<And>da w' q' d' y. loop da w' q' d' = Some y \<Longrightarrow> ?P da w' q' d' y"
      and step: "(case NtProcessesIter_next da w' d' of
          Ok (entry, rest) \<Rightarrow> if nt_process_id w' entry = q' then Some (Ok entry) else loop da w' q' rest
        | Err e \<Rightarrow> Some (Err e) | Panic \<Rightarrow> Some Panic) = Some y"
    show "?P da w' q' d' y"
      using step IH [of da w q d y] assms by (auto simp: NtProcessesIter_next_def Let_def)
  qed
  then show ?thesis by simp
qed simp

lemma nt_find_chain:
  "nt_chain w ds \<Longrightarrow> nt_find da w q (hd ds) = map_option Ok (find (\<lambda>d. nt_process_id w d = q) ds)"
proof (induction w ds rule: nt_chain.induct)
  case (2 w d)
  then show ?case
    by (cases "nt_process_id w d = q")
       (simp_all add: nt_find_last, simp add: nt_find.simps NtProcessesIter_next_def Let_def)
next
  case (3 w d d' ds)
  then show ?case by (subst nt_find.simps) (auto simp: NtProcessesIter_next_def Let_def)
qed simp

text \<open>
  (C24) Searching the kernel's table of Windows processes: a process in the table is found at its first
  entry, and a search for one that is not never returns, since the iterator repeats the last entry
  forever. The error for an unknown process is never reported.
\<close>

theorem with_nt_process_search:
  assumes "NtProcesses_load da w = Some (Ok (hd ds))" "nt_chain w ds"
  shows "with_nt_process da w pid f =
    (case find (\<lambda>d. nt_process_id w d = ucast pid) ds of None \<Rightarrow> None | Some d \<Rightarrow> Some (Ok (f d)))"
  using assms nt_find_chain [OF assms(2), of da "ucast pid"]
  by (simp add: with_nt_process_def split: option.split)

lemma sample_nt_load: "NtProcesses_load da sample_wp = Some (Ok [CHR ''x''])"
  unfolding NtProcesses_load_def
  by (subst NtProcesses_loop.simps) (simp add: sample_wp_defs)

theorem with_nt_process_search_witness:
  "is_suspended True sample_wp 78 = None \<and> is_suspended True sample_wp 77 = Some (Ok True)"
proof -
  have w: "nt_chain sample_wp [[CHR ''x'']]" "\<And>d. nt_process_id sample_wp d = 77" "\<And>d. nt_threads sample_wp d = []"
    by (simp_all add: sample_wp_defs)
  have load: "NtProcesses_load True sample_wp = Some (Ok (hd [[CHR ''x'']]))" by (simp add: sample_nt_load)
  show ?thesis
    unfolding is_suspended_def with_nt_process_search [OF load w(1)] by (simp add: w)
qed

text \<open>
  Loading the table ends after at most two calls when its size is stable: a buffer too small is
  enlarged to at least the size the system asked for.
\<close>

theorem NtProcesses_load_returns:
  assumes "\<And>i cap. nt_answer w i cap =
      (if n \<le> cap then (STATUS_SUCCESS w, 0, n, data) else (STATUS_BUFFER_TOO_SMALL w, 0, n, []))"
    and "length data = n" "n < 2 ^ 31" "STATUS_BUFFER_TOO_SMALL w \<noteq> STATUS_SUCCESS w"
  shows "NtProcesses_load da w = Some (Ok data)"
proof (cases "n \<le> 0x4000")
  case True
  with assms show ?thesis
    unfolding NtProcesses_load_def by (subst NtProcesses_loop.simps) simp
next
  case False
  let ?cap = "max (max 32768 n) 8"
  have "(reserve 1 0x4000 0 n :: (nat, heim_error) outcome) = Ok ?cap"
    using False assms(3) by (simp add: reserve_def)
  moreover have "?cap mod 2 ^ 32 = ?cap" using assms(3) by simp
  moreover have "NtProcesses_loop da w (Suc 0) ?cap = Some (Ok data)"
    using assms calculation(2) by (subst NtProcesses_loop.simps) simp
  ultimately show ?thesis
    using False assms unfolding NtProcesses_load_def by (subst NtProcesses_loop.simps) simp
qed

theorem NtProcesses_load_returns_witness:
  "NtProcesses_load True (sample_wp\<lparr>nt_answer := \<lambda>_ cap.
     if 3 \<le> cap then (0, 0, 3, ''abc'') else (0xC0000023, 0, 3, [])\<rparr>) = Some (Ok ''abc'')"
  by (rule NtProcesses_load_returns [where n = 3]) (simp_all add: sample_wp_defs)

section \<open>Creation times\<close>

lemma sint_nonneg:
  fixes x :: i32
  shows "0 \<le> sint x \<Longrightarrow> sint x = int (unat x)"
proof -
  assume "0 \<le> sint x"
  moreover have "sint x < 2 ^ 31" using sint_less [of x] by simp
  ultimately have "take_bit 32 (sint x) = sint x" by (intro take_bit_int_eq_self) simp_all
  moreover have "uint x = take_bit 32 (sint x)" using uint_sint [of x] by simp
  ultimately show ?thesis by simp
qed

lemma into_time_agree:
  "0 \<le> sint (dwHighDateTime ft) \<Longrightarrow> large_integer_into_time h ft = filetime_into_time h ft"
  using sint_nonneg [of "dwHighDateTime ft"]
  by (simp add: large_integer_into_time_def filetime_into_time_def f64_of_i32_def f64_of_u32_def Let_def)

text \<open>
  The two sources of the creation time of a Windows process disagree: for one and the same time
  stamp, the handle gives the time since the Unix epoch, and the table that is asked when the handle
  may not tell gives the time since the Windows epoch; the difference is never taken off.
\<close>

theorem windows_create_time_epochs:
  assumes "handle_process_times w handle = Ok (ft, rest)" "0 \<le> sint (dwHighDateTime ft)"
    and "NtProcesses_load da w = Some (Ok (hd ds))" "nt_chain w ds"
    and "find (\<lambda>d. nt_process_id w d = ucast pid) ds = Some d" "nt_create_time w d = ft"
  shows "\<exists>t. traverse da w pid = Some (Ok t) \<and>
    handle_create_time w handle = Ok (f_sub rnd64 t (unix_epoch_delta w))"
proof -
  have "nt_find da w (ucast pid) (hd ds) = Some (Ok d)"
    using nt_find_chain [OF assms(4)] assms(5) by simp
  then have "traverse da w pid = Some (Ok (large_integer_into_time w ft))"
    using assms(3,6) by (simp add: traverse_def with_nt_process_def)
  with assms(1,2) show ?thesis by (simp add: handle_create_time_def into_time_agree)
qed

theorem windows_create_time_epochs_witness:
  "\<exists>t. traverse True sample_wp 77 = Some (Ok t) \<and>
    handle_create_time sample_wp 8 = Ok (f_sub rnd64 t (unix_epoch_delta sample_wp))"
proof (rule windows_create_time_epochs)
  show "NtProcesses_load True sample_wp = Some (Ok (hd [[CHR ''x'']]))" by (simp add: sample_nt_load)
qed (simp_all add: sample_wp_defs handle_process_times_def)

text \<open>
  The boot time of Windows is the current time: it does not depend on how long the system has been up.
  Process zero takes it for its creation time, so that a handle on it is no longer reported as running
  once the clock has moved.
\<close>

theorem windows_boot_time_moves:
  fixes w :: "'h win_proc_host_scheme" and ft :: filetime
  defines "w' \<equiv> w\<lparr>system_time := ft\<rparr>"
  assumes "windows_boot_time w = Ok t" "windows_boot_time w' = Ok t'"
    and "Time_get w t = Fin a" "Time_get w t' = Fin b" "a \<noteq> b"
  shows "windows_boot_time (w\<lparr>tick_count := n\<rparr>) = windows_boot_time w \<and>
    (\<exists>p. windows_get da w api 0 k = Some (Ok p, k) \<and> windows_is_running da w' api p k = Some (Ok False, k))"
proof
  show "windows_boot_time (w\<lparr>tick_count := n\<rparr>) = windows_boot_time w"
    by (simp add: windows_boot_time_def filetime_into_time_def unix_epoch_delta_def)
  let ?p = "\<lambda>x. \<lparr>wp_pid = 0, wp_unique_id = \<lparr>uid_pid = 0, uid_create_time = Fin x\<rparr>\<rparr>"
  have "windows_get da w api 0 k = Some (Ok (?p a), k)"
    using assms(2,4) by (simp add: windows_get_def windows_pid_exists_def windows_get_unchecked_def
        create_time_get_def UniqueId_new_def Let_def)
  moreover have "windows_get da w' api 0 k = Some (Ok (?p b), k)"
    using assms(3,5) by (simp add: windows_get_def windows_pid_exists_def windows_get_unchecked_def
        create_time_get_def UniqueId_new_def Let_def w'_def)
  ultimately show "\<exists>p. windows_get da w api 0 k = Some (Ok p, k) \<and>
      windows_is_running da w' api p k = Some (Ok False, k)"
    using \<open>a \<noteq> b\<close> by (intro exI [of _ "?p a"]) (simp add: windows_is_running_def UniqueId_eq_def)
qed

section \<open>Priorities and memory\<close>

text \<open>
  The six priority classes of Windows and their numbers convert back and forth, and every other
  number is refused.
\<close>

theorem Priority_roundtrip:
  "(Priority_try_from v = Inr c \<longleftrightarrow> Priority_into c = v) \<and>
   ((\<nexists>c. Priority_into c = v) \<longleftrightarrow> Priority_try_from v = Inl (Simple InvalidInput))"
proof
  show *: "Priority_try_from v = Inr c \<longleftrightarrow> Priority_into c = v" for c
    by (cases c) (auto simp: Priority_try_from_def)
  show "(\<nexists>c. Priority_into c = v) \<longleftrightarrow> Priority_try_from v = Inl (Simple InvalidInput)"
  proof (cases "Priority_try_from v")
    case (Inr c)
    with * show ?thesis by auto
  next
    case (Inl e)
    with * have "\<nexists>c. Priority_into c = v" by auto
    with Inl show ?thesis by (auto simp: Priority_try_from_def split: if_splits)
  qed
qed

text \<open>What an attempt answers, as a value: \<open>None\<close> for a partial copy.\<close>

definition attempt :: "'h win_proc_host_scheme \<Rightarrow> u64 \<Rightarrow> u64 \<Rightarrow> nat \<Rightarrow> nat \<Rightarrow> (bytes, process_error) outcome option" where
  "attempt w handle src len i =
     (case read_answer w handle src len i of (ret, errno, data) \<Rightarrow>
        if ret \<noteq> 0 then Some (Ok data)
        else if errno = ERROR_PARTIAL_COPY w then None
        else Some (Err (win_failed errno ''ReadProcessMemory'')))"

lemma read_memory_from_spec:
  "left \<le> 5 \<Longrightarrow> read_memory_from w handle src len left err =
    (case List.map_filter (attempt w handle src len) [5 - left..<5] of
       r # _ \<Rightarrow> r
     | [] \<Rightarrow> Err (win_failed (if left = 0 then err else ERROR_PARTIAL_COPY w) ''ReadProcessMemory''))"
proof (induction left arbitrary: err)
  case (Suc left)
  have e: "5 - left = Suc (4 - left)" using Suc.prems by simp
  then have "[5 - Suc left..<5] = (4 - left) # [5 - left..<5]"
    unfolding e by (simp add: upt_conv_Cons)
  then show ?case
    using Suc
    by (auto simp: attempt_def map_filter_simps split: prod.splits list.splits)
qed (simp add: map_filter_simps)

text \<open>
  Reading the memory of another process asks at most five times: the result is the first answer
  that is not a partial copy, success or failure, and the error of a partial copy when all five are.
\<close>

theorem read_memory_attempts:
  "read_memory w handle src len =
    (case List.map_filter (attempt w handle src len) [0, 1, 2, 3, 4] of
       r # _ \<Rightarrow> r
     | [] \<Rightarrow> Err (win_failed (ERROR_PARTIAL_COPY w) ''ReadProcessMemory''))"
proof -
  have "[0..<5] = [0, 1, 2, 3, 4 :: nat]" by (simp add: upt_rec)
  then show ?thesis
    using read_memory_from_spec [of 5 w handle src len "last_errno w"] by (simp add: read_memory_def)
qed

lemma length_wide_of_bytes: "length (wide_of_bytes b) = length b div 2"
  by (induction b rule: wide_of_bytes.induct) auto

text \<open>
  The working directory of a Windows process: its length comes from the memory of that process,
  and as many bytes are stored as it says. For an even length they fill the buffer exactly; for an odd
  one the last byte is written behind it.
\<close>

theorem handle_cwd_spill:
  assumes "cwd_location w pid handle = Ok (src, len)" "read_memory w handle src (unat len) = Ok data"
    and "length data = unat len"
  shows "\<exists>dir spill. handle_cwd w pid handle = Ok (dir, spill) \<and> length dir = unat len div 2 \<and>
    length spill = unat len mod 2"
  using assms
  by (auto simp: handle_cwd_def Let_def length_wide_of_bytes minus_mult_div_eq_mod min_def
      simp del: wide_of_bytes.simps)

theorem handle_cwd_spill_witness:
  "\<exists>dir spill. handle_cwd sample_wp 77 8 = Ok (dir, spill) \<and> length dir = 2 \<and> length spill = 1"
proof -
  have read: "read_memory sample_wp 8 src n = Ok (replicate n (CHR ''a''))" for src n
    by (simp add: read_memory_def eval_nat_numeral) (simp add: sample_wp_defs)
  have fields: "wow64_info_answer sample_wp 8 = (0, 0)" "wow64_answer sample_wp 8 = (1, 0, 0)"
    "basic_info_answer sample_wp 8 = (0, 64)" "STATUS_SUCCESS sample_wp = 0" "params_cwd sample_wp d = (256, 5)" for d
    by (simp_all add: sample_wp_defs)
  have "cwd_location sample_wp 77 8 = Ok (256, 5)"
    by (simp add: cwd_location_def get_process_parameters32_def get_peb32_def get_process_parameters_def
        get_peb_def is_wow64_def get_process_basic_information_def read fields)
  from handle_cwd_spill [OF this read] show ?thesis by simp
qed

text \<open>
  Killing a Windows process opens whatever process has the id now, without asking whether it is
  the one of the handle, and reports success when the system denies the access to terminate it.
\<close>

theorem windows_kill_unchecked:
  assumes "win_api_ok api opened" "wp_pid p \<noteq> 0" "OpenProcess api (ACCESS_TERMINATE w) (wp_pid p) k = ((h, e), k1)" "h \<noteq> 0"
    and "terminate_answer w h (libc_SIGTERM w) = (0, ERROR_ACCESS_DENIED w)"
  shows "fst (windows_kill w api p k) = Ok () \<and>
    windows_kill w api (p\<lparr>wp_unique_id := uid\<rparr>) k = windows_kill w api p k"
proof -
  have "if h = 0 then opened k1 = opened k
      else opened k1 = insert h (opened k) \<and> h \<notin> opened k \<and> h \<noteq> INVALID_HANDLE_VALUE api"
    using assms(1,3) by (simp add: win_api_ok_def)
  then have k1: "opened k1 = insert h (opened k)" "h \<notin> opened k" "h \<noteq> INVALID_HANDLE_VALUE api"
    using assms(4) by auto
  then have "ProcessHandle_open w api (ACCESS_TERMINATE w) (wp_pid p) k = (Ok h, k1)"
    using assms(3,4) by (simp add: ProcessHandle_open_def Handle_new_def handle_api.truncate_def)
  with drop_opened [OF assms(1) k1(1,2), of "Ok () :: (unit, process_error) outcome"] assms(2,5) show ?thesis
    by (auto simp: windows_kill_def for_termination_def with_process_def op_then_def handle_terminate_def)
qed

theorem windows_kill_unchecked_witness:
  "fst (windows_kill sample_wp set_win_api sample_wproc {}) = Ok ()"
proof -
  have "OpenProcess set_win_api (ACCESS_TERMINATE sample_wp) (wp_pid sample_wproc) {} = ((8, 0), {8})"
    by (simp add: set_win_api_def handle_api.extend_def sample_wproc_def)
  moreover have "terminate_answer sample_wp 8 (libc_SIGTERM sample_wp) = (0, ERROR_ACCESS_DENIED sample_wp)"
    by (simp add: sample_wp_defs)
  ultimately show ?thesis
    using windows_kill_unchecked [OF set_win_api_ok, of sample_wproc sample_wp "{}" 8 0 "{8}"]
    by (simp add: sample_wproc_def)
qed

end
