(* ===== verification/Host_Windows.thy ===== *)
theory Host_Windows
  imports Process_Windows
begin

text \<open>
  \<open>heim-host\<close> on Windows: the logged in users (\<open>sys/windows/users.rs\<close> with the wrappers \<open>sessions.rs\<close>,
  \<open>session.rs\<close> and \<open>wts_info.rs\<close>) and the platform information (\<open>sys/windows/platform.rs\<close>).

  The terminal services hand out buffers that the caller has to give back. They are a state of any type
  with the calls of \<open>wtsapi32\<close>; the law \<open>wts_ok\<close> says which addresses are allocated.

  The theorems: listing the users always ends and loses one buffer for every user, since the one that is
  given back is the address of a copy; the domain of a user is the user name; the address of a client is
  taken from its bytes, and an unknown family is a panic; a computer name is read back exactly.
\<close>

section \<open>Sessions\<close>

text \<open>The fields of \<open>WTSINFOW\<close> that name the user, and the address of a client.\<close>

record wtsinfow =
  WtsDomain :: wide
  UserName :: wide

record client_address =
  AddressFamily :: u32
  Address :: "u8 list"

text \<open>
  The calls: a result, the error, the address of the buffer and what it holds. The two queries differ in
  the information class only. \<open>info_place\<close> is the address of the copy that a \<open>WtsInfo\<close> keeps.
\<close>

record 'k wts_api =
  WTSEnumerateSessionsW :: "'k \<Rightarrow> (i32 \<times> i32 \<times> u64 \<times> u32 list) \<times> 'k"
  WTSQuerySessionInfo :: "u32 \<Rightarrow> 'k \<Rightarrow> (i32 \<times> i32 \<times> u64 \<times> wtsinfow) \<times> 'k"
  WTSQueryClientAddress :: "u32 \<Rightarrow> 'k \<Rightarrow> (i32 \<times> i32 \<times> u64 \<times> client_address) \<times> 'k"
  WTSFreeMemory :: "u64 \<Rightarrow> 'k \<Rightarrow> 'k"
  info_place :: u64
  AF_INET :: i32
  AF_INET6 :: i32
  AF_IPX :: i32
  AF_NETBIOS :: i32
  AF_UNSPEC :: i32

record wts_sessions =
  ss_info :: u64
  ss_entries :: "u32 list"
  ss_current :: u32
  ss_count :: u32

definition Sessions_new :: "'k wts_api \<Rightarrow> 'k \<Rightarrow> (wts_sessions, heim_error) outcome \<times> 'k" where
  "Sessions_new api k =
     (case WTSEnumerateSessionsW api k of ((result, errno, info, entries), k') \<Rightarrow>
        (if result = 0 then Err (with_ffi (Error_last_os_error errno) ''WTSEnumerateSessionsW'')
         else Ok \<lparr>ss_info = info, ss_entries = entries, ss_current = 0, ss_count = of_nat (length entries)\<rparr>,
         k'))"

definition Sessions_drop :: "'k wts_api \<Rightarrow> wts_sessions \<Rightarrow> 'k \<Rightarrow> 'k" where
  "Sessions_drop api s k = WTSFreeMemory api (ss_info s) k"

definition Sessions_next :: "wts_sessions \<Rightarrow> (u32 option, heim_error) outcome \<times> wts_sessions" where
  "Sessions_next s =
     (if ss_current s < ss_count s then
        if unat (ss_current s) < length (ss_entries s)
        then (Ok (Some (ss_entries s ! unat (ss_current s))), s\<lparr>ss_current := ss_current s + 1\<rparr>)
        else (Panic, s)
      else (Ok None, s))"

text \<open>\<open>info\<close> copies the structure out of the buffer; the address of the buffer is not kept.\<close>

definition Session_info :: "'k wts_api \<Rightarrow> u32 \<Rightarrow> 'k \<Rightarrow> (wtsinfow, heim_error) outcome \<times> 'k" where
  "Session_info api sid k =
     (case WTSQuerySessionInfo api sid k of ((result, errno, buffer, info), k') \<Rightarrow>
        (if result = 0 then Err (with_ffi (Error_last_os_error errno) ''WTSQuerySessionInformationW'')
         else Ok info, k'))"

definition Session_address :: "'k wts_api \<Rightarrow> u32 \<Rightarrow> 'k \<Rightarrow> (ip_addr option, heim_error) outcome \<times> 'k" where
  "Session_address api sid k =
     (case WTSQueryClientAddress api sid k of ((result, errno, address_ptr, a), k') \<Rightarrow>
        if result = 0 then (Err (with_ffi (Error_last_os_error errno) ''WTSQuerySessionInformationW''), k')
        else
          let family = ucast (AddressFamily a) :: i32; bytes = Address a;
              address =
                (if family = AF_INET api then Ok (Some (V4 [bytes ! 2, bytes ! 3, bytes ! 4, bytes ! 5]))
                 else if family = AF_INET6 api then Ok (Some (V6 (take 16 (drop 2 bytes))))
                 else if family = AF_IPX api then Ok None
                 else if family = AF_NETBIOS api then Ok None
                 else if family = AF_UNSPEC api then Ok None
                 else Panic)
          in (case address of
                Panic \<Rightarrow> (Panic, k')
              | r \<Rightarrow> (r, WTSFreeMemory api address_ptr k')))"

definition WtsInfo_from_wide :: "wide \<Rightarrow> string" where
  "WtsInfo_from_wide chars =
     (let k = length (takeWhile (\<lambda>c. c \<noteq> 0) chars);
          first_null = (if k < length chars then k else 0)
      in utf16_lossy (take first_null chars))"

definition WtsInfo_username :: "wtsinfow \<Rightarrow> string option" where
  "WtsInfo_username info =
     (if UserName info ! 0 = 0 then None else Some (WtsInfo_from_wide (UserName info)))"

definition WtsInfo_domain :: "wtsinfow \<Rightarrow> string" where
  "WtsInfo_domain info = WtsInfo_from_wide (UserName info)"

definition WtsInfo_drop :: "'k wts_api \<Rightarrow> 'k \<Rightarrow> 'k" where
  "WtsInfo_drop api k = WTSFreeMemory api (info_place api) k"

section \<open>Users\<close>

record windows_user =
  wu_domain :: string
  wu_username :: string
  wu_address :: "ip_addr option"

definition User_from_session ::
    "'k wts_api \<Rightarrow> u32 \<Rightarrow> 'k \<Rightarrow> (windows_user option, heim_error) outcome \<times> 'k" where
  "User_from_session api session k =
     (case Session_info api session k of
        (Ok info, k1) \<Rightarrow>
          (case (case WtsInfo_username info of
                   None \<Rightarrow> (Ok None, k1)
                 | Some name \<Rightarrow>
                     let domain = WtsInfo_domain info in
                     (case Session_address api session k1 of
                        (Ok address, k2) \<Rightarrow>
                          (Ok (Some \<lparr>wu_domain = domain, wu_username = name, wu_address = address\<rparr>), k2)
                      | (Err e, k2) \<Rightarrow> (Err e, k2)
                      | (Panic, k2) \<Rightarrow> (Panic, k2)))
           of (r, k2) \<Rightarrow> (r, WtsInfo_drop api k2))
      | (Err e, k1) \<Rightarrow> (Err e, k1)
      | (Panic, k1) \<Rightarrow> (Panic, k1))"

text \<open>Reading the stream of the users to its end, and dropping the sessions, also after a panic.\<close>

partial_function (option) users_drain ::
    "'k wts_api \<Rightarrow> wts_sessions \<Rightarrow> 'k \<Rightarrow> (windows_user, heim_error) outcome list
      \<Rightarrow> (((windows_user, heim_error) outcome list, heim_error) outcome \<times> 'k) option" where
  "users_drain api s k items =
     (case Sessions_next s of
        (Ok None, s') \<Rightarrow> Some (Ok items, Sessions_drop api s' k)
      | (Ok (Some session), s') \<Rightarrow>
          (case User_from_session api session k of
             (Ok None, k') \<Rightarrow> users_drain api s' k' items
           | (Ok (Some u), k') \<Rightarrow> users_drain api s' k' (items @ [Ok u])
           | (Err e, k') \<Rightarrow> users_drain api s' k' (items @ [Err e])
           | (Panic, k') \<Rightarrow> Some (Panic, Sessions_drop api s' k'))
      | (_, s') \<Rightarrow> Some (Panic, Sessions_drop api s' k))"

declare users_drain.simps [code]

definition windows_users ::
    "'k wts_api \<Rightarrow> 'k \<Rightarrow> (((windows_user, heim_error) outcome list, heim_error) outcome \<times> 'k) option" where
  "windows_users api k =
     (case Sessions_new api k of
        (Ok s, k') \<Rightarrow> users_drain api s k' []
      | (Err e, k') \<Rightarrow> Some (Err e, k')
      | (Panic, k') \<Rightarrow> Some (Panic, k'))"

section \<open>Platform\<close>

record osversioninfo =
  dwMajorVersion :: u32
  dwMinorVersion :: u32
  dwBuildNumber :: u32
  wSuiteMask :: u16
  wProductType :: u8

text \<open>
  The constants of \<open>winapi\<close>, the architectures of the \<open>platforms\<close> crate, and the answers of the system.
  \<open>name_fill kind size\<close> is the second call for a name: its result, the error, the size it reports and the
  buffer, which has the size it was given.
\<close>

record ('arch, 'kind) win_platform_api =
  VER_NT_WORKSTATION :: u8
  VER_NT_SERVER :: u8
  VER_NT_DOMAIN_CONTROLLER :: u8
  VER_SUITE_WH_SERVER :: u32
  PROCESSOR_ARCHITECTURE_AMD64 :: u16
  PROCESSOR_ARCHITECTURE_ARM :: u16
  PROCESSOR_ARCHITECTURE_ARM64 :: u16
  PROCESSOR_ARCHITECTURE_IA64 :: u16
  PROCESSOR_ARCHITECTURE_INTEL :: u16
  win_X86_64 :: 'arch
  win_ARM :: 'arch
  win_AARCH64 :: 'arch
  win_X86 :: 'arch
  win_Unknown :: 'arch
  ComputerNameDnsHostname :: 'kind
  ComputerNameDnsDomain :: 'kind
  native_architecture :: u16
  version_answer :: "i32 \<times> osversioninfo"
  name_dry :: "'kind \<Rightarrow> i32 \<times> i32 \<times> u32"
  name_fill :: "'kind \<Rightarrow> u32 \<Rightarrow> i32 \<times> i32 \<times> u32 \<times> wide"

record windows_platform =
  wpl_processor_arch :: u16
  wpl_version :: osversioninfo
  wpl_hostname :: string
  wpl_domain :: string
  wpl_build :: string

definition windows_system :: "('arch, 'kind) win_platform_api \<Rightarrow> windows_platform \<Rightarrow> (string, 'e) outcome" where
  "windows_system api p =
     (let t = wProductType (wpl_version p) in
      if t = VER_NT_WORKSTATION api then Ok ''Windows''
      else if t = VER_NT_SERVER api then Ok ''Windows Server''
      else if t = VER_NT_DOMAIN_CONTROLLER api then Ok ''Windows Domain Controller''
      else Panic)"

definition windows_release :: "('arch, 'kind) win_platform_api \<Rightarrow> windows_platform \<Rightarrow> string" where
  "windows_release api p =
     (let v = wpl_version p; major = dwMajorVersion v; minor = dwMinorVersion v;
          suite_mask = ucast (wSuiteMask v) :: u32;
          is_workstation = (wProductType v = VER_NT_WORKSTATION api)
      in if major = 10 \<and> minor = 0 then ''10''
         else if major = 6 \<and> minor = 3 then ''8.1''
         else if major = 6 \<and> minor = 2 then (if is_workstation then ''8'' else ''2012'')
         else if major = 6 \<and> minor = 1 then (if is_workstation then ''7'' else ''2008 R2'')
         else if major = 6 \<and> minor = 0 then (if is_workstation then ''Vista'' else ''2008'')
         else if major = 5 \<and> minor = 2 then
           (if suite_mask = VER_SUITE_WH_SERVER api then ''Home Server''
            else if is_workstation then ''XP Professional x64 Edition'' else ''2003'')
         else if major = 5 \<and> minor = 1 then ''XP''
         else if major = 5 \<and> minor = 0 then ''2000''
         else ''unknown'')"

definition windows_architecture :: "('arch, 'kind) win_platform_api \<Rightarrow> windows_platform \<Rightarrow> 'arch" where
  "windows_architecture api p =
     (let a = wpl_processor_arch p in
      if a = PROCESSOR_ARCHITECTURE_AMD64 api then win_X86_64 api
      else if a = PROCESSOR_ARCHITECTURE_ARM api then win_ARM api
      else if a = PROCESSOR_ARCHITECTURE_ARM64 api then win_AARCH64 api
      else if a = PROCESSOR_ARCHITECTURE_IA64 api then win_Unknown api
      else if a = PROCESSOR_ARCHITECTURE_INTEL api then win_X86 api
      else win_Unknown api)"

definition get_native_system_info :: "('arch, 'kind) win_platform_api \<Rightarrow> u16" where
  "get_native_system_info api = native_architecture api"

definition rtl_get_version ::
    "bool \<Rightarrow> 'h win_host_scheme \<Rightarrow> ('arch, 'kind) win_platform_api \<Rightarrow> (osversioninfo, 'e) outcome" where
  "rtl_get_version da w api =
     (case version_answer api of (result, osinfo) \<Rightarrow>
        if da \<and> result \<noteq> STATUS_SUCCESS w then Panic else Ok osinfo)"

definition get_value_from_get_computer_name_ex_w ::
    "bool \<Rightarrow> ('arch, 'kind) win_platform_api \<Rightarrow> 'kind \<Rightarrow> (string, heim_error) outcome" where
  "get_value_from_get_computer_name_ex_w oc api kind =
     (case name_dry api kind of (result, errno, required_size) \<Rightarrow>
        if result \<noteq> 0 then Err (with_ffi (Error_last_os_error errno) ''GetComputerNameEx'')
        else if oc \<and> unat required_size + 1 = 2 ^ 32 then Panic
        else
          (case name_fill api kind (required_size + 1) of (result', errno', size', buffer) \<Rightarrow>
             if result' = 0 then Err (with_ffi (Error_last_os_error errno') ''GetComputerNameEx'')
             else if required_size < size' then
               Err (Error_from_io (Custom Other (Payload ''Invalid value returned by GetComputerNameExW'')))
             else if length buffer < unat size' then Panic
             else Ok (utf16_lossy (take (unat size') buffer))))"

definition get_computer_name where
  "get_computer_name oc api = get_value_from_get_computer_name_ex_w oc api (ComputerNameDnsHostname api)"

definition get_computer_domain where
  "get_computer_domain oc api = get_value_from_get_computer_name_ex_w oc api (ComputerNameDnsDomain api)"

definition windows_platform_get ::
    "bool \<Rightarrow> bool \<Rightarrow> 'h win_host_scheme \<Rightarrow> ('arch, 'kind) win_platform_api \<Rightarrow> (windows_platform, heim_error) outcome"
  where
  "windows_platform_get oc da w api =
     and_then (rtl_get_version da w api) (\<lambda>version.
     and_then (get_computer_name oc api) (\<lambda>hostname.
     and_then (get_computer_domain oc api) (\<lambda>domain.
       Ok \<lparr>wpl_processor_arch = get_native_system_info api, wpl_version = version, wpl_hostname = hostname,
           wpl_domain = domain, wpl_build = show_u32 (dwBuildNumber version)\<rparr>)))"

section \<open>Buffers of the terminal services\<close>

text \<open>
  What the documentation of the calls promises: a successful call allocates a fresh buffer, a failed one
  nothing, and giving an address back ends its allocation. The copy of a \<open>WtsInfo\<close> is no such buffer.
\<close>

definition fresh_buffer :: "u64 set \<Rightarrow> i32 \<Rightarrow> u64 \<Rightarrow> u64 set \<Rightarrow> bool" where
  "fresh_buffer before result p after \<longleftrightarrow>
     (if result = 0 then after = before else p \<notin> before \<and> after = insert p before)"

definition wts_ok :: "'k wts_api \<Rightarrow> ('k \<Rightarrow> u64 set) \<Rightarrow> bool" where
  "wts_ok api alloc \<longleftrightarrow>
     (\<forall>k. finite (alloc k) \<and> info_place api \<notin> alloc k) \<and>
     (\<forall>p k. alloc (WTSFreeMemory api p k) = alloc k - {p}) \<and>
     (\<forall>k. case WTSEnumerateSessionsW api k of ((result, _, p, entries), k') \<Rightarrow>
        fresh_buffer (alloc k) result p (alloc k') \<and> length entries < 2 ^ 32) \<and>
     (\<forall>sid k. case WTSQuerySessionInfo api sid k of ((result, _, p, _), k') \<Rightarrow>
        fresh_buffer (alloc k) result p (alloc k')) \<and>
     (\<forall>sid k. case WTSQueryClientAddress api sid k of ((result, _, p, _), k') \<Rightarrow>
        fresh_buffer (alloc k) result p (alloc k'))"

lemma wts_ok_simps:
  assumes "wts_ok api alloc"
  shows "finite (alloc k)" "info_place api \<notin> alloc k" "alloc (WTSFreeMemory api p k) = alloc k - {p}"
  using assms by (simp_all add: wts_ok_def)

lemma wts_okD:
  assumes "wts_ok api alloc"
  shows "WTSEnumerateSessionsW api k = ((result, e, p, entries), k') \<Longrightarrow>
      fresh_buffer (alloc k) result p (alloc k') \<and> length entries < 2 ^ 32"
    and "WTSQuerySessionInfo api sid k = ((result, e, p, info), k') \<Longrightarrow> fresh_buffer (alloc k) result p (alloc k')"
    and "WTSQueryClientAddress api sid k = ((result, e, p, a), k') \<Longrightarrow> fresh_buffer (alloc k) result p (alloc k')"
proof -
  from assms have "case WTSEnumerateSessionsW api k of ((result, _, p, entries), k') \<Rightarrow>
      fresh_buffer (alloc k) result p (alloc k') \<and> length entries < 2 ^ 32"
    by (simp only: wts_ok_def)
  then show "WTSEnumerateSessionsW api k = ((result, e, p, entries), k') \<Longrightarrow>
      fresh_buffer (alloc k) result p (alloc k') \<and> length entries < 2 ^ 32" by simp
  from assms have "case WTSQuerySessionInfo api sid k of ((result, _, p, _), k') \<Rightarrow>
      fresh_buffer (alloc k) result p (alloc k')"
    by (simp only: wts_ok_def)
  then show "WTSQuerySessionInfo api sid k = ((result, e, p, info), k') \<Longrightarrow>
      fresh_buffer (alloc k) result p (alloc k')" by simp
  from assms have "case WTSQueryClientAddress api sid k of ((result, _, p, _), k') \<Rightarrow>
      fresh_buffer (alloc k) result p (alloc k')"
    by (simp only: wts_ok_def)
  then show "WTSQueryClientAddress api sid k = ((result, e, p, a), k') \<Longrightarrow>
      fresh_buffer (alloc k) result p (alloc k')" by simp
qed

text \<open>A client address is given back, except when its family is unknown.\<close>

lemma Session_address_alloc:
  assumes "wts_ok api alloc" "Session_address api sid k = (r, k')"
  shows "alloc k \<subseteq> alloc k'"
proof -
  obtain result e p a k1 where q: "WTSQueryClientAddress api sid k = ((result, e, p, a), k1)"
    by (metis prod.exhaust)
  from wts_okD(3) [OF assms(1) q] assms(2) q show ?thesis
    by (auto simp: Session_address_def fresh_buffer_def Let_def wts_ok_simps [OF assms(1)] split: if_splits)
qed

text \<open>One session: nothing that was allocated is lost, and a user costs a buffer.\<close>

lemma User_from_session_alloc:
  assumes "wts_ok api alloc" "User_from_session api sid k = (r, k')"
  shows "alloc k \<subseteq> alloc k' \<and>
    (\<forall>u. r = Ok (Some u) \<longrightarrow> card (alloc k) < card (alloc k') \<and> wu_domain u = wu_username u)"
proof -
  note ok = wts_ok_simps [OF assms(1)]
  obtain result e p info k1 where q: "WTSQuerySessionInfo api sid k = ((result, e, p, info), k1)"
    by (metis prod.exhaust)
  note buf = wts_okD(2) [OF assms(1) q]
  show ?thesis
  proof (cases "result = 0")
    case True
    with q buf assms(2) show ?thesis
      by (auto simp: User_from_session_def Session_info_def fresh_buffer_def)
  next
    case False
    with buf have k1: "p \<notin> alloc k" "alloc k1 = insert p (alloc k)" by (auto simp: fresh_buffer_def)
    obtain ra k2 where a: "Session_address api sid k1 = (ra, k2)" by fastforce
    from Session_address_alloc [OF assms(1) this] k1 have "insert p (alloc k) \<subseteq> alloc k2" by simp
    with ok k1 have "card (alloc k) < card (alloc k2)" "alloc k \<subseteq> alloc k2"
      by (auto intro!: psubset_card_mono)
    with False q a assms(2) k1 ok show ?thesis
      by (auto simp: User_from_session_def Session_info_def WtsInfo_drop_def WtsInfo_username_def
          WtsInfo_domain_def Let_def split: if_splits outcome.splits)
  qed
qed

definition users_of :: "(windows_user, heim_error) outcome list \<Rightarrow> windows_user list" where
  "users_of items = [u. Ok u \<leftarrow> items]"

lemma users_of_simps [simp]:
  "users_of [] = []" "users_of (xs @ ys) = users_of xs @ users_of ys" "users_of [Ok u] = [u]" "users_of [Err e] = []"
  by (simp_all add: users_of_def)

text \<open>
  Reading all sessions from any position ends, keeps what was allocated but the list of the sessions,
  gives that list back, and costs a buffer for every further user.
\<close>

lemma users_drain_alloc:
  assumes "wts_ok api alloc" "ss_count s = of_nat (length (ss_entries s))" "length (ss_entries s) < 2 ^ 32"
    and "\<forall>u\<in>set (users_of items). wu_domain u = wu_username u"
  shows "\<exists>r k'. users_drain api s k items = Some (r, k') \<and> alloc k - {ss_info s} \<subseteq> alloc k' \<and>
    ss_info s \<notin> alloc k' \<and>
    (\<forall>xs. r = Ok xs \<longrightarrow>
      card (alloc k) + length (users_of xs) \<le> Suc (card (alloc k')) + length (users_of items) \<and>
      (\<forall>u\<in>set (users_of xs). wu_domain u = wu_username u))"
  using assms(2-4)
proof (induction "length (ss_entries s) - unat (ss_current s)" arbitrary: s k items)
  case 0
  then have "Sessions_next s = (Ok None, s)"
    by (simp add: Sessions_next_def word_less_nat_alt unat_of_nat)
  with 0 show ?case
    using card_Suc_Diff1 [OF wts_ok_simps(1) [OF assms(1), of k], of "ss_info s"]
    by (subst users_drain.simps)
       (cases "ss_info s \<in> alloc k"; simp add: Sessions_drop_def wts_ok_simps [OF assms(1)])
next
  case (Suc n)
  let ?sid = "ss_entries s ! unat (ss_current s)" and ?s = "s\<lparr>ss_current := ss_current s + 1\<rparr>"
  have less: "unat (ss_current s) < length (ss_entries s)" using Suc.hyps(2) by simp
  then have next_s: "Sessions_next s = (Ok (Some ?sid), ?s)"
    using Suc.prems by (simp add: Sessions_next_def word_less_nat_alt unat_of_nat)
  have "unat (ss_current s + 1) = Suc (unat (ss_current s))"
    using less Suc.prems(2) by (simp add: unat_word_ariths)
  with Suc.hyps(2) have n: "n = length (ss_entries ?s) - unat (ss_current ?s)" by simp
  obtain r k1 where u: "User_from_session api ?sid k = (r, k1)" by fastforce
  note step = User_from_session_alloc [OF assms(1) u]
  then have "card (alloc k) \<le> card (alloc k1)" by (auto intro: card_mono simp: wts_ok_simps [OF assms(1)])
  then have mono: "card (alloc k) \<le> card (alloc k1)" .
  have IH: "\<exists>r k'. users_drain api ?s k1 xs = Some (r, k') \<and> alloc k1 - {ss_info s} \<subseteq> alloc k' \<and>
      ss_info s \<notin> alloc k' \<and>
      (\<forall>ys. r = Ok ys \<longrightarrow>
        card (alloc k1) + length (users_of ys) \<le> Suc (card (alloc k')) + length (users_of xs) \<and>
        (\<forall>u\<in>set (users_of ys). wu_domain u = wu_username u))"
    if "\<forall>u\<in>set (users_of xs). wu_domain u = wu_username u" for xs
    using Suc.hyps(1) [of ?s xs k1, OF n] Suc.prems(1,2) that by simp
  show ?case
  proof (cases r)
    case (Ok r')
    show ?thesis
    proof (cases r')
      case None
      with IH [OF Suc.prems(3)] Ok next_s u step mono show ?thesis
        by (subst users_drain.simps) fastforce
    next
      case (Some v)
      with Ok step Suc.prems(3) have "\<forall>u\<in>set (users_of (items @ [Ok v])). wu_domain u = wu_username u" by auto
      from IH [OF this] Ok Some next_s u step show ?thesis
        by (subst users_drain.simps) fastforce
    qed
  next
    case (Err e)
    with IH [of "items @ [Err e]"] Suc.prems(3) next_s u step mono show ?thesis
      by (subst users_drain.simps) fastforce
  next
    case Panic
    with next_s u step show ?thesis
      by (subst users_drain.simps) (auto simp: Sessions_drop_def wts_ok_simps [OF assms(1)])
  qed
qed

section \<open>Properties\<close>

text \<open>
  (C26) Listing the users of Windows always ends, and every user in the list costs a buffer of the terminal
  services that is never given back: what is freed is the address of a copy. When the sessions could be
  listed, the list itself is given back on every path, errors and panics included, and nothing that was
  allocated before is lost. The domain of every user is the user name.
\<close>

theorem windows_users_leak:
  assumes "wts_ok api alloc"
  shows "\<exists>r k'. windows_users api k = Some (r, k') \<and> alloc k \<subseteq> alloc k' \<and>
    (\<forall>result e p entries k1. WTSEnumerateSessionsW api k = ((result, e, p, entries), k1) \<and> result \<noteq> 0 \<longrightarrow>
      p \<notin> alloc k') \<and>
    (\<forall>items. r = Ok items \<longrightarrow> card (alloc k) + length (users_of items) \<le> card (alloc k') \<and>
      (\<forall>u\<in>set (users_of items). wu_domain u = wu_username u))"
proof -
  obtain result e p entries k1 where q: "WTSEnumerateSessionsW api k = ((result, e, p, entries), k1)"
    by (metis prod.exhaust)
  note buf = wts_okD(1) [OF assms q]
  show ?thesis
  proof (cases "result = 0")
    case True
    with q buf show ?thesis by (simp add: windows_users_def Sessions_new_def fresh_buffer_def)
  next
    case False
    let ?s = "\<lparr>ss_info = p, ss_entries = entries, ss_current = 0, ss_count = of_nat (length entries)\<rparr>"
    from False buf have k1: "p \<notin> alloc k" "alloc k1 = insert p (alloc k)" by (auto simp: fresh_buffer_def)
    then have "card (alloc k1) = Suc (card (alloc k))" by (simp add: wts_ok_simps [OF assms])
    moreover have "windows_users api k = users_drain api ?s k1 []"
      using False q by (simp add: windows_users_def Sessions_new_def)
    ultimately show ?thesis
      using users_drain_alloc [OF assms, of ?s "[]" k1] buf k1 q by fastforce
  qed
qed

text \<open>Terminal services with one session, whose state is the list of the buffers in use.\<close>

definition sample_alloc :: "'a \<Rightarrow> u64 list \<Rightarrow> (i32 \<times> i32 \<times> u64 \<times> 'a) \<times> u64 list" where
  "sample_alloc x k =
     (let p = foldr max k 0 + 1
      in if p = 0 then ((0, 8, 0, x), k) else ((1, 0, p, x), p # k))"

definition sample_wts :: "u64 list wts_api" where
  "sample_wts =
     \<lparr>WTSEnumerateSessionsW = sample_alloc [1],
      WTSQuerySessionInfo = (\<lambda>_. sample_alloc \<lparr>WtsDomain = [90, 0], UserName = [97, 98, 0]\<rparr>),
      WTSQueryClientAddress = (\<lambda>_. sample_alloc \<lparr>AddressFamily = 2, Address = replicate 20 7\<rparr>),
      WTSFreeMemory = (\<lambda>p. filter (\<lambda>q. q \<noteq> p)), info_place = 0,
      AF_INET = 2, AF_INET6 = 23, AF_IPX = 6, AF_NETBIOS = 17, AF_UNSPEC = 0\<rparr>"

lemma foldr_max_ge: "q \<in> set k \<Longrightarrow> q \<le> foldr max k (0 :: u64)"
  by (induction k) (auto simp: le_max_iff_disj)

lemma foldr_max_fresh: "foldr max k 0 + 1 \<noteq> (0 :: u64) \<Longrightarrow> foldr max k 0 + 1 \<notin> set k"
proof
  assume "foldr max k 0 + 1 \<noteq> (0 :: u64)" "foldr max k 0 + 1 \<in> set k"
  moreover from this(1) have "foldr max k 0 < foldr max k 0 + (1 :: u64)"
    by (simp add: word_less_nat_alt unatSuc add.commute)
  ultimately show False using foldr_max_ge [of "foldr max k 0 + 1" k] by auto
qed

lemma sample_alloc_fresh:
  assumes "sample_alloc x k = ((result, e, p, y), k')"
  shows "fresh_buffer (set k - {0}) result p (set k' - {0}) \<and> y = x"
  using assms foldr_max_fresh [of k]
  by (auto simp: sample_alloc_def fresh_buffer_def Let_def split: if_splits)

lemma sample_wts_ok: "wts_ok sample_wts (\<lambda>k. set k - {0})"
  by (auto simp: wts_ok_def sample_wts_def dest: sample_alloc_fresh split: prod.splits)

abbreviation "sample_user \<equiv> \<lparr>wu_domain = ''ab'', wu_username = ''ab'', wu_address = Some (V4 [7, 7, 7, 7])\<rparr>"

lemma sample_alloc_simps:
  "sample_alloc x [] = ((1, 0, 1, x), [1])" "sample_alloc y [1] = ((1, 0, 2, y), [2, 1])"
  "sample_alloc z [2, 1] = ((1, 0, 3, z), [3, 2, 1])"
  by (simp_all add: sample_alloc_def)

lemma sample_from_wide: "WtsInfo_from_wide [97, 98, 0] = ''ab''"
proof -
  have "char_of (97 :: nat) = CHR ''a''" "char_of (98 :: nat) = CHR ''b''" by code_simp+
  then show ?thesis by (simp add: WtsInfo_from_wide_def utf8_encode_def)
qed

lemma sample_from_session: "User_from_session sample_wts 1 [1] = (Ok (Some sample_user), [2, 1])"
  by (simp add: User_from_session_def Session_info_def Session_address_def WtsInfo_username_def
      WtsInfo_domain_def WtsInfo_drop_def sample_from_wide sample_wts_def sample_alloc_simps)

lemma sample_users: "windows_users sample_wts [] = Some (Ok [Ok sample_user], [2])"
proof -
  let ?s = "\<lparr>ss_info = 1, ss_entries = [1], ss_current = 0, ss_count = 1\<rparr> :: wts_sessions"
  have "Sessions_new sample_wts [] = (Ok ?s, [1])"
    by (simp add: Sessions_new_def sample_wts_def sample_alloc_simps)
  moreover have "Sessions_next ?s = (Ok (Some 1), ?s\<lparr>ss_current := 1\<rparr>)"
    "Sessions_next (?s\<lparr>ss_current := 1\<rparr>) = (Ok None, ?s\<lparr>ss_current := 1\<rparr>)"
    by (simp_all add: Sessions_next_def)
  moreover from this have "users_drain sample_wts (?s\<lparr>ss_current := 1\<rparr>) [2, 1] xs = Some (Ok xs, [2])" for xs
    by (subst users_drain.simps) (simp add: Sessions_drop_def sample_wts_def)
  ultimately show ?thesis
    by (simp add: windows_users_def users_drain.simps [of _ ?s] sample_from_session)
qed

theorem windows_users_leak_witness:
  "\<exists>items k'. windows_users sample_wts [] = Some (Ok items, k') \<and> length (users_of items) = 1 \<and>
     1 \<le> card (set k' - {0}) \<and> 1 \<notin> set k'"
  using windows_users_leak [OF sample_wts_ok, of "[]"] sample_users
  by (auto simp: sample_wts_def sample_alloc_simps)

text \<open>Text of single ASCII characters in UTF-16.\<close>

definition widen :: "string \<Rightarrow> wide" where
  "widen s = map (\<lambda>c. of_nat (byte c)) s"

definition ascii_text :: "string \<Rightarrow> bool" where
  "ascii_text s \<longleftrightarrow> (\<forall>c\<in>set s. 0 < byte c \<and> byte c < 128)"

lemma utf16_lossy_widen: "ascii_text s \<Longrightarrow> utf16_lossy (widen s) = s"
proof -
  have unit: "unat (of_nat (byte c) :: u16) = byte c" "utf8_encode (byte c) = [c]" if "byte c < 128" for c
    using that by (simp_all add: unat_of_nat utf8_encode_def byte_def)
  have "\<forall>c\<in>set s. byte c < 128 \<Longrightarrow> utf16_lossy (widen s) = s"
    by (induction s rule: induct_list012) (simp_all add: widen_def unit del: of_nat_of_char)
  then show "ascii_text s \<Longrightarrow> utf16_lossy (widen s) = s" by (simp add: ascii_text_def)
qed

lemma length_widen [simp]: "length (widen s) = length s"
  by (simp add: widen_def)

text \<open>
  A name in a fixed array of Windows is the text in front of the first NUL; a name that fills the whole
  array comes out empty.
\<close>

theorem WtsInfo_from_wide_text:
  assumes "ascii_text s"
  shows "WtsInfo_from_wide (widen s @ 0 # rest) = s \<and> WtsInfo_from_wide (widen s) = []"
proof -
  have "\<forall>c\<in>set (widen s). c \<noteq> 0"
  proof
    fix c assume "c \<in> set (widen s)"
    then obtain x where "x \<in> set s" "c = of_nat (byte x)" by (auto simp: widen_def)
    moreover from this assms have "0 < byte x" "byte x < 128" by (simp_all add: ascii_text_def)
    ultimately have "unat c = byte x" "0 < byte x" by (simp_all add: unat_of_nat)
    then show "c \<noteq> 0" by auto
  qed
  then have until: "takeWhile (\<lambda>c. c \<noteq> 0) (widen s @ 0 # rest) = widen s" "takeWhile (\<lambda>c. c \<noteq> 0) (widen s) = widen s"
    by (simp_all add: takeWhile_tail)
  show ?thesis by (simp add: WtsInfo_from_wide_def until utf16_lossy_widen [OF assms])
qed

theorem WtsInfo_from_wide_text_witness:
  "WtsInfo_from_wide (widen ''Administrator'' @ 0 # replicate 7 0) = ''Administrator''"
  by (rule WtsInfo_from_wide_text [THEN conjunct1]) (simp add: ascii_text_def byte_def)

text \<open>
  A computer name comes out exactly, whether the system counts the terminating NUL in the size it asks
  for, as its documentation has it, or not, as the code expects.
\<close>

theorem computer_name_exact:
  assumes "ascii_text s" "length s \<le> n" "Suc n < 2 ^ 32"
    and "name_dry api kind = (0, e, of_nat n)"
    and "name_fill api kind (of_nat n + 1) = (1, 0, of_nat (length s), widen s @ replicate (Suc n - length s) 0)"
  shows "get_value_from_get_computer_name_ex_w oc api kind = Ok s"
proof -
  have "unat (of_nat n :: u32) = n" "unat (of_nat (length s) :: u32) = length s"
    using assms(2,3) by (simp_all add: unat_of_nat)
  with assms utf16_lossy_widen [OF assms(1)] show ?thesis
    by (simp add: get_value_from_get_computer_name_ex_w_def word_less_nat_alt)
qed

definition sample_platform :: "(nat, nat) win_platform_api" where
  "sample_platform =
     \<lparr>VER_NT_WORKSTATION = 1, VER_NT_SERVER = 3, VER_NT_DOMAIN_CONTROLLER = 2, VER_SUITE_WH_SERVER = 0x8000,
      PROCESSOR_ARCHITECTURE_AMD64 = 9, PROCESSOR_ARCHITECTURE_ARM = 5, PROCESSOR_ARCHITECTURE_ARM64 = 12,
      PROCESSOR_ARCHITECTURE_IA64 = 6, PROCESSOR_ARCHITECTURE_INTEL = 0, win_X86_64 = 1, win_ARM = 2,
      win_AARCH64 = 3, win_X86 = 4, win_Unknown = 0, ComputerNameDnsHostname = 1, ComputerNameDnsDomain = 2,
      native_architecture = 9,
      version_answer = (0, \<lparr>dwMajorVersion = 10, dwMinorVersion = 0, dwBuildNumber = 17763, wSuiteMask = 0,
        wProductType = 1\<rparr>),
      name_dry = (\<lambda>_. (0, 234, 5)), name_fill = (\<lambda>_ _. (1, 0, 4, widen ''host'' @ replicate 2 0))\<rparr>"

theorem computer_name_exact_witness:
  "get_computer_name True sample_platform = Ok ''host''"
  unfolding get_computer_name_def
  by (rule computer_name_exact [of _ 5 _ _ 234]) (simp_all add: ascii_text_def byte_def sample_platform_def)

end
