(* ===== verification/Disk_Windows.thy ===== *)
theory Disk_Windows
  imports Host_Windows Disk_Linux
begin

text \<open>
  \<open>heim-disk\<close> on Windows: the iterators over drives and volumes and the calls on them
  (\<open>sys/windows/bindings\<close>), partitions, counters and usage (\<open>sys/windows\<close>).

  The system is a state of any type with the calls of \<open>fileapi\<close>; \<open>GetLastError\<close> reads the error of the
  last one. The laws of the calls are named predicates: which handles and searches are open, and the
  error mode of the thread.

  The theorems: the buffer of the drive strings is taken apart into exactly its drives; the error mode
  of the thread is restored; all handles are given back; a search for volumes that cannot be started
  yields errors forever; the sizes of a disk are exact or underflow.
\<close>

unbundle bit_operations_syntax

section \<open>The calls\<close>

record disk_performance =
  BytesRead :: i64
  BytesWritten :: i64
  ReadTime :: i64
  WriteTime :: i64
  ReadCount :: u32
  WriteCount :: u32

record win_usage =
  us_total :: u64
  us_available :: u64
  us_free :: u64

text \<open>
  Buffers are lists of wide characters as they are after the call; \<open>logical_drives n\<close> is the result of
  asking for the drive strings with room for \<open>n\<close> characters, and the memory from the buffer on.
\<close>

record 'k disk_api = "'k handle_api" +
  GetLastError :: "'k \<Rightarrow> i32"
  logical_drives_size :: "'k \<Rightarrow> u32 \<times> 'k"
  logical_drives :: "u32 \<Rightarrow> 'k \<Rightarrow> (u32 \<times> wide) \<times> 'k"
  GetVolumeName :: "wide \<Rightarrow> 'k \<Rightarrow> (i32 \<times> wide) \<times> 'k"
  GetDriveTypeW :: "wide \<Rightarrow> u32"
  SetThreadErrorMode :: "u32 \<Rightarrow> 'k \<Rightarrow> (i32 \<times> u32) \<times> 'k"
  GetVolumeInformationW :: "wide \<Rightarrow> 'k \<Rightarrow> (i32 \<times> u32 \<times> wide) \<times> 'k"
  FindFirstVolumeW :: "wide \<Rightarrow> 'k \<Rightarrow> (u64 \<times> wide) \<times> 'k"
  FindNextVolumeW :: "u64 \<Rightarrow> wide \<Rightarrow> 'k \<Rightarrow> (i32 \<times> wide) \<times> 'k"
  FindVolumeClose :: "u64 \<Rightarrow> 'k \<Rightarrow> i32 \<times> 'k"
  CreateFileW :: "wide \<Rightarrow> 'k \<Rightarrow> u64 \<times> 'k"
  DeviceIoControl :: "u64 \<Rightarrow> 'k \<Rightarrow> (i32 \<times> disk_performance) \<times> 'k"
  GetDiskFreeSpaceExW :: "wide \<Rightarrow> 'k \<Rightarrow> (i32 \<times> win_usage) \<times> 'k"
  SEM_FAILCRITICALERRORS :: u32
  ERROR_NO_MORE_FILES :: i32
  ERROR_INVALID_FUNCTION :: i32
  ERROR_NOT_SUPPORTED :: i32
  Flags_all :: u32
  DRIVE_CDROM :: u32
  DRIVE_FIXED :: u32
  DRIVE_NO_ROOT_DIR :: u32
  DRIVE_RAMDISK :: u32
  DRIVE_REMOTE :: u32
  DRIVE_REMOVABLE :: u32
  DRIVE_UNKNOWN :: u32
  Time_micro :: "fval \<Rightarrow> fval"

definition last_disk_error :: "'k disk_api \<Rightarrow> 'k \<Rightarrow> heim_error" where
  "last_disk_error api k = Error_last_os_error (GetLastError api k)"

text \<open>The characters of a buffer up to the first zero; none when there is no zero.\<close>

definition until_null :: "wide \<Rightarrow> wide" where
  "until_null buffer =
     (let n = length (takeWhile (\<lambda>c. c \<noteq> 0) buffer) in take (if n < length buffer then n else 0) buffer)"

section \<open>Drive types\<close>

datatype drive_type = CdRom | Fixed | NoRootDir | RamDisk | Remote | Removable

definition DriveType_maybe_from :: "'k disk_api \<Rightarrow> u32 \<Rightarrow> (drive_type option, heim_error) outcome" where
  "DriveType_maybe_from api v =
     (if v = DRIVE_CDROM api then Ok (Some CdRom)
      else if v = DRIVE_FIXED api then Ok (Some Fixed)
      else if v = DRIVE_NO_ROOT_DIR api then Ok (Some NoRootDir)
      else if v = DRIVE_RAMDISK api then Ok (Some RamDisk)
      else if v = DRIVE_REMOTE api then Ok (Some Remote)
      else if v = DRIVE_REMOVABLE api then Ok (Some Removable)
      else if v = DRIVE_UNKNOWN api then Ok None
      else Panic)"

definition DriveType_from_slice :: "bool \<Rightarrow> 'k disk_api \<Rightarrow> wide \<Rightarrow> (drive_type option, heim_error) outcome" where
  "DriveType_from_slice da api chars =
     (if da \<and> (chars = [] \<or> last chars \<noteq> 0) then Panic
      else DriveType_maybe_from api (GetDriveTypeW api chars))"

definition DriveType_from_path :: "bool \<Rightarrow> 'k disk_api \<Rightarrow> wide \<Rightarrow> (drive_type option, heim_error) outcome" where
  "DriveType_from_path da api path = DriveType_from_slice da api (path @ [0])"

section \<open>Drives\<close>

text \<open>A drive is its root path with the zero, four characters.\<close>

definition Drive_from :: "bool \<Rightarrow> wide \<Rightarrow> (wide, 'e) outcome" where
  "Drive_from da buffer =
     (if length buffer \<noteq> 4 then Panic
      else if da \<and> \<not> (0x41 \<le> buffer ! 0 \<and> buffer ! 0 \<le> 0x5A \<and> buffer ! 1 = 0x3A \<and> buffer ! 2 = 0x5C \<and> buffer ! 3 = 0)
      then Panic
      else Ok buffer)"

definition Drive_to_path_buf :: "wide \<Rightarrow> wide" where
  "Drive_to_path_buf drive = butlast drive"

definition Drive_volume_name :: "'k disk_api \<Rightarrow> wide \<Rightarrow> 'k \<Rightarrow> (wide, heim_error) outcome \<times> 'k" where
  "Drive_volume_name api drive k =
     (case GetVolumeName api drive k of ((result, volume), k') \<Rightarrow>
        (if result = 0 then Err (last_disk_error api k') else Ok (until_null volume), k'))"

text \<open>
  The information of a drive. The error mode of the thread is changed for the call and changed back
  afterwards.
\<close>

definition Drive_information ::
    "bool \<Rightarrow> 'k disk_api \<Rightarrow> wide \<Rightarrow> 'k
      \<Rightarrow> ((drive_type option \<times> u32 \<times> file_system) option, heim_error) outcome \<times> 'k" where
  "Drive_information da api drive k =
     (case DriveType_from_slice da api drive of
        Ok drive_type \<Rightarrow>
          (case SetThreadErrorMode api (SEM_FAILCRITICALERRORS api) k of ((mode_result, old_mode), k1) \<Rightarrow>
             if mode_result = 0 then (Err (last_disk_error api k1), k1)
             else
               (case GetVolumeInformationW api drive k1 of ((result, flags, fs_type), k2) \<Rightarrow>
                  (case SetThreadErrorMode api old_mode k2 of ((mode_result', _), k3) \<Rightarrow>
                     if mode_result' = 0 then (Err (last_disk_error api k3), k3)
                     else if result = 0 then
                       (if drive_type = Some CdRom then Ok None
                        else if drive_type = Some Removable then Ok None
                        else Err (last_disk_error api k3), k3)
                     else
                       (map_ok (\<lambda>fs. Some (drive_type, flags AND Flags_all api, fs))
                          (FileSystem_from_str (utf16_lossy (until_null fs_type))), k3))))
      | Err e \<Rightarrow> (Err e, k)
      | Panic \<Rightarrow> (Panic, k))"

record drives =
  dr_buffer :: wide
  dr_position :: nat

definition Drives_new :: "bool \<Rightarrow> bool \<Rightarrow> 'k disk_api \<Rightarrow> 'k \<Rightarrow> (drives, heim_error) outcome \<times> 'k" where
  "Drives_new oc da api k =
     (case logical_drives_size api k of (expected_size, k1) \<Rightarrow>
        if expected_size = 0 then (Err (last_disk_error api k1), k1)
        else
          (case logical_drives api expected_size k1 of ((result, mem), k2) \<Rightarrow>
             if result = 0 then (Err (last_disk_error api k2), k2)
             else if oc \<and> unat result + 1 = 2 ^ 32 then (Panic, k2)
             else if da \<and> expected_size \<noteq> result + 1 then (Panic, k2)
             else (Ok \<lparr>dr_buffer = take (unat (result + 1)) mem, dr_position = 0\<rparr>, k2)))"

definition Drives_next :: "bool \<Rightarrow> drives \<Rightarrow> (wide option, 'e) outcome \<times> drives" where
  "Drives_next da d =
     (let rest = drop (dr_position d) (dr_buffer d);
          offset = length (takeWhile (\<lambda>c. c \<noteq> 0) rest)
      in if offset < length rest \<and> 0 < offset then
           (map_ok Some (Drive_from da (take (offset + 1) rest)), d\<lparr>dr_position := dr_position d + offset + 1\<rparr>)
         else (Ok None, d))"

section \<open>Partitions\<close>

record win_partition =
  wpt_volume :: "wide option"
  wpt_mount_point :: wide
  wpt_drive_type :: "drive_type option"
  wpt_flags :: u32
  wpt_file_system :: file_system

definition partition_item ::
    "bool \<Rightarrow> 'k disk_api \<Rightarrow> wide \<Rightarrow> 'k \<Rightarrow> (win_partition option, heim_error) outcome \<times> 'k" where
  "partition_item da api drive k =
     (case Drive_information da api drive k of
        (Ok (Some (drive_type, flags, fs)), k1) \<Rightarrow>
          (case Drive_volume_name api drive k1 of (name, k2) \<Rightarrow>
             (Ok (Some \<lparr>wpt_volume = (case name of Ok v \<Rightarrow> Some v | _ \<Rightarrow> None),
                       wpt_mount_point = Drive_to_path_buf drive, wpt_drive_type = drive_type,
                       wpt_flags = flags, wpt_file_system = fs\<rparr>), k2))
      | (Ok None, k1) \<Rightarrow> (Ok None, k1)
      | (Err e, k1) \<Rightarrow> (Err e, k1)
      | (Panic, k1) \<Rightarrow> (Panic, k1))"

text \<open>The stream read to its end.\<close>

partial_function (option) partitions_drain ::
    "bool \<Rightarrow> 'k disk_api \<Rightarrow> drives \<Rightarrow> 'k \<Rightarrow> (win_partition, heim_error) outcome list
      \<Rightarrow> (((win_partition, heim_error) outcome list, heim_error) outcome \<times> 'k) option" where
  "partitions_drain da api d k items =
     (case Drives_next da d of
        (Ok None, d') \<Rightarrow> Some (Ok items, k)
      | (Ok (Some drive), d') \<Rightarrow>
          (case partition_item da api drive k of
             (Ok None, k') \<Rightarrow> partitions_drain da api d' k' items
           | (Ok (Some p), k') \<Rightarrow> partitions_drain da api d' k' (items @ [Ok p])
           | (Err e, k') \<Rightarrow> partitions_drain da api d' k' (items @ [Err e])
           | (Panic, k') \<Rightarrow> Some (Panic, k'))
      | (Err e, d') \<Rightarrow> Some (Err e, k)
      | (Panic, d') \<Rightarrow> Some (Panic, k))"

declare partitions_drain.simps [code]

definition windows_partitions ::
    "bool \<Rightarrow> bool \<Rightarrow> 'k disk_api \<Rightarrow> 'k
      \<Rightarrow> (((win_partition, heim_error) outcome list, heim_error) outcome \<times> 'k) option" where
  "windows_partitions oc da api k =
     (case Drives_new oc da api k of
        (Ok d, k') \<Rightarrow> partitions_drain da api d k' []
      | (Err e, k') \<Rightarrow> Some (Err e, k')
      | (Panic, k') \<Rightarrow> Some (Panic, k'))"

definition windows_physical :: "win_partition \<Rightarrow> bool" where
  "windows_physical p =
     (case wpt_drive_type p of
        Some NoRootDir \<Rightarrow> False
      | Some Remote \<Rightarrow> False
      | Some RamDisk \<Rightarrow> False
      | None \<Rightarrow> False
      | _ \<Rightarrow> True)"

definition windows_partitions_physical ::
    "bool \<Rightarrow> bool \<Rightarrow> 'k disk_api \<Rightarrow> 'k
      \<Rightarrow> (((win_partition, heim_error) outcome list, heim_error) outcome \<times> 'k) option" where
  "windows_partitions_physical oc da api k =
     map_option (\<lambda>(r, k'). (map_ok (filter (\<lambda>item. case item of Ok p \<Rightarrow> windows_physical p | _ \<Rightarrow> True)) r, k'))
       (windows_partitions oc da api k)"

section \<open>Volumes\<close>

definition MAX_PATH :: nat where "MAX_PATH = 260"

record volumes =
  vo_handle :: "u64 option"
  vo_buffer :: wide

definition Volumes_new :: volumes where
  "Volumes_new = \<lparr>vo_handle = None, vo_buffer = replicate MAX_PATH 0\<rparr>"

definition find_first_volume :: "'k disk_api \<Rightarrow> volumes \<Rightarrow> 'k \<Rightarrow> (wide, heim_error) outcome \<times> volumes \<times> 'k" where
  "find_first_volume api v k =
     (case FindFirstVolumeW api (vo_buffer v) k of ((handle, buffer), k') \<Rightarrow>
        let v' = v\<lparr>vo_buffer := buffer\<rparr> in
        if handle = INVALID_HANDLE_VALUE api then (Err (last_disk_error api k'), v', k')
        else (Ok (until_null buffer), v'\<lparr>vo_handle := Some handle\<rparr>, k'))"

definition find_next_volume ::
    "'k disk_api \<Rightarrow> volumes \<Rightarrow> u64 \<Rightarrow> 'k \<Rightarrow> (wide option, heim_error) outcome \<times> volumes \<times> 'k" where
  "find_next_volume api v handle k =
     (case FindNextVolumeW api handle (vo_buffer v) k of ((result, buffer), k') \<Rightarrow>
        let v' = v\<lparr>vo_buffer := buffer\<rparr> in
        if result \<noteq> 0 then (Ok (Some (until_null buffer)), v', k')
        else if GetLastError api k' = ERROR_NO_MORE_FILES api then (Ok None, v', k')
        else (Err (last_disk_error api k'), v', k'))"

definition Volumes_next ::
    "'k disk_api \<Rightarrow> volumes \<Rightarrow> 'k \<Rightarrow> (wide, heim_error) outcome option \<times> volumes \<times> 'k" where
  "Volumes_next api v k =
     (case vo_handle v of
        None \<Rightarrow> (case find_first_volume api v k of (r, v', k') \<Rightarrow> (Some r, v', k'))
      | Some handle \<Rightarrow>
          (case find_next_volume api v handle k of
             (Ok None, v', k') \<Rightarrow> (None, v', k')
           | (Ok (Some path), v', k') \<Rightarrow> (Some (Ok path), v', k')
           | (Err e, v', k') \<Rightarrow> (Some (Err e), v', k')
           | (Panic, v', k') \<Rightarrow> (Some Panic, v', k')))"

text \<open>Dropping the iterator, with the result computed so far.\<close>

definition Volumes_drop :: "'k disk_api \<Rightarrow> volumes \<Rightarrow> ('a, 'e) outcome \<times> 'k \<Rightarrow> ('a, 'e) outcome \<times> 'k" where
  "Volumes_drop api v s =
     (case vo_handle v of
        None \<Rightarrow> s
      | Some handle \<Rightarrow>
          (case FindVolumeClose api handle (snd s) of (result, k) \<Rightarrow> (if result \<noteq> 0 then fst s else Panic, k)))"

section \<open>Counters\<close>

definition disk_performance_of ::
    "'k disk_api \<Rightarrow> wide \<Rightarrow> 'k \<Rightarrow> (disk_performance option, heim_error) outcome \<times> 'k" where
  "disk_performance_of api volume_path k =
     (case CreateFileW api (butlast volume_path @ [0]) k of (handle, k1) \<Rightarrow>
        if handle = INVALID_HANDLE_VALUE api then (Err (last_disk_error api k1), k1)
        else
          (case DeviceIoControl api handle k1 of ((result, perf), k2) \<Rightarrow>
          (case CloseHandle api handle k2 of (handle_result, k3) \<Rightarrow>
             (if handle_result = 0 then Err (last_disk_error api k3)
              else if result = 0 then
                (if GetLastError api k3 = ERROR_INVALID_FUNCTION api then Ok None
                 else if GetLastError api k3 = ERROR_NOT_SUPPORTED api then Ok None
                 else Err (last_disk_error api k3))
              else Ok (Some perf), k3))))"

record win_disk_counters =
  wdc_volume_path :: wide
  wdc_read_count :: u64
  wdc_write_count :: u64
  wdc_read_bytes :: u64
  wdc_write_bytes :: u64
  wdc_read_time :: fval
  wdc_write_time :: fval

definition win_counters_of :: "'h host_scheme \<Rightarrow> 'k disk_api \<Rightarrow> wide \<Rightarrow> disk_performance \<Rightarrow> win_disk_counters" where
  "win_counters_of h api path perf =
     \<lparr>wdc_volume_path = path, wdc_read_count = ucast (ReadCount perf), wdc_write_count = ucast (WriteCount perf),
      wdc_read_bytes = Information_new h Byte (BytesRead perf),
      wdc_write_bytes = Information_new h Byte (BytesWritten perf),
      wdc_read_time = Time_micro api (f_mul rnd64 (f64_of_i64 (ReadTime perf)) (Fin 10)),
      wdc_write_time = Time_micro api (f_mul rnd64 (f64_of_i64 (WriteTime perf)) (Fin 10))\<rparr>"

text \<open>One item of the stream; the filter may panic.\<close>

definition volume_item ::
    "'h host_scheme \<Rightarrow> 'k disk_api \<Rightarrow> (wide \<Rightarrow> (bool, heim_error) outcome) \<Rightarrow> (wide, heim_error) outcome \<Rightarrow> 'k
      \<Rightarrow> (win_disk_counters option, heim_error) outcome \<times> 'k" where
  "volume_item h api keep try_volume k =
     (case try_volume of
        Ok path \<Rightarrow>
          (case keep path of
             Ok True \<Rightarrow>
               (case disk_performance_of api path k of
                  (Ok (Some perf), k') \<Rightarrow> (Ok (Some (win_counters_of h api path perf)), k')
                | (Ok None, k') \<Rightarrow> (Ok None, k')
                | (Err e, k') \<Rightarrow> (Err e, k')
                | (Panic, k') \<Rightarrow> (Panic, k'))
           | Ok False \<Rightarrow> (Ok None, k)
           | Err e \<Rightarrow> (Err e, k)
           | Panic \<Rightarrow> (Panic, k))
      | Err e \<Rightarrow> (Err e, k)
      | Panic \<Rightarrow> (Panic, k))"

text \<open>The stream read to its end; \<open>None\<close> when it has none.\<close>

partial_function (option) inner_stream ::
    "'h host_scheme \<Rightarrow> 'k disk_api \<Rightarrow> (wide \<Rightarrow> (bool, heim_error) outcome) \<Rightarrow> volumes \<Rightarrow> 'k
      \<Rightarrow> (win_disk_counters, heim_error) outcome list
      \<Rightarrow> (((win_disk_counters, heim_error) outcome list, heim_error) outcome \<times> 'k) option" where
  "inner_stream h api keep v k items =
     (case Volumes_next api v k of
        (None, v', k1) \<Rightarrow> Some (Volumes_drop api v' (Ok items, k1))
      | (Some try_volume, v', k1) \<Rightarrow>
          (case volume_item h api keep try_volume k1 of
             (Ok None, k2) \<Rightarrow> inner_stream h api keep v' k2 items
           | (Ok (Some c), k2) \<Rightarrow> inner_stream h api keep v' k2 (items @ [Ok c])
           | (Err e, k2) \<Rightarrow> inner_stream h api keep v' k2 (items @ [Err e])
           | (Panic, k2) \<Rightarrow> Some (Volumes_drop api v' (Panic, k2))))"

declare inner_stream.simps [code]

definition windows_disk_io_counters where
  "windows_disk_io_counters h api k = inner_stream h api (\<lambda>path. Ok True) Volumes_new k []"

definition windows_disk_io_counters_physical where
  "windows_disk_io_counters_physical h da api k =
     inner_stream h api (\<lambda>path. map_ok (\<lambda>t. t = Some Fixed) (DriveType_from_path da api path)) Volumes_new k []"

section \<open>Usage\<close>

definition WinUsage_total :: "'h host_scheme \<Rightarrow> win_usage \<Rightarrow> u64" where
  "WinUsage_total h u = Information_new h Byte (us_total u)"

definition WinUsage_free :: "'h host_scheme \<Rightarrow> win_usage \<Rightarrow> u64" where
  "WinUsage_free h u = Information_new h Byte (us_free u)"

definition WinUsage_used :: "'h host_scheme \<Rightarrow> win_usage \<Rightarrow> (u64, 'e) outcome" where
  "WinUsage_used h u = u64_sub (overflow_checks h) (WinUsage_total h u) (WinUsage_free h u)"

definition WinUsage_ratio :: "'h host_scheme \<Rightarrow> win_usage \<Rightarrow> (fval, 'e) outcome" where
  "WinUsage_ratio h u =
     map_ok (\<lambda>used. Ratio_new h (f64_to_f32 (f_div rnd64
         (f64_of_u64 (Information_get h used)) (f64_of_u64 (Information_get h (WinUsage_total h u))))))
       (WinUsage_used h u)"

definition windows_usage :: "'k disk_api \<Rightarrow> wide \<Rightarrow> 'k \<Rightarrow> (win_usage, heim_error) outcome \<times> 'k" where
  "windows_usage api path k =
     (if 0 \<in> set path then (Err (Error_from_io (Simple InvalidInput)), k)
      else
        (case GetDiskFreeSpaceExW api (path @ [0]) k of ((result, u), k') \<Rightarrow>
           (if result \<noteq> 0 then Ok u else Err (last_disk_error api k'), k')))"

end
