(* ===== verification/Disk_Windows_Correct.thy ===== *)
theory Disk_Windows_Correct
  imports Disk_Windows
begin

text \<open>
  The properties of disks on Windows: the drive strings, the error mode of the thread, the handles of
  volumes and their searches, and the sizes of a disk.
\<close>

section \<open>Drives\<close>

text \<open>The root path of a drive as the system writes it, and the stream over a list of drives.\<close>

definition drive_root :: "u16 \<Rightarrow> wide" where
  "drive_root letter = [letter, 0x3A, 0x5C, 0]"

fun partitions_of ::
    "bool \<Rightarrow> 'k disk_api \<Rightarrow> wide list \<Rightarrow> 'k \<Rightarrow> (win_partition, heim_error) outcome list
      \<Rightarrow> ((win_partition, heim_error) outcome list, heim_error) outcome \<times> 'k" where
  "partitions_of da api [] k items = (Ok items, k)"
| "partitions_of da api (drive # drives) k items =
     (case partition_item da api drive k of
        (Ok None, k') \<Rightarrow> partitions_of da api drives k' items
      | (Ok (Some p), k') \<Rightarrow> partitions_of da api drives k' (items @ [Ok p])
      | (Err e, k') \<Rightarrow> partitions_of da api drives k' (items @ [Err e])
      | (Panic, k') \<Rightarrow> (Panic, k'))"

lemma Drives_next_root:
  assumes "drop (dr_position d) (dr_buffer d) = drive_root letter @ more_drives" "0x41 \<le> letter" "letter \<le> 0x5A"
  shows "Drives_next da d = (Ok (Some (drive_root letter)), d\<lparr>dr_position := dr_position d + 4\<rparr>)"
proof -
  have "letter \<noteq> 0" using assms(2) by auto
  with assms show ?thesis
    by (simp add: Drives_next_def drive_root_def Drive_from_def Let_def)
qed

lemma partitions_drain_drives:
  assumes "drop (dr_position d) (dr_buffer d) = concat (map drive_root letters) @ [0]"
    and "\<forall>c\<in>set letters. 0x41 \<le> c \<and> c \<le> 0x5A"
  shows "partitions_drain da api d k items = Some (partitions_of da api (map drive_root letters) k items)"
  using assms
proof (induction letters arbitrary: d k items)
  case Nil
  then show ?case by (subst partitions_drain.simps) (simp add: Drives_next_def)
next
  case (Cons c letters)
  let ?d = "d\<lparr>dr_position := dr_position d + 4\<rparr>"
  have step: "Drives_next da d = ((Ok (Some (drive_root c)), ?d) :: (wide option, heim_error) outcome \<times> drives)"
    using Cons.prems Drives_next_root [of d c "concat (map drive_root letters) @ [0]" da] by simp
  have "drop 4 (drop (dr_position d) (dr_buffer d)) = concat (map drive_root letters) @ [0]"
    using Cons.prems(1) by (simp add: drive_root_def [of c])
  then have "drop (dr_position ?d) (dr_buffer ?d) = concat (map drive_root letters) @ [0]"
    by (simp add: add.commute)
  note IH = Cons.IH [OF this]
  obtain r k' where item: "partition_item da api (drive_root c) k = (r, k')" by fastforce
  have letters: "\<forall>c\<in>set letters. 0x41 \<le> c \<and> c \<le> 0x5A" using Cons.prems(2) by simp
  show ?case
  proof (cases r)
    case (Ok x)
    with item IH [OF letters] show ?thesis
      by (subst partitions_drain.simps) (cases x; simp add: step)
  qed (use item IH [OF letters] in \<open>subst partitions_drain.simps, simp add: step\<close>)+
qed

text \<open>
  (C19) The partitions of Windows: the buffer of drive strings, as the system fills it, is taken apart into
  exactly its drives; the stream asks every one of them once, in order, and ends.
\<close>

theorem windows_partitions_drives:
  assumes "logical_drives_size api k = (of_nat (4 * length letters + 1), k1)"
    and "logical_drives api (of_nat (4 * length letters + 1)) k1 =
      ((of_nat (4 * length letters), concat (map drive_root letters) @ [0] @ junk), k2)"
    and "letters \<noteq> []" "\<forall>c\<in>set letters. 0x41 \<le> c \<and> c \<le> 0x5A" "4 * length letters + 1 < 2 ^ 32"
  shows "windows_partitions oc da api k = Some (partitions_of da api (map drive_root letters) k2 [])"
proof -
  define n where "n = 4 * length letters"
  let ?mem = "concat (map drive_root letters) @ [0]"
  have n: "0 < n" "n + 1 < 2 ^ 32" using assms(3,5) by (simp_all add: n_def)
  have unat: "unat (of_nat n :: u32) = n" using n by (simp add: unat_of_nat)
  then have unat1: "unat (of_nat n + 1 :: u32) = n + 1" using n by (simp add: unat_word_ariths)
  have "length (concat (map drive_root letters)) = n"
    unfolding n_def by (induction letters) (simp_all add: drive_root_def)
  then have take: "take (n + 1) (?mem @ junk) = ?mem" by simp
  have nonzero: "(of_nat n :: u32) \<noteq> 0" "(of_nat n + 1 :: u32) \<noteq> 0"
    using unat unat1 n(1) by (auto simp only: unat_0)
  have "Drives_new oc da api k = (Ok \<lparr>dr_buffer = ?mem, dr_position = 0\<rparr>, k2)"
    using assms(1,2) [folded n_def, unfolded of_nat_add of_nat_1] nonzero n take
    by (simp add: Drives_new_def unat unat1)
  with assms(4) partitions_drain_drives [of "\<lparr>dr_buffer = ?mem, dr_position = 0\<rparr>" letters da api k2 "[]"]
  show ?thesis by (simp add: windows_partitions_def)
qed

section \<open>The error mode of the thread\<close>

text \<open>
  What is relied on: setting one of the \<open>valid\<close> modes succeeds and tells the mode before, and no other
  call changes it.
\<close>

definition mode_ok :: "'k disk_api \<Rightarrow> ('k \<Rightarrow> u32) \<Rightarrow> (u32 \<Rightarrow> bool) \<Rightarrow> bool" where
  "mode_ok api mode valid \<longleftrightarrow>
     valid (SEM_FAILCRITICALERRORS api) \<and> (\<forall>k. valid (mode k)) \<and>
     (\<forall>m k r old k'. SetThreadErrorMode api m k = ((r, old), k') \<and> valid m \<longrightarrow>
        r \<noteq> 0 \<and> mode k' = m \<and> old = mode k) \<and>
     (\<forall>drive k r k'. GetVolumeInformationW api drive k = (r, k') \<longrightarrow> mode k' = mode k) \<and>
     (\<forall>drive k r k'. GetVolumeName api drive k = (r, k') \<longrightarrow> mode k' = mode k) \<and>
     (\<forall>k r k'. logical_drives_size api k = (r, k') \<longrightarrow> mode k' = mode k) \<and>
     (\<forall>n k r k'. logical_drives api n k = (r, k') \<longrightarrow> mode k' = mode k)"

lemma mode_okD:
  assumes "mode_ok api mode valid" "SetThreadErrorMode api m k = ((r, old), k')" "valid m"
  shows "r \<noteq> 0" "mode k' = m" "old = mode k"
  using assms unfolding mode_ok_def by blast+

lemma mode_ok_valid: "mode_ok api mode valid \<Longrightarrow> valid (SEM_FAILCRITICALERRORS api) \<and> valid (mode k)"
  by (simp add: mode_ok_def)

lemma Drive_information_mode:
  assumes "mode_ok api mode valid" "Drive_information da api drive k = (r, k')"
  shows "mode k' = mode k"
proof (cases "DriveType_from_slice da api drive")
  case (Ok t)
  obtain r1 old k1 where m1: "SetThreadErrorMode api (SEM_FAILCRITICALERRORS api) k = ((r1, old), k1)"
    by (metis prod.exhaust)
  note k1 = mode_okD [OF assms(1) m1 mode_ok_valid [OF assms(1), THEN conjunct1]]
  obtain r2 flags fs k2 where q: "GetVolumeInformationW api drive k1 = ((r2, flags, fs), k2)" by (metis prod.exhaust)
  obtain r3 old' k3 where m3: "SetThreadErrorMode api (mode k) k2 = ((r3, old'), k3)" by (metis prod.exhaust)
  note k3 = mode_okD [OF assms(1) m3 mode_ok_valid [OF assms(1), THEN conjunct2]]
  have "k' = k3"
    using assms(2) Ok m1 q m3 k1(1,3) k3(1) by (auto simp: Drive_information_def split: if_splits)
  with k3 show ?thesis by simp
qed (use assms(2) in \<open>simp_all add: Drive_information_def\<close>)

lemma partition_item_mode:
  assumes "mode_ok api mode valid" "partition_item da api drive k = (r, k')"
  shows "mode k' = mode k"
proof -
  obtain r1 k1 where i: "Drive_information da api drive k = (r1, k1)" by fastforce
  obtain r2 v k2 where n: "GetVolumeName api drive k1 = ((r2, v), k2)" by (metis prod.exhaust)
  have "mode k1 = mode k" by (rule Drive_information_mode [OF assms(1) i])
  moreover have "mode k2 = mode k1" using assms(1) n unfolding mode_ok_def by blast
  ultimately show ?thesis
    using assms(2) i n
    by (auto simp: partition_item_def Drive_volume_name_def split: outcome.splits option.splits)
qed

lemma partitions_drain_mode:
  fixes mode :: "'k \<Rightarrow> u32"
  assumes "mode_ok api mode valid" "partitions_drain da api d k items = Some s"
  shows "mode (snd s) = mode k"
proof -
  let ?P = "\<lambda>(da' :: bool) (api' :: 'k disk_api) (d :: drives) (k :: 'k)
      (items :: (win_partition, heim_error) outcome list)
      (s :: ((win_partition, heim_error) outcome list, heim_error) outcome \<times> 'k).
      api' = api \<longrightarrow> mode (snd s) = mode k"
  have "?P da api d k items s"
  proof (rule partitions_drain.raw_induct [OF _ assms(2), where P = ?P])
    fix rec :: "bool \<Rightarrow> 'k disk_api \<Rightarrow> drives \<Rightarrow> 'k \<Rightarrow> (win_partition, heim_error) outcome list
      \<Rightarrow> (((win_partition, heim_error) outcome list, heim_error) outcome \<times> 'k) option"
      and da' api' d k items s
    assume IH: "\<And>da' api' d k items s. rec da' api' d k items = Some s \<Longrightarrow> ?P da' api' d k items s"
      and eq: "(case Drives_next da' d of
        (Ok None, d') \<Rightarrow> Some (Ok items, k)
      | (Ok (Some drive), d') \<Rightarrow>
          (case partition_item da' api' drive k of
             (Ok None, k') \<Rightarrow> rec da' api' d' k' items
           | (Ok (Some p), k') \<Rightarrow> rec da' api' d' k' (items @ [Ok p])
           | (Err e, k') \<Rightarrow> rec da' api' d' k' (items @ [Err e])
           | (Panic, k') \<Rightarrow> Some (Panic, k'))
      | (Err e, d') \<Rightarrow> Some (Err e, k)
      | (Panic, d') \<Rightarrow> Some (Panic, k)) = Some s"
    show "?P da' api' d k items s"
      using eq IH partition_item_mode [OF assms(1)]
      by (auto split: prod.splits outcome.splits option.splits)
  qed
  then show ?thesis by simp
qed

text \<open>
  (C22) Asking the Windows drives for their partitions leaves the error mode of the thread as it was, on every
  path that returns, errors and panics included.
\<close>

theorem windows_partitions_mode:
  assumes "mode_ok api mode valid" "windows_partitions oc da api k = Some (r, k')"
  shows "mode k' = mode k"
proof -
  obtain r1 k1 where n: "Drives_new oc da api k = (r1, k1)" by fastforce
  obtain sz ka where a: "logical_drives_size api k = (sz, ka)" by fastforce
  obtain x kb where b: "logical_drives api sz ka = (x, kb)" by fastforce
  have "mode ka = mode k" "mode kb = mode ka" using assms(1) a b unfolding mode_ok_def by blast+
  then have "mode k1 = mode k" using n a b by (auto simp: Drives_new_def split: if_splits prod.splits)
  with assms(2) n partitions_drain_mode [OF assms(1)] show ?thesis
    by (auto simp: windows_partitions_def split: outcome.splits)
qed

section \<open>The handles of volumes and searches\<close>

text \<open>
  What is relied on: the calls that open a file or start a search give a handle that was not open, an open
  handle can be closed, and no call touches other handles.
\<close>

definition volumes_ok :: "'k disk_api \<Rightarrow> ('k \<Rightarrow> u64 set) \<Rightarrow> ('k \<Rightarrow> u64 set) \<Rightarrow> bool" where
  "volumes_ok api opened searches \<longleftrightarrow>
     (\<forall>buf k h b k'. FindFirstVolumeW api buf k = ((h, b), k') \<longrightarrow> opened k' = opened k \<and>
        (if h = INVALID_HANDLE_VALUE api then searches k' = searches k
         else h \<notin> searches k \<and> searches k' = insert h (searches k))) \<and>
     (\<forall>h buf k r b k'. FindNextVolumeW api h buf k = ((r, b), k') \<longrightarrow> opened k' = opened k \<and> searches k' = searches k) \<and>
     (\<forall>h k. h \<in> searches k \<longrightarrow> (\<exists>r k'. FindVolumeClose api h k = (r, k') \<and> r \<noteq> 0 \<and>
        opened k' = opened k \<and> searches k' = searches k - {h})) \<and>
     (\<forall>path k h k'. CreateFileW api path k = (h, k') \<longrightarrow> searches k' = searches k \<and>
        (if h = INVALID_HANDLE_VALUE api then opened k' = opened k
         else h \<notin> opened k \<and> opened k' = insert h (opened k))) \<and>
     (\<forall>h k r k'. DeviceIoControl api h k = (r, k') \<longrightarrow> opened k' = opened k \<and> searches k' = searches k) \<and>
     (\<forall>h k. h \<in> opened k \<longrightarrow> (\<exists>r k'. CloseHandle api h k = (r, k') \<and> r \<noteq> 0 \<and>
        opened k' = opened k - {h} \<and> searches k' = searches k))"

lemma volumes_okD:
  assumes "volumes_ok api opened searches"
  shows "FindFirstVolumeW api buf k = ((h, b), k') \<Longrightarrow> opened k' = opened k \<and>
      (if h = INVALID_HANDLE_VALUE api then searches k' = searches k
       else h \<notin> searches k \<and> searches k' = insert h (searches k))"
    and "FindNextVolumeW api h buf k = ((i, b), k') \<Longrightarrow> opened k' = opened k \<and> searches k' = searches k"
    and "h \<in> searches k \<Longrightarrow> \<exists>r k'. FindVolumeClose api h k = (r, k') \<and> r \<noteq> 0 \<and>
      opened k' = opened k \<and> searches k' = searches k - {h}"
    and "CreateFileW api path k = (h, k') \<Longrightarrow> searches k' = searches k \<and>
      (if h = INVALID_HANDLE_VALUE api then opened k' = opened k
       else h \<notin> opened k \<and> opened k' = insert h (opened k))"
    and "DeviceIoControl api h k = (p, k') \<Longrightarrow> opened k' = opened k \<and> searches k' = searches k"
    and "h \<in> opened k \<Longrightarrow> \<exists>r k'. CloseHandle api h k = (r, k') \<and> r \<noteq> 0 \<and>
      opened k' = opened k - {h} \<and> searches k' = searches k"
  using assms unfolding volumes_ok_def by (elim conjE, metis)+

text \<open>
  Searches that come to an end: a step of a search that finds a volume, or fails with another error than the
  one for the end, makes \<open>left\<close> smaller, and no other call makes it larger.
\<close>

definition searches_end :: "'k disk_api \<Rightarrow> ('k \<Rightarrow> nat) \<Rightarrow> bool" where
  "searches_end api left \<longleftrightarrow>
     (\<forall>h buf k r b k'. FindNextVolumeW api h buf k = ((r, b), k') \<longrightarrow>
        r \<noteq> 0 \<or> GetLastError api k' \<noteq> ERROR_NO_MORE_FILES api \<longrightarrow> left k' < left k) \<and>
     (\<forall>path k h k'. CreateFileW api path k = (h, k') \<longrightarrow> left k' \<le> left k) \<and>
     (\<forall>h k r k'. DeviceIoControl api h k = (r, k') \<longrightarrow> left k' \<le> left k) \<and>
     (\<forall>h k r k'. CloseHandle api h k = (r, k') \<longrightarrow> left k' \<le> left k)"

lemma disk_performance_of_balanced:
  assumes "volumes_ok api opened searches" "disk_performance_of api path k = (r, k')"
  shows "opened k' = opened k \<and> searches k' = searches k"
proof -
  note ok = volumes_okD [OF assms(1)]
  obtain h k1 where c: "CreateFileW api (butlast path @ [0]) k = (h, k1)" by fastforce
  note k1 = ok(4) [OF c]
  show ?thesis
  proof (cases "h = INVALID_HANDLE_VALUE api")
    case True
    with assms(2) c k1 show ?thesis by (auto simp: disk_performance_of_def)
  next
    case False
    obtain p k2 where d: "DeviceIoControl api h k1 = (p, k2)" by fastforce
    note k2 = ok(5) [OF d]
    from False k1 k2 have "h \<in> opened k2" by simp
    from ok(6) [OF this] obtain r3 k3 where cl: "CloseHandle api h k2 = (r3, k3)" "opened k3 = opened k2 - {h}"
      "searches k3 = searches k2" by blast
    from assms(2) c d cl(1) False have "k' = k3" by (auto simp: disk_performance_of_def split: prod.splits)
    with cl k1 k2 False show ?thesis by auto
  qed
qed

lemma volume_item_balanced:
  assumes "volumes_ok api opened searches" "volume_item h api keep v k = (r, k')"
  shows "opened k' = opened k \<and> searches k' = searches k"
  using assms(2) disk_performance_of_balanced [OF assms(1)]
  by (auto simp: volume_item_def split: outcome.splits bool.splits prod.splits option.splits)

lemma volume_item_left:
  assumes "searches_end api left" "volume_item h api keep v k = (r, k')"
  shows "left k' \<le> left k"
proof -
  have "left k' \<le> left k" if "disk_performance_of api path k = (r, k')" for path r k'
  proof -
    obtain h k1 where c: "CreateFileW api (butlast path @ [0]) k = (h, k1)" by fastforce
    obtain p k2 where d: "DeviceIoControl api h k1 = (p, k2)" by fastforce
    obtain q k3 where e: "CloseHandle api h k2 = (q, k3)" by fastforce
    have "left k1 \<le> left k" "left k2 \<le> left k1" "left k3 \<le> left k2"
      using assms(1) c d e unfolding searches_end_def by blast+
    moreover have "k' = k1 \<or> k' = k3" using that c d e by (auto simp: disk_performance_of_def split: if_splits prod.splits)
    ultimately show ?thesis by auto
  qed
  with assms(2) show ?thesis
    by (auto simp: volume_item_def split: outcome.splits bool.splits prod.splits option.splits)
qed

text \<open>The search an iterator holds; the searches beside it do not change.\<close>

definition held :: "volumes \<Rightarrow> u64 set" where
  "held v = set_option (vo_handle v)"

lemma Volumes_next_held:
  assumes "volumes_ok api opened searches" "held v \<subseteq> searches k" "Volumes_next api v k = (t, v', k')"
  shows "opened k' = opened k \<and> held v' \<subseteq> searches k' \<and> searches k' - held v' = searches k - held v"
proof (cases "vo_handle v")
  case None
  obtain h b k1 where f: "FindFirstVolumeW api (vo_buffer v) k = ((h, b), k1)" by (metis prod.exhaust)
  from None f assms(3) volumes_okD(1) [OF assms(1) f] show ?thesis
    by (auto simp: Volumes_next_def find_first_volume_def held_def Let_def split: if_splits)
next
  case (Some sh)
  obtain i b k1 where f: "FindNextVolumeW api sh (vo_buffer v) k = ((i, b), k1)" by (metis prod.exhaust)
  from Some f assms(2,3) volumes_okD(2) [OF assms(1) f] show ?thesis
    by (auto simp: Volumes_next_def find_next_volume_def held_def Let_def split: if_splits)
qed

lemma Volumes_drop_held:
  assumes "volumes_ok api opened searches" "held v \<subseteq> searches k"
  shows "\<exists>k'. Volumes_drop api v (r, k) = (r, k') \<and> opened k' = opened k \<and> searches k' = searches k - held v"
proof (cases "vo_handle v")
  case (Some sh)
  with assms(2) volumes_okD(3) [OF assms(1), of sh k] show ?thesis
    by (auto simp: Volumes_drop_def held_def)
qed (simp add: Volumes_drop_def held_def)

lemma inner_stream_closes:
  fixes api :: "'k disk_api" and h :: "'h host_scheme"
  assumes "volumes_ok api opened searches" "held v \<subseteq> searches k" "inner_stream h api keep v k items = Some s"
  shows "opened (snd s) = opened k \<and> searches (snd s) = searches k - held v"
proof -
  let ?P = "\<lambda>(h :: 'h host_scheme) (api' :: 'k disk_api) (keep :: wide \<Rightarrow> (bool, heim_error) outcome) (v :: volumes)
      (k :: 'k) (items :: (win_disk_counters, heim_error) outcome list)
      (s :: ((win_disk_counters, heim_error) outcome list, heim_error) outcome \<times> 'k).
      api' = api \<longrightarrow> held v \<subseteq> searches k \<longrightarrow> opened (snd s) = opened k \<and> searches (snd s) = searches k - held v"
  have "?P h api keep v k items s"
  proof (rule inner_stream.raw_induct [OF _ assms(3), where P = ?P])
    fix rec :: "'h host_scheme \<Rightarrow> 'k disk_api \<Rightarrow> (wide \<Rightarrow> (bool, heim_error) outcome) \<Rightarrow> volumes \<Rightarrow> 'k
      \<Rightarrow> (win_disk_counters, heim_error) outcome list
      \<Rightarrow> (((win_disk_counters, heim_error) outcome list, heim_error) outcome \<times> 'k) option"
      and h api' keep v k items s
    assume IH: "\<And>h api' keep v k items s. rec h api' keep v k items = Some s \<Longrightarrow> ?P h api' keep v k items s"
      and eq: "(case Volumes_next api' v k of
        (None, v', k1) \<Rightarrow> Some (Volumes_drop api' v' (Ok items, k1))
      | (Some try_volume, v', k1) \<Rightarrow>
          (case volume_item h api' keep try_volume k1 of
             (Ok None, k2) \<Rightarrow> rec h api' keep v' k2 items
           | (Ok (Some c), k2) \<Rightarrow> rec h api' keep v' k2 (items @ [Ok c])
           | (Err e, k2) \<Rightarrow> rec h api' keep v' k2 (items @ [Err e])
           | (Panic, k2) \<Rightarrow> Some (Volumes_drop api' v' (Panic, k2)))) = Some s"
    show "?P h api' keep v k items s"
    proof (intro impI)
      assume api: "api' = api" and held: "held v \<subseteq> searches k"
      obtain t v' k1 where n: "Volumes_next api v k = (t, v', k1)" by (metis prod.exhaust)
      note k1 = Volumes_next_held [OF assms(1) held n]
      show "opened (snd s) = opened k \<and> searches (snd s) = searches k - held v"
      proof (cases t)
        case None
        with eq n api have "s = Volumes_drop api v' (Ok items, k1)" by simp
        then obtain k3 where "s = (Ok items, k3)" "opened k3 = opened k1"
          "searches k3 = searches k1 - held v'"
          using Volumes_drop_held [OF assms(1), of v' k1 "Ok items"] k1 by auto
        with k1 show ?thesis by simp
      next
        case (Some x)
        obtain r k2 where item: "volume_item h api keep x k1 = (r, k2)" by fastforce
        note k2 = volume_item_balanced [OF assms(1) item]
        show ?thesis
        proof (cases "r = Panic")
          case True
          with eq n api Some item have "s = Volumes_drop api v' (Panic, k2)" by simp
          then obtain k3 where "s = (Panic, k3)" "opened k3 = opened k2"
            "searches k3 = searches k2 - held v'"
            using Volumes_drop_held [OF assms(1), of v' k2 "Panic"] k1 k2 by auto
          with k1 k2 show ?thesis by simp
        next
          case False
          with eq n api Some item obtain ys where "rec h api keep v' k2 ys = Some s"
            by (auto split: outcome.splits option.splits)
          from IH [OF this] k1 k2 show ?thesis by auto
        qed
      qed
    qed
  qed
  with assms(2) show ?thesis by simp
qed

lemma inner_stream_ends:
  assumes "searches_end api left" "vo_handle v = Some sh"
  shows "\<exists>s. inner_stream h api keep v k items = Some s"
  using assms(2)
proof (induction "left k" arbitrary: v k items rule: less_induct)
  case less
  obtain i b k1 where n: "FindNextVolumeW api sh (vo_buffer v) k = ((i, b), k1)" by (metis prod.exhaust)
  have less_k1: "i \<noteq> 0 \<or> GetLastError api k1 \<noteq> ERROR_NO_MORE_FILES api \<Longrightarrow> left k1 < left k"
    using assms(1) n unfolding searches_end_def by blast
  let ?v = "v\<lparr>vo_buffer := b\<rparr>"
  show ?case
  proof (cases "i = 0 \<and> GetLastError api k1 = ERROR_NO_MORE_FILES api")
    case True
    with n less.prems have "Volumes_next api v k = (None, ?v, k1)"
      by (simp add: Volumes_next_def find_next_volume_def Let_def)
    then show ?thesis by (subst inner_stream.simps) simp
  next
    case False
    with n less.prems have x: "Volumes_next api v k =
        (Some (if i \<noteq> 0 then Ok (until_null b) else Err (last_disk_error api k1)), ?v, k1)"
      by (simp add: Volumes_next_def find_next_volume_def Let_def)
    let ?x = "if i \<noteq> 0 then Ok (until_null b) else Err (last_disk_error api k1)"
    obtain r k2 where item: "volume_item h api keep ?x k1 = (r, k2)" by fastforce
    have "left k2 < left k" using volume_item_left [OF assms(1) item] less_k1 False by linarith
    then have "\<exists>s. inner_stream h api keep ?v k2 ys = Some s" for ys
      using less.hyps [of k2 ?v ys] less.prems by simp
    with x item show ?thesis by (subst inner_stream.simps) (auto split: outcome.splits option.splits)
  qed
qed

text \<open>
  What the first \<open>n\<close> steps of the iterator below the stream give, with the iterator and the state
  afterwards. A stream that ends has the items of some number of steps.
\<close>

fun inner_seen ::
    "nat \<Rightarrow> 'h host_scheme \<Rightarrow> 'k disk_api \<Rightarrow> (wide \<Rightarrow> (bool, heim_error) outcome) \<Rightarrow> volumes \<Rightarrow> 'k
      \<Rightarrow> (win_disk_counters, heim_error) outcome list \<times> volumes \<times> 'k" where
  "inner_seen 0 h api keep v k = ([], v, k)"
| "inner_seen (Suc n) h api keep v k =
     (case Volumes_next api v k of
        (None, v', k1) \<Rightarrow> ([], v', k1)
      | (Some try_volume, v', k1) \<Rightarrow>
          (case volume_item h api keep try_volume k1 of
             (Ok None, k2) \<Rightarrow> inner_seen n h api keep v' k2
           | (Ok (Some c), k2) \<Rightarrow> map_prod ((#) (Ok c)) id (inner_seen n h api keep v' k2)
           | (Err e, k2) \<Rightarrow> map_prod ((#) (Err e)) id (inner_seen n h api keep v' k2)
           | (Panic, k2) \<Rightarrow> ([Panic], v', k2)))"

lemma inner_stream_seen:
  fixes api :: "'k disk_api" and h :: "'h host_scheme"
  assumes "inner_stream h api keep v k items = Some (r, k')" "r \<noteq> Panic"
  shows "\<exists>n xs v' k1. inner_seen n h api keep v k = (xs, v', k1) \<and> r = Ok (items @ xs)"
proof -
  let ?P = "\<lambda>(h :: 'h host_scheme) (api :: 'k disk_api) (keep :: wide \<Rightarrow> (bool, heim_error) outcome) (v :: volumes)
      (k :: 'k) (items :: (win_disk_counters, heim_error) outcome list)
      (s :: ((win_disk_counters, heim_error) outcome list, heim_error) outcome \<times> 'k).
      fst s \<noteq> Panic \<longrightarrow> (\<exists>n xs v' k1. inner_seen n h api keep v k = (xs, v', k1) \<and> fst s = Ok (items @ xs))"
  have "?P h api keep v k items (r, k')"
  proof (rule inner_stream.raw_induct [OF _ assms(1), where P = ?P])
    fix rec :: "'h host_scheme \<Rightarrow> 'k disk_api \<Rightarrow> (wide \<Rightarrow> (bool, heim_error) outcome) \<Rightarrow> volumes \<Rightarrow> 'k
      \<Rightarrow> (win_disk_counters, heim_error) outcome list
      \<Rightarrow> (((win_disk_counters, heim_error) outcome list, heim_error) outcome \<times> 'k) option"
      and h api keep v k items s
    assume IH: "\<And>h api keep v k items s. rec h api keep v k items = Some s \<Longrightarrow> ?P h api keep v k items s"
      and eq: "(case Volumes_next api v k of
        (None, v', k1) \<Rightarrow> Some (Volumes_drop api v' (Ok items, k1))
      | (Some try_volume, v', k1) \<Rightarrow>
          (case volume_item h api keep try_volume k1 of
             (Ok None, k2) \<Rightarrow> rec h api keep v' k2 items
           | (Ok (Some c), k2) \<Rightarrow> rec h api keep v' k2 (items @ [Ok c])
           | (Err e, k2) \<Rightarrow> rec h api keep v' k2 (items @ [Err e])
           | (Panic, k2) \<Rightarrow> Some (Volumes_drop api v' (Panic, k2)))) = Some s"
    show "?P h api keep v k items s"
    proof
      assume ok: "fst s \<noteq> Panic"
      have drop: "fst (Volumes_drop api v' (q, k1)) = q \<or> fst (Volumes_drop api v' (q, k1)) = Panic"
        for v' k1 and q :: "((win_disk_counters, heim_error) outcome list, heim_error) outcome"
        by (auto simp: Volumes_drop_def split: option.splits prod.splits)
      obtain t v' k1 where n: "Volumes_next api v k = (t, v', k1)" by (metis prod.exhaust)
      show "\<exists>n xs v' k1. inner_seen n h api keep v k = (xs, v', k1) \<and> fst s = Ok (items @ xs)"
      proof (cases t)
        case None
        with n eq ok drop [of v' "Ok items" k1] have "inner_seen 1 h api keep v k = ([], v', k1)" "fst s = Ok items" by auto
        then show ?thesis by fastforce
      next
        case (Some x)
        obtain q k2 where item: "volume_item h api keep x k1 = (q, k2)" by fastforce
        show ?thesis
        proof (cases q)
          case (Ok c)
          show ?thesis
          proof (cases c)
            case None
            with n Some item Ok eq have "rec h api keep v' k2 items = Some s" by simp
            from IH [OF this] ok obtain m xs v2 k3 where "inner_seen m h api keep v' k2 = (xs, v2, k3)"
              "fst s = Ok (items @ xs)" by blast
            with n Some item Ok None have "inner_seen (Suc m) h api keep v k = (xs, v2, k3) \<and> fst s = Ok (items @ xs)" by simp
            then show ?thesis by blast
          next
            case c: (Some y)
            with n Some item Ok eq have "rec h api keep v' k2 (items @ [Ok y]) = Some s" by simp
            from IH [OF this] ok obtain m xs v2 k3 where "inner_seen m h api keep v' k2 = (xs, v2, k3)"
              "fst s = Ok ((items @ [Ok y]) @ xs)" by blast
            with n Some item Ok c have "inner_seen (Suc m) h api keep v k = (Ok y # xs, v2, k3) \<and>
                fst s = Ok (items @ Ok y # xs)" by simp
            then show ?thesis by blast
          qed
        next
          case (Err e)
          with n Some item eq have "rec h api keep v' k2 (items @ [Err e]) = Some s" by simp
          from IH [OF this] ok obtain m xs v2 k3 where "inner_seen m h api keep v' k2 = (xs, v2, k3)"
            "fst s = Ok ((items @ [Err e]) @ xs)" by blast
          with n Some item Err have "inner_seen (Suc m) h api keep v k = (Err e # xs, v2, k3) \<and>
              fst s = Ok (items @ Err e # xs)" by simp
          then show ?thesis by blast
        next
          case Panic
          with n Some item eq ok drop [of v' Panic k2] show ?thesis by auto
        qed
      qed
    qed
  qed
  with assms(2) show ?thesis by simp
qed

text \<open>
  Iterators that fail at every step, as \<open>Q\<close> says: the stream gives an error at each of them and never ends.
\<close>

lemma failing_stream:
  fixes api :: "'k disk_api" and h :: "'h host_scheme"
  assumes fails: "\<And>v k. Q v k \<Longrightarrow> \<exists>v' k1. Volumes_next api v k = (Some (Err (last_disk_error api k1)), v', k1) \<and> Q v' k1"
    and "Q v k"
  shows "\<exists>xs v' k'. inner_seen n h api keep v k = (xs, v', k') \<and> Q v' k' \<and> length xs = n \<and>
      (\<forall>x\<in>set xs. \<exists>k1. x = Err (last_disk_error api k1))"
    and "inner_stream h api keep v k items = None"
proof -
  show "\<exists>xs v' k'. inner_seen n h api keep v k = (xs, v', k') \<and> Q v' k' \<and> length xs = n \<and>
      (\<forall>x\<in>set xs. \<exists>k1. x = Err (last_disk_error api k1))"
    using assms(2)
  proof (induction n arbitrary: v k)
    case (Suc n)
    from fails [OF Suc.prems] obtain v' k1 where
      n: "Volumes_next api v k = (Some (Err (last_disk_error api k1)), v', k1)" "Q v' k1" by blast
    from Suc.IH [OF n(2)] n(1) show ?case by (force simp: volume_item_def)
  qed simp
  let ?P = "\<lambda>(h :: 'h host_scheme) (api' :: 'k disk_api) (keep :: wide \<Rightarrow> (bool, heim_error) outcome) (v :: volumes)
      (k :: 'k) (items :: (win_disk_counters, heim_error) outcome list)
      (s :: ((win_disk_counters, heim_error) outcome list, heim_error) outcome \<times> 'k).
      api' = api \<longrightarrow> \<not> Q v k"
  have "?P h api keep v k items s" if "inner_stream h api keep v k items = Some s" for s
  proof (rule inner_stream.raw_induct [OF _ that, where P = ?P])
    fix rec :: "'h host_scheme \<Rightarrow> 'k disk_api \<Rightarrow> (wide \<Rightarrow> (bool, heim_error) outcome) \<Rightarrow> volumes \<Rightarrow> 'k
      \<Rightarrow> (win_disk_counters, heim_error) outcome list
      \<Rightarrow> (((win_disk_counters, heim_error) outcome list, heim_error) outcome \<times> 'k) option"
      and h api' keep v k items s
    assume IH: "\<And>h api' keep v k items s. rec h api' keep v k items = Some s \<Longrightarrow> ?P h api' keep v k items s"
      and eq: "(case Volumes_next api' v k of
        (None, v', k1) \<Rightarrow> Some (Volumes_drop api' v' (Ok items, k1))
      | (Some try_volume, v', k1) \<Rightarrow>
          (case volume_item h api' keep try_volume k1 of
             (Ok None, k2) \<Rightarrow> rec h api' keep v' k2 items
           | (Ok (Some c), k2) \<Rightarrow> rec h api' keep v' k2 (items @ [Ok c])
           | (Err e, k2) \<Rightarrow> rec h api' keep v' k2 (items @ [Err e])
           | (Panic, k2) \<Rightarrow> Some (Volumes_drop api' v' (Panic, k2)))) = Some s"
    show "?P h api' keep v k items s"
    proof (intro impI notI)
      assume "api' = api" "Q v k"
      with fails obtain v' k1 where
        n: "Volumes_next api v k = (Some (Err (last_disk_error api k1)), v', k1)" "Q v' k1" by blast
      with eq \<open>api' = api\<close> have "rec h api keep v' k1 (items @ [Err (last_disk_error api k1)]) = Some s"
        by (simp add: volume_item_def)
      from IH [OF this] n(2) show False by simp
    qed
  qed
  with assms(2) show "inner_stream h api keep v k items = None"
    by (cases "inner_stream h api keep v k items") auto
qed

lemma counters_after_first:
  assumes "FindFirstVolumeW api (replicate MAX_PATH 0) k = ((sh, b), k0)" "sh \<noteq> INVALID_HANDLE_VALUE api"
  shows "Volumes_next api Volumes_new k = (Some (Ok (until_null b)), \<lparr>vo_handle = Some sh, vo_buffer = b\<rparr>, k0)"
  using assms by (simp add: Volumes_next_def Volumes_new_def find_first_volume_def Let_def)

lemma inner_stream_returns:
  assumes "searches_end api left"
    and "FindFirstVolumeW api (replicate MAX_PATH 0) k = ((sh, b), k0)" "sh \<noteq> INVALID_HANDLE_VALUE api"
  shows "\<exists>s. inner_stream h api keep Volumes_new k items = Some s"
proof -
  let ?v = "\<lparr>vo_handle = Some sh, vo_buffer = b\<rparr> :: volumes"
  have "\<exists>s. inner_stream h api keep ?v k2 ys = Some s" for k2 ys
    by (rule inner_stream_ends [OF assms(1)]) simp
  then show ?thesis
    by (subst inner_stream.simps)
       (auto simp: counters_after_first [OF assms(2,3)] split: prod.splits outcome.splits option.splits)
qed

lemma disk_performance_of_no_panic: "fst (disk_performance_of api path k) \<noteq> Panic"
  by (simp add: disk_performance_of_def split: prod.splits)

lemma failing_search:
  fixes api :: "'k disk_api"
  assumes "volumes_ok api opened searches"
    and "FindFirstVolumeW api (replicate MAX_PATH 0) k = ((sh, b), k0)" "sh \<noteq> INVALID_HANDLE_VALUE api"
    and next_fails: "\<And>buf k. fst (fst (FindNextVolumeW api sh buf k)) = 0 \<and>
      GetLastError api (snd (FindNextVolumeW api sh buf k)) \<noteq> ERROR_NO_MORE_FILES api"
  shows "windows_disk_io_counters h api k = None"
    and "\<exists>xs v k'. inner_seen (Suc n) h api (\<lambda>path. Ok True) Volumes_new k = (xs, v, k') \<and> n \<le> length xs \<and>
      sh \<in> searches k'"
proof -
  let ?v = "\<lparr>vo_handle = Some sh, vo_buffer = b\<rparr> :: volumes" and ?keep = "\<lambda>path :: wide. Ok True :: (bool, heim_error) outcome"
  let ?Q = "\<lambda>v k. vo_handle v = Some sh \<and> sh \<in> searches k"
  have fails: "\<exists>v' k1. Volumes_next api v k = (Some (Err (last_disk_error api k1)), v', k1) \<and> ?Q v' k1" if "?Q v k" for v k
  proof -
    obtain i b' k1 where f: "FindNextVolumeW api sh (vo_buffer v) k = ((i, b'), k1)" by (metis prod.exhaust)
    with next_fails [of "vo_buffer v" k] volumes_okD(2) [OF assms(1) f] that show ?thesis
      by (simp add: Volumes_next_def find_next_volume_def Let_def)
  qed
  obtain r k2 where item: "volume_item h api ?keep (Ok (until_null b)) k0 = (r, k2)" by fastforce
  then have r: "r \<noteq> Panic"
    using disk_performance_of_no_panic [of api "until_null b" k0]
    by (auto simp: volume_item_def split: prod.splits outcome.splits option.splits)
  have "sh \<in> searches k2"
    using volume_item_balanced [OF assms(1) item] volumes_okD(1) [OF assms(1,2)] assms(3) by simp
  then have Q: "?Q ?v k2" by simp
  note failing = failing_stream [of ?Q api ?v k2, OF fails Q]
  show "windows_disk_io_counters h api k = None"
    unfolding windows_disk_io_counters_def using r failing(2)
    by (subst inner_stream.simps) (auto simp: counters_after_first [OF assms(2,3)] item split: outcome.splits option.splits)
  from failing(1) [where n = n and h = h and keep = ?keep] obtain xs v' k' where "inner_seen n h api ?keep ?v k2 = (xs, v', k')" "?Q v' k'" "length xs = n"
    by blast
  with r show "\<exists>xs v k'. inner_seen (Suc n) h api ?keep Volumes_new k = (xs, v, k') \<and> n \<le> length xs \<and> sh \<in> searches k'"
    by (cases r) (auto simp: counters_after_first [OF assms(2,3)] item split: option.splits)
qed

text \<open>
  (C21) The counters of the Windows volumes: whenever the stream ends, with items, errors or a panic, every
  file handle and every search is closed that was opened for it. If a search was started, the stream does end when
  the search does, that is, when stepping on reports the end after finitely many volumes and other
  errors; when stepping on always fails with another error it never ends, gives an item for
  every failure, and the search stays open.
\<close>

theorem windows_disk_io_counters_balanced:
  assumes "volumes_ok api opened searches"
  shows "(\<forall>r k'. windows_disk_io_counters h api k = Some (r, k') \<longrightarrow> opened k' = opened k \<and> searches k' = searches k) \<and>
    (\<forall>r k'. windows_disk_io_counters_physical h da api k = Some (r, k') \<longrightarrow>
      opened k' = opened k \<and> searches k' = searches k) \<and>
    (\<forall>sh b k0. FindFirstVolumeW api (replicate MAX_PATH 0) k = ((sh, b), k0) \<and> sh \<noteq> INVALID_HANDLE_VALUE api \<longrightarrow>
      ((\<exists>left. searches_end api left) \<longrightarrow>
        windows_disk_io_counters h api k \<noteq> None \<and> windows_disk_io_counters_physical h da api k \<noteq> None) \<and>
      ((\<forall>buf k. fst (fst (FindNextVolumeW api sh buf k)) = 0 \<and>
          GetLastError api (snd (FindNextVolumeW api sh buf k)) \<noteq> ERROR_NO_MORE_FILES api) \<longrightarrow>
        windows_disk_io_counters h api k = None \<and>
        (\<forall>n. \<exists>xs v k'. inner_seen (Suc n) h api (\<lambda>path. Ok True) Volumes_new k = (xs, v, k') \<and> n \<le> length xs \<and>
          sh \<in> searches k')))"
proof (intro conjI allI impI; (elim conjE exE)?)
  have new: "held Volumes_new = {}" by (simp add: held_def Volumes_new_def)
  show "opened k' = opened k" "searches k' = searches k" if "windows_disk_io_counters h api k = Some (r, k')" for r k'
    using that inner_stream_closes [OF assms, of Volumes_new k h _ "[]"]
    by (fastforce simp: windows_disk_io_counters_def new)+
  show "opened k' = opened k" "searches k' = searches k" if "windows_disk_io_counters_physical h da api k = Some (r, k')" for r k'
    using that inner_stream_closes [OF assms, of Volumes_new k h _ "[]"]
    by (fastforce simp: windows_disk_io_counters_physical_def new)+
  fix sh b k0
  assume first: "FindFirstVolumeW api (replicate MAX_PATH 0) k = ((sh, b), k0)" "sh \<noteq> INVALID_HANDLE_VALUE api"
  show "windows_disk_io_counters h api k \<noteq> None" "windows_disk_io_counters_physical h da api k \<noteq> None"
    if "searches_end api left" for left
    using inner_stream_returns [OF that first, of h]
    by (simp_all add: windows_disk_io_counters_def windows_disk_io_counters_physical_def)
  assume "\<forall>buf k. fst (fst (FindNextVolumeW api sh buf k)) = 0 \<and>
    GetLastError api (snd (FindNextVolumeW api sh buf k)) \<noteq> ERROR_NO_MORE_FILES api"
  note failing = failing_search [OF assms first this [rule_format], where h = h]
  show "windows_disk_io_counters h api k = None" by (rule failing(1))
  show "\<exists>xs v k'. inner_seen (Suc n) h api (\<lambda>path. Ok True) Volumes_new k = (xs, v, k') \<and> n \<le> length xs \<and>
      sh \<in> searches k'" for n by (rule failing(2))
qed

text \<open>
  (C40) When the search for Windows volumes cannot be started, the iterator tries again at every step: the
  stream of the counters yields the error of the system at every one of its steps, however many they are, and
  reading it to the end never returns.
\<close>

theorem volumes_error_forever:
  assumes "\<And>buf k. fst (fst (FindFirstVolumeW api buf k)) = INVALID_HANDLE_VALUE api"
  shows "(\<forall>n keep. \<exists>xs v k'. inner_seen n h api keep Volumes_new k = (xs, v, k') \<and> length xs = n \<and>
      (\<forall>x\<in>set xs. \<exists>k1. x = Err (last_disk_error api k1))) \<and>
    windows_disk_io_counters h api k = None \<and> windows_disk_io_counters_physical h da api k = None"
proof -
  let ?Q = "\<lambda>v k. vo_handle v = None"
  have fails: "\<exists>v' k1. Volumes_next api v k = (Some (Err (last_disk_error api k1)), v', k1) \<and> ?Q v' k1" if "?Q v k" for v k
  proof -
    obtain b k1 where "FindFirstVolumeW api (vo_buffer v) k = ((INVALID_HANDLE_VALUE api, b), k1)"
      using assms [of "vo_buffer v" k] by (metis prod.collapse)
    with that show ?thesis by (simp add: Volumes_next_def find_first_volume_def Let_def)
  qed
  have "?Q Volumes_new k" by (simp add: Volumes_new_def)
  note failing = failing_stream [of ?Q api Volumes_new k, OF fails this]
  have "\<exists>xs v k'. inner_seen n h api keep Volumes_new k = (xs, v, k') \<and> length xs = n \<and>
      (\<forall>x\<in>set xs. \<exists>k1. x = Err (last_disk_error api k1))" for n keep
    using failing(1) [where n = n and h = h and keep = keep] by blast
  moreover have "inner_stream h api keep Volumes_new k [] = None" for keep
    by (rule failing(2))
  ultimately show ?thesis by (simp add: windows_disk_io_counters_def windows_disk_io_counters_physical_def)
qed

section \<open>Usage\<close>

text \<open>
  The sizes of a Windows disk: the used size is exact when not more is free than there is; otherwise it is
  a panic or wraps around. The ratio of an empty disk is not a number.
\<close>

theorem WinUsage_exact:
  assumes "\<And>n. Information_new h Byte n = n"
  shows "(us_free u \<le> us_total u \<longrightarrow> (\<exists>n. (WinUsage_used h u :: (u64, heim_error) outcome) = Ok n \<and>
      unat n = unat (us_total u) - unat (us_free u))) \<and>
    (us_total u < us_free u \<longrightarrow> (WinUsage_used h u :: (u64, heim_error) outcome) =
      (if overflow_checks h then Panic else Ok (us_total u - us_free u))) \<and>
    ((\<forall>n. Information_get h n = n) \<and> us_total u = 0 \<and> us_free u = 0 \<longrightarrow>
      WinUsage_ratio h u = (Ok (Ratio_new h NaN) :: (fval, heim_error) outcome))"
proof (intro conjI impI)
  show "\<exists>n. (WinUsage_used h u :: (u64, heim_error) outcome) = Ok n \<and>
      unat n = unat (us_total u) - unat (us_free u)" if "us_free u \<le> us_total u"
    using that assms by (simp add: WinUsage_used_def WinUsage_total_def WinUsage_free_def u64_sub_def not_less unat_sub)
  show "(WinUsage_used h u :: (u64, heim_error) outcome) =
      (if overflow_checks h then Panic else Ok (us_total u - us_free u))" if "us_total u < us_free u"
    using that assms by (simp add: WinUsage_used_def WinUsage_total_def WinUsage_free_def u64_sub_def)
  show "WinUsage_ratio h u = (Ok (Ratio_new h NaN) :: (fval, heim_error) outcome)"
    if "(\<forall>n. Information_get h n = n) \<and> us_total u = 0 \<and> us_free u = 0"
    using that assms by (simp add: WinUsage_ratio_def WinUsage_used_def WinUsage_total_def WinUsage_free_def
        u64_sub_def f64_of_u64_def rnd64_def rnd_def)
qed

section \<open>A small system\<close>

text \<open>
  A system with two drives and a list of volumes, whose state is the open handles, the searches, the error
  mode and the volumes that are left; it is the concrete instance of the laws below.
\<close>

record disk_state =
  st_opened :: "u64 list"
  st_searches :: "u64 list"
  st_mode :: u32
  st_left :: "wide list"

definition sample_disk :: "bool \<Rightarrow> disk_state disk_api" where
  "sample_disk search =
     \<lparr>INVALID_HANDLE_VALUE = 0,
      CloseHandle = (\<lambda>h k. (if h \<in> set (st_opened k) then 1 else 0, k\<lparr>st_opened := removeAll h (st_opened k)\<rparr>)),
      GetLastError = (\<lambda>_. 18),
      logical_drives_size = (\<lambda>k. (9, k)),
      logical_drives = (\<lambda>n k. ((8, drive_root 0x43 @ drive_root 0x44 @ [0]), k)),
      GetVolumeName = (\<lambda>drive k. ((1, [0x56, 0]), k)),
      GetDriveTypeW = (\<lambda>_. 3),
      SetThreadErrorMode = (\<lambda>m k. ((1, st_mode k), k\<lparr>st_mode := m\<rparr>)),
      GetVolumeInformationW = (\<lambda>drive k. ((1, 7, [0x4E, 0x54, 0x46, 0x53, 0]), k)),
      FindFirstVolumeW = (\<lambda>buf k.
        (let h = foldr max (st_searches k) 0 + 1 in
         if search \<and> h \<noteq> 0 then ((h, [0x56, 0]), k\<lparr>st_searches := h # st_searches k\<rparr>) else ((0, buf), k))),
      FindNextVolumeW = (\<lambda>h buf k.
        (case st_left k of [] \<Rightarrow> ((0, buf), k) | v # vs \<Rightarrow> ((1, v), k\<lparr>st_left := vs\<rparr>))),
      FindVolumeClose = (\<lambda>h k. (if h \<in> set (st_searches k) then 1 else 0, k\<lparr>st_searches := removeAll h (st_searches k)\<rparr>)),
      CreateFileW = (\<lambda>path k.
        (let h = foldr max (st_opened k) 0 + 1 in
         if h \<noteq> 0 then (h, k\<lparr>st_opened := h # st_opened k\<rparr>) else (0, k))),
      DeviceIoControl = (\<lambda>h k. ((1, \<lparr>BytesRead = 5, BytesWritten = 6, ReadTime = 7, WriteTime = 8,
        ReadCount = 1, WriteCount = 2\<rparr>), k)),
      GetDiskFreeSpaceExW = (\<lambda>path k. ((1, \<lparr>us_total = 9, us_available = 4, us_free = 5\<rparr>), k)),
      SEM_FAILCRITICALERRORS = 1, ERROR_NO_MORE_FILES = 18, ERROR_INVALID_FUNCTION = 1, ERROR_NOT_SUPPORTED = 50,
      Flags_all = 0xFF, DRIVE_CDROM = 5, DRIVE_FIXED = 3, DRIVE_NO_ROOT_DIR = 1, DRIVE_RAMDISK = 6,
      DRIVE_REMOTE = 4, DRIVE_REMOVABLE = 2, DRIVE_UNKNOWN = 0, Time_micro = (\<lambda>t. t)\<rparr>"

definition sample_disk_state :: disk_state where
  "sample_disk_state = \<lparr>st_opened = [], st_searches = [], st_mode = 2, st_left = [[0x57, 0]]\<rparr>"

lemma sample_mode_ok: "mode_ok (sample_disk search) st_mode (\<lambda>_. True)"
  by (auto simp: mode_ok_def sample_disk_def)

lemma sample_volumes_ok:
  "volumes_ok (sample_disk search) (\<lambda>k. set (st_opened k)) (\<lambda>k. set (st_searches k))"
  using foldr_max_fresh
  by (auto simp: volumes_ok_def sample_disk_def Let_def split: if_splits list.splits)

lemma sample_searches_end: "searches_end (sample_disk search) (\<lambda>k. length (st_left k))"
  by (auto simp: searches_end_def sample_disk_def Let_def split: if_splits list.splits)

lemma windows_partitions_two_drives:
  "\<exists>s. windows_partitions True True (sample_disk True) sample_disk_state = Some s"
proof -
  let ?d = "\<lparr>dr_buffer = drive_root 0x43 @ drive_root 0x44 @ [0], dr_position = 0\<rparr>"
  have "Drives_new True True (sample_disk True) sample_disk_state = (Ok ?d, sample_disk_state)"
    by (simp add: Drives_new_def sample_disk_def drive_root_def)
  then show ?thesis
    using partitions_drain_drives [of ?d "[0x43, 0x44]" True "sample_disk True" sample_disk_state "[]"]
    by (simp add: windows_partitions_def)
qed

theorem windows_partitions_drives_witness:
  "windows_partitions True True (sample_disk True) sample_disk_state =
     Some (partitions_of True (sample_disk True) [drive_root 0x43, drive_root 0x44] sample_disk_state [])"
  using windows_partitions_drives [of "sample_disk True" sample_disk_state "[0x43, 0x44]" sample_disk_state "[]"
      sample_disk_state True True]
  by (simp add: sample_disk_def)

theorem windows_partitions_mode_witness:
  "\<exists>r k'. windows_partitions True True (sample_disk True) sample_disk_state = Some (r, k') \<and> st_mode k' = 2"
proof -
  obtain r k' where run: "windows_partitions True True (sample_disk True) sample_disk_state = Some (r, k')"
    using windows_partitions_two_drives by (metis prod.exhaust)
  from windows_partitions_mode [OF sample_mode_ok run] run show ?thesis by (simp add: sample_disk_state_def)
qed

theorem windows_disk_io_counters_balanced_witness:
  "\<exists>r k'. windows_disk_io_counters sample_host (sample_disk True) sample_disk_state = Some (r, k') \<and>
     st_opened k' = [] \<and> st_searches k' = []"
proof -
  have first: "FindFirstVolumeW (sample_disk True) (replicate MAX_PATH 0) sample_disk_state =
      ((1, [0x56, 0]), sample_disk_state\<lparr>st_searches := [1]\<rparr>)" "1 \<noteq> INVALID_HANDLE_VALUE (sample_disk True)"
    by (simp_all add: sample_disk_def sample_disk_state_def)
  note balanced = windows_disk_io_counters_balanced [OF sample_volumes_ok [of True], of sample_host sample_disk_state]
  from balanced first sample_searches_end have "windows_disk_io_counters sample_host (sample_disk True) sample_disk_state \<noteq> None"
    by blast
  then obtain r k' where run: "windows_disk_io_counters sample_host (sample_disk True) sample_disk_state = Some (r, k')"
    by auto
  with balanced have "set (st_opened k') = set (st_opened sample_disk_state)"
    "set (st_searches k') = set (st_searches sample_disk_state)" by blast+
  with run show ?thesis by (simp add: sample_disk_state_def)
qed

theorem volumes_error_forever_witness:
  "windows_disk_io_counters sample_host (sample_disk False) sample_disk_state = None \<and>
   (\<exists>xs v k'. inner_seen 7 sample_host (sample_disk False) (\<lambda>path. Ok True) Volumes_new sample_disk_state = (xs, v, k') \<and>
     length xs = 7)"
proof -
  have "fst (fst (FindFirstVolumeW (sample_disk False) buf k)) = INVALID_HANDLE_VALUE (sample_disk False)" for buf k
    by (simp add: sample_disk_def Let_def)
  note forever = volumes_error_forever [of "sample_disk False", OF this, where h = sample_host and k = sample_disk_state]
  from forever show ?thesis by blast
qed

theorem WinUsage_exact_witness:
  "\<exists>n. (WinUsage_used sample_host \<lparr>us_total = 9, us_available = 4, us_free = 5\<rparr> :: (u64, heim_error) outcome) = Ok n \<and> unat n = 4"
  using WinUsage_exact [of sample_host "\<lparr>us_total = 9, us_available = 4, us_free = 5\<rparr>"] by (simp add: sample_host_def)

end
