(* ===== verification/Layouts.thy ===== *)
theory Layouts
  imports Net_Macos Windows_Sys Host_Windows
begin

text \<open>
  The structures the crates declare for the calls of macOS and Windows, field by field, and how the records
  of the model are read from memory with these layouts.

  Structures of \<open>libc\<close> are a parameter, \<open>libc_types\<close>; its scalar types and those of \<open>winapi\<close> are given by their widths,
  and pointers have eight bytes. The parts of a record that the code reads are the paths of a \<open>c_struct\<close>,
  which is interpreted for every structure.

  The declarations of the routing messages and of the structures of \<open>libc\<close> stand in \<open>Net_Macos\<close>. The lemmas give the
  sizes, and that every structure is as a \<open>c_struct\<close> has to be; what follows for the code is in \<open>Layouts_Read\<close>.
\<close>

section \<open>Declarations on macOS\<close>

definition vmspace_t :: "ctype" where
  "vmspace_t = Struct
    [(''dummy'', Scalar 4), (''dummy2'', Scalar 8), (''dummy3'', Array 5 (Scalar 4)),
     (''dummy4'', Array 3 (Scalar 8))]"

definition pcred_t :: "ctype" where
  "pcred_t = Struct
    [(''pc_lock'', Array 72 (Scalar 1)), (''pc_ucred'', Scalar 8), (''p_ruid'', Scalar 4),
     (''p_svuid'', Scalar 4), (''p_rgid'', Scalar 4), (''p_svgid'', Scalar 4), (''p_refcnt'', Scalar 4)]"

definition run_sleep_queue_t :: "ctype" where
  "run_sleep_queue_t = Struct
    [(''p_forw'', Scalar 8), (''p_back'', Scalar 8)]"

definition p_un_t :: "libc_types \<Rightarrow> ctype" where
  "p_un_t L = Union
    [(''p_st1'', run_sleep_queue_t), (''p_starttime'', timeval_t L)]"

definition extern_proc_t :: "libc_types \<Rightarrow> ctype" where
  "extern_proc_t L = Struct
    [(''p_un'', p_un_t L), (''p_vmspace'', Scalar 8), (''p_sigacts'', Scalar 8), (''p_flag'', Scalar 4),
     (''p_stat'', Scalar 1), (''p_pid'', Scalar 4), (''p_oppid'', Scalar 4), (''p_dupfd'', Scalar 4),
     (''user_stack'', Scalar 8), (''exit_thread'', Scalar 8), (''p_debugger'', Scalar 4),
     (''sigwait'', Scalar 4), (''p_estcpu'', Scalar 4), (''p_cpticks'', Scalar 4),
     (''p_pctcpu'', Scalar 4), (''p_wchan'', Scalar 8), (''p_wmesg'', Scalar 8), (''p_swtime'', Scalar 4),
     (''p_slptime'', Scalar 4), (''p_realtimer'', itimerval_t L), (''p_rtime'', timeval_t L),
     (''p_uticks'', Scalar 8), (''p_sticks'', Scalar 8), (''p_iticks'', Scalar 8),
     (''p_traceflag'', Scalar 4), (''p_tracep'', Scalar 8), (''p_siglist'', Scalar 4),
     (''p_textvp'', Scalar 8), (''p_holdcnt'', Scalar 4), (''p_sigmask'', Scalar 4),
     (''p_sigignore'', Scalar 4), (''p_sigcatch'', Scalar 4), (''p_priority'', Scalar 1),
     (''p_usrpri'', Scalar 1), (''p_nice'', Scalar 1), (''p_comm'', Array 17 (Scalar 1)),
     (''p_pgrp'', Scalar 8), (''p_addr'', Scalar 8), (''p_xstat'', Scalar 2), (''p_acflag'', Scalar 2),
     (''p_ru'', Scalar 8)]"

definition kinfo_proc_eproc_t :: "libc_types \<Rightarrow> ctype" where
  "kinfo_proc_eproc_t L = Struct
    [(''e_paddr'', Scalar 8), (''e_sess'', Scalar 8), (''e_pcred'', pcred_t), (''e_ucred'', xucred_t L),
     (''e_vm'', vmspace_t), (''e_ppid'', Scalar 4), (''e_pgid'', Scalar 4), (''e_jobc'', Scalar 2),
     (''e_tdev'', Scalar 4), (''e_tpgid'', Scalar 4), (''e_tsess'', Scalar 8),
     (''e_wmesg'', Array 8 (Scalar 1)), (''e_xsize'', Scalar 4), (''e_xrssize'', Scalar 2),
     (''e_xccount'', Scalar 2), (''e_xswrss'', Scalar 2), (''e_flag'', Scalar 4),
     (''e_login'', Array 12 (Scalar 1)), (''e_spare'', Array 4 (Scalar 4))]"

definition kinfo_proc_t :: "libc_types \<Rightarrow> ctype" where
  "kinfo_proc_t L = Struct
    [(''kp_proc'', extern_proc_t L), (''kp_eproc'', kinfo_proc_eproc_t L)]"

definition vm_statistics64_t :: "ctype" where
  "vm_statistics64_t = Struct
    [(''free_count'', Scalar 4), (''active_count'', Scalar 4), (''inactive_count'', Scalar 4),
     (''wire_count'', Scalar 4), (''zero_fill_count'', Scalar 8), (''reactivations'', Scalar 8),
     (''pageins'', Scalar 8), (''pageouts'', Scalar 8), (''faults'', Scalar 8), (''cow_faults'', Scalar 8),
     (''lookups'', Scalar 8), (''hits'', Scalar 8), (''purges'', Scalar 8),
     (''purgeable_count'', Scalar 4), (''speculative_count'', Scalar 4), (''decompressions'', Scalar 8),
     (''compressions'', Scalar 8), (''swapins'', Scalar 8), (''swapouts'', Scalar 8),
     (''compressor_page_count'', Scalar 4), (''throttled_count'', Scalar 4),
     (''external_page_count'', Scalar 4), (''internal_page_count'', Scalar 4),
     (''total_uncompressed_pages_in_compressor'', Scalar 8)]"

definition vmmeter_t :: "ctype" where
  "vmmeter_t = Struct
    [(''v_swtch'', Scalar 4), (''v_trap'', Scalar 4), (''v_syscall'', Scalar 4), (''v_intr'', Scalar 4),
     (''v_soft'', Scalar 4), (''v_faults'', Scalar 4), (''v_lookups'', Scalar 4), (''v_hits'', Scalar 4),
     (''v_vm_faults'', Scalar 4), (''v_cow_faults'', Scalar 4), (''v_swpin'', Scalar 4),
     (''v_swpout'', Scalar 4), (''v_pswpin'', Scalar 4), (''v_pswpout'', Scalar 4),
     (''v_pageins'', Scalar 4), (''v_pageouts'', Scalar 4), (''v_pgpgin'', Scalar 4),
     (''v_pgpgout'', Scalar 4), (''v_intrans'', Scalar 4), (''v_reactivated'', Scalar 4),
     (''v_rev'', Scalar 4), (''v_scan'', Scalar 4), (''v_dfree'', Scalar 4), (''v_pfree'', Scalar 4),
     (''v_zfod'', Scalar 4), (''v_nzfod'', Scalar 4), (''v_page_size'', Scalar 4),
     (''v_kernel_pages'', Scalar 4), (''v_free_target'', Scalar 4), (''v_free_min'', Scalar 4),
     (''v_free_count'', Scalar 4), (''v_wire_count'', Scalar 4), (''v_active_count'', Scalar 4),
     (''v_inactive_target'', Scalar 4), (''v_inactive_count'', Scalar 4)]"

definition host_cpu_load_info_t :: "ctype" where
  "host_cpu_load_info_t = Struct
    [(''user'', Scalar 4), (''system'', Scalar 4), (''idle'', Scalar 4), (''nice'', Scalar 4)]"

section \<open>Declarations on Windows\<close>

definition SYSTEM_PROCESSOR_PERFORMANCE_INFORMATION_t :: "ctype" where
  "SYSTEM_PROCESSOR_PERFORMANCE_INFORMATION_t = Struct
    [(''IdleTime'', Scalar 8), (''KernelTime'', Scalar 8), (''UserTime'', Scalar 8),
     (''DpcTime'', Scalar 8), (''InterruptTime'', Scalar 8), (''InterruptCount'', Scalar 4)]"

definition SYSTEM_PERFORMANCE_INFORMATION_t :: "ctype" where
  "SYSTEM_PERFORMANCE_INFORMATION_t = Struct
    [(''IdleProcessTime'', Scalar 8), (''IoReadTransferCount'', Scalar 8),
     (''IoWriteTransferCount'', Scalar 8), (''IoOtherTransferCount'', Scalar 8),
     (''IoReadOperationCount'', Scalar 4), (''IoWriteOperationCount'', Scalar 4),
     (''IoOtherOperationCount'', Scalar 4), (''AvailablePages'', Scalar 4), (''CommittedPages'', Scalar 4),
     (''CommitLimit'', Scalar 4), (''PeakCommitment'', Scalar 4), (''PageFaultCount'', Scalar 4),
     (''CopyOnWriteCount'', Scalar 4), (''TransitionCount'', Scalar 4),
     (''CacheTransitionCount'', Scalar 4), (''DemandZeroCount'', Scalar 4), (''PageReadCount'', Scalar 4),
     (''PageReadIoCount'', Scalar 4), (''CacheReadCount'', Scalar 4), (''CacheIoCount'', Scalar 4),
     (''DirtyPagesWriteCount'', Scalar 4), (''DirtyWriteIoCount'', Scalar 4),
     (''MappedPagesWriteCount'', Scalar 4), (''MappedWriteIoCount'', Scalar 4),
     (''PagedPoolPages'', Scalar 4), (''NonPagedPoolPages'', Scalar 4), (''PagedPoolAllocs'', Scalar 4),
     (''PagedPoolFrees'', Scalar 4), (''NonPagedPoolAllocs'', Scalar 4), (''NonPagedPoolFrees'', Scalar 4),
     (''FreeSystemPtes'', Scalar 4), (''ResidentSystemCodePage'', Scalar 4),
     (''TotalSystemDriverPages'', Scalar 4), (''TotalSystemCodePages'', Scalar 4),
     (''NonPagedPoolLookasideHits'', Scalar 4), (''PagedPoolLookasideHits'', Scalar 4),
     (''AvailablePagedPoolPages'', Scalar 4), (''ResidentSystemCachePage'', Scalar 4),
     (''ResidentPagedPoolPage'', Scalar 4), (''ResidentSystemDriverPage'', Scalar 4),
     (''CcFastReadNoWait'', Scalar 4), (''CcFastReadWait'', Scalar 4),
     (''CcFastReadResourceMiss'', Scalar 4), (''CcFastReadNotPossible'', Scalar 4),
     (''CcFastMdlReadNoWait'', Scalar 4), (''CcFastMdlReadWait'', Scalar 4),
     (''CcFastMdlReadResourceMiss'', Scalar 4), (''CcFastMdlReadNotPossible'', Scalar 4),
     (''CcMapDataNoWait'', Scalar 4), (''CcMapDataWait'', Scalar 4), (''CcMapDataNoWaitMiss'', Scalar 4),
     (''CcMapDataWaitMiss'', Scalar 4), (''CcPinMappedDataCount'', Scalar 4),
     (''CcPinReadNoWait'', Scalar 4), (''CcPinReadWait'', Scalar 4), (''CcPinReadNoWaitMiss'', Scalar 4),
     (''CcPinReadWaitMiss'', Scalar 4), (''CcCopyReadNoWait'', Scalar 4), (''CcCopyReadWait'', Scalar 4),
     (''CcCopyReadNoWaitMiss'', Scalar 4), (''CcCopyReadWaitMiss'', Scalar 4),
     (''CcMdlReadNoWait'', Scalar 4), (''CcMdlReadWait'', Scalar 4), (''CcMdlReadNoWaitMiss'', Scalar 4),
     (''CcMdlReadWaitMiss'', Scalar 4), (''CcReadAheadIos'', Scalar 4), (''CcLazyWriteIos'', Scalar 4),
     (''CcLazyWritePages'', Scalar 4), (''CcDataFlushes'', Scalar 4), (''CcDataPages'', Scalar 4),
     (''ContextSwitches'', Scalar 4), (''FirstLevelTbFills'', Scalar 4),
     (''SecondLevelTbFills'', Scalar 4), (''SystemCalls'', Scalar 4)]"

definition SYSTEM_INTERRUPT_INFORMATION_t :: "ctype" where
  "SYSTEM_INTERRUPT_INFORMATION_t = Struct
    [(''ContextSwitches'', Scalar 4), (''DpcCount'', Scalar 4), (''DpcRate'', Scalar 4),
     (''TimeIncrement'', Scalar 4), (''DpcBypassCount'', Scalar 4), (''ApcBypassCount'', Scalar 4)]"

definition PROCESSOR_POWER_INFORMATION_t :: "ctype" where
  "PROCESSOR_POWER_INFORMATION_t = Struct
    [(''Number'', Scalar 4), (''MaxMhz'', Scalar 4), (''CurrentMhz'', Scalar 4), (''MhzLimit'', Scalar 4),
     (''MaxIdleState'', Scalar 4), (''CurrentIdleState'', Scalar 4)]"

definition WTS_SESSION_INFOW_t :: "ctype" where
  "WTS_SESSION_INFOW_t = Struct
    [(''SessionId'', Scalar 4), (''pWinStationName'', Scalar 8), (''State'', Scalar 4)]"

definition WTS_PROCESS_INFOW_t :: "ctype" where
  "WTS_PROCESS_INFOW_t = Struct
    [(''SessionId'', Scalar 4), (''ProcessId'', Scalar 4), (''pProcessName'', Scalar 8),
     (''pUserSid'', Scalar 8)]"

definition WTS_CLIENT_ADDRESS_t :: "ctype" where
  "WTS_CLIENT_ADDRESS_t = Struct
    [(''AddressFamily'', Scalar 4), (''Address'', Array 20 (Scalar 1))]"

definition WTSINFOW_t :: "ctype" where
  "WTSINFOW_t = Struct
    [(''State'', Scalar 4), (''SessionId'', Scalar 4), (''IncomingBytes'', Scalar 4),
     (''OutgoingBytes'', Scalar 4), (''IncomingFrames'', Scalar 4), (''OutgoingFrames'', Scalar 4),
     (''IncomingCompressedBytes'', Scalar 4), (''OutgoingCompressedBytes'', Scalar 4),
     (''WinStationName'', Array 32 (Scalar 2)), (''Domain'', Array 17 (Scalar 2)),
     (''UserName'', Array 21 (Scalar 2)), (''ConnectTime'', Scalar 8), (''DisconnectTime'', Scalar 8),
     (''LastInputTime'', Scalar 8), (''LogonTime'', Scalar 8), (''CurrentTime'', Scalar 8)]"

lemmas kinfo_layout_defs = kinfo_proc_t_def extern_proc_t_def kinfo_proc_eproc_t_def p_un_t_def
  run_sleep_queue_t_def pcred_t_def vmspace_t_def

lemmas mach_layout_defs = vm_statistics64_t_def vmmeter_t_def host_cpu_load_info_t_def

lemmas win_layout_defs = SYSTEM_PROCESSOR_PERFORMANCE_INFORMATION_t_def SYSTEM_PERFORMANCE_INFORMATION_t_def
  SYSTEM_INTERRUPT_INFORMATION_t_def PROCESSOR_POWER_INFORMATION_t_def WTS_SESSION_INFOW_t_def
  WTS_PROCESS_INFOW_t_def WTS_CLIENT_ADDRESS_t_def WTSINFOW_t_def

section \<open>Sizes\<close>

text \<open>The counts given to \<open>host_statistics\<close> and \<open>host_statistics64\<close>, in integers of four bytes.\<close>

definition HOST_VM_INFO64_COUNT :: nat where "HOST_VM_INFO64_COUNT = 38"
definition integer_t :: ctype where "integer_t = Scalar 4"
definition vm_meter_count :: nat where "vm_meter_count = size_of vmmeter_t div size_of integer_t"
definition cpu_load_count :: nat where "cpu_load_count = size_of host_cpu_load_info_t div size_of integer_t"

lemma kinfo_sizes:
  assumes "libc_ok L"
  shows "size_of vmspace_t = 64" "align_of vmspace_t = 8" "size_of pcred_t = 104" "align_of pcred_t = 8"
    "size_of (kinfo_proc_eproc_t L) = 352" "align_of (kinfo_proc_eproc_t L) = 8"
    "size_of (kinfo_proc_t L) = 648" "align_of (kinfo_proc_t L) = 8"
  using assms by (simp_all add: kinfo_layout_defs libc_simps round_up_def)

lemma mach_sizes: "size_of vm_statistics64_t = 152" "size_of vmmeter_t = 140" "size_of host_cpu_load_info_t = 16"
  by (simp_all add: mach_layout_defs round_up_def)

lemma win_sizes:
  "size_of SYSTEM_PROCESSOR_PERFORMANCE_INFORMATION_t = 48" "size_of SYSTEM_PERFORMANCE_INFORMATION_t = 312"
  "size_of SYSTEM_INTERRUPT_INFORMATION_t = 24" "size_of PROCESSOR_POWER_INFORMATION_t = 24"
  "size_of WTS_CLIENT_ADDRESS_t = 24" "size_of WTS_SESSION_INFOW_t = 24" "size_of WTSINFOW_t = 216"
  by (simp_all add: win_layout_defs round_up_def)

section \<open>Records read from memory\<close>

definition kp :: "string \<Rightarrow> path_in" where "kp f = [Fld ''kp_proc'', Fld f]"
definition kp_start :: "string \<Rightarrow> path_in" where "kp_start f = [Fld ''kp_proc'', Fld ''p_un'', Fld ''p_starttime'', Fld f]"
definition kp_comm :: "nat \<Rightarrow> path_in" where "kp_comm i = [Fld ''kp_proc'', Fld ''p_comm'', Idx i]"
definition kp_ppid :: path_in where "kp_ppid = [Fld ''kp_eproc'', Fld ''e_ppid'']"

lemmas kp_defs = kp_def kp_start_def kp_comm_def kp_ppid_def

definition kinfo_paths :: "path_in list" where
  "kinfo_paths = kp_start ''tv_sec'' # kp_start ''tv_usec'' # kp ''p_stat'' # kp ''p_pid'' # kp_ppid #
     map kp_comm [0..<17]"

definition kinfo_view :: "(path_in \<Rightarrow> nat) \<Rightarrow> kinfo_proc" where
  "kinfo_view f =
     \<lparr>p_starttime = \<lparr>tv_sec = of_nat (f (kp_start ''tv_sec'')), tv_usec = of_nat (f (kp_start ''tv_usec''))\<rparr>,
      p_stat = of_nat (f (kp ''p_stat'')), p_pid = of_nat (f (kp ''p_pid'')),
      p_comm = map (\<lambda>i. char_of (f (kp_comm i))) [0..<17], p_after_comm = [], e_ppid = of_nat (f kp_ppid)\<rparr>"

lemma kinfo_type_ok: "ctype_ok (kinfo_proc_t darwin_libc)"
  by code_simp

lemma kinfo_fields:
  "field_of (kinfo_proc_t darwin_libc) (kp_start ''tv_sec'') = Some (0, Scalar 8)"
  "field_of (kinfo_proc_t darwin_libc) (kp_start ''tv_usec'') = Some (8, Scalar 4)"
  "field_of (kinfo_proc_t darwin_libc) (kp ''p_stat'') = Some (36, Scalar 1)"
  "field_of (kinfo_proc_t darwin_libc) (kp ''p_pid'') = Some (40, Scalar 4)"
  "field_of (kinfo_proc_t darwin_libc) (kp ''p_comm'') = Some (243, Array 17 (Scalar 1))"
  "field_of (kinfo_proc_t darwin_libc) kp_ppid = Some (560, Scalar 4)"
proof -
  have "map (field_of (kinfo_proc_t darwin_libc))
      [kp_start ''tv_sec'', kp_start ''tv_usec'', kp ''p_stat'', kp ''p_pid'', kp ''p_comm'', kp_ppid] =
    [Some (0, Scalar 8), Some (8, Scalar 4), Some (36, Scalar 1), Some (40, Scalar 4),
     Some (243, Array 17 (Scalar 1)), Some (560, Scalar 4)]"
    by code_simp
  then show
    "field_of (kinfo_proc_t darwin_libc) (kp_start ''tv_sec'') = Some (0, Scalar 8)"
    "field_of (kinfo_proc_t darwin_libc) (kp_start ''tv_usec'') = Some (8, Scalar 4)"
    "field_of (kinfo_proc_t darwin_libc) (kp ''p_stat'') = Some (36, Scalar 1)"
    "field_of (kinfo_proc_t darwin_libc) (kp ''p_pid'') = Some (40, Scalar 4)"
    "field_of (kinfo_proc_t darwin_libc) (kp ''p_comm'') = Some (243, Array 17 (Scalar 1))"
    "field_of (kinfo_proc_t darwin_libc) kp_ppid = Some (560, Scalar 4)"
    by simp_all
qed

lemma field_of_append:
  "field_of t (p @ q) =
     (case field_of t p of
        None \<Rightarrow> None
      | Some (off, u) \<Rightarrow> map_option (\<lambda>(off', w). (off + off', w)) (field_of u q))"
  by (induction t p rule: field_of.induct) (auto simp: map_option_case split: option.splits)

lemma kinfo_scalars: "list_all (scalar_path (kinfo_proc_t darwin_libc)) kinfo_paths"
proof -
  have "field_of (kinfo_proc_t darwin_libc) (kp_comm i) = Some (243 + i, Scalar 1)" if "i < 17" for i
    using field_of_append [of "kinfo_proc_t darwin_libc" "kp ''p_comm''" "[Idx i]"] that
    by (simp add: kinfo_fields(5)) (simp add: kp_def kp_comm_def)
  then show ?thesis by (auto simp: kinfo_paths_def list_all_iff scalar_path_iff kinfo_fields)
qed

interpretation kinfo: c_struct "kinfo_proc_t darwin_libc" kinfo_paths kinfo_view
  by (unfold_locales, rule kinfo_type_ok, rule kinfo_scalars) (simp add: kinfo_paths_def kinfo_view_def)

text \<open>The bytes behind the name, which a name without NUL runs into, are those of the memory.\<close>

definition kinfo_proc_at :: "libc_types \<Rightarrow> bool \<Rightarrow> bytes \<Rightarrow> kinfo_proc" where
  "kinfo_proc_at L be b =
     (kinfo_view (get be (kinfo_proc_t L) b))
       \<lparr>p_after_comm := (case field_of (kinfo_proc_t L) (kp ''p_comm'') of
          Some (off, u) \<Rightarrow> drop (off + size_of u) b | None \<Rightarrow> [])\<rparr>"

text \<open>
  The call that fills the list, in terms of memory: the result, the error, the size it stored and the
  memory at the pointer it was given. The vector is said to hold as many entries as fit into the size.
\<close>

definition kinfo_fill :: "libc_types \<Rightarrow> bool \<Rightarrow> i32 \<times> i32 \<times> nat \<times> bytes \<Rightarrow> i32 \<times> i32 \<times> kinfo_proc list" where
  "kinfo_fill L be answer =
     (case answer of (result, errno, sz, mem) \<Rightarrow>
        (result, errno,
         items_at (kinfo_proc_t L) (kinfo_proc_at L be) (sz div size_of (kinfo_proc_t L)) mem))"

definition flds :: "string list \<Rightarrow> path_in list" where
  "flds fs = map (\<lambda>f. [Fld f]) fs"

definition vmstat_view :: "(path_in \<Rightarrow> nat) \<Rightarrow> vm_statistics64" where
  "vmstat_view f =
     \<lparr>free_count = of_nat (f [Fld ''free_count'']), active_count = of_nat (f [Fld ''active_count'']),
      inactive_count = of_nat (f [Fld ''inactive_count'']), wire_count = of_nat (f [Fld ''wire_count'']),
      speculative_count = of_nat (f [Fld ''speculative_count'']), vm_pageins = of_nat (f [Fld ''pageins'']),
      vm_pageouts = of_nat (f [Fld ''pageouts''])\<rparr>"

interpretation vmstat: flat_struct vm_statistics64_t
    "flds [''free_count'', ''active_count'', ''inactive_count'', ''wire_count'', ''speculative_count'',
      ''pageins'', ''pageouts'']" vmstat_view
  by (unfold_locales, code_simp, code_simp) (simp_all add: flds_def vmstat_view_def mach_layout_defs)

definition vmmeter_view :: "(path_in \<Rightarrow> nat) \<Rightarrow> vmmeter" where
  "vmmeter_view f =
     \<lparr>v_swtch = of_nat (f [Fld ''v_swtch'']), v_trap = of_nat (f [Fld ''v_trap'']),
      v_syscall = of_nat (f [Fld ''v_syscall'']), v_intr = of_nat (f [Fld ''v_intr'']),
      v_soft = of_nat (f [Fld ''v_soft''])\<rparr>"

interpretation vmmeter: flat_struct vmmeter_t "flds [''v_swtch'', ''v_trap'', ''v_syscall'', ''v_intr'', ''v_soft'']"
    vmmeter_view
  by (unfold_locales, code_simp, code_simp) (simp_all add: flds_def vmmeter_view_def mach_layout_defs)

definition cpu_load_view :: "(path_in \<Rightarrow> nat) \<Rightarrow> cpu_load_info" where
  "cpu_load_view f =
     \<lparr>load_user = of_nat (f [Fld ''user'']), load_system = of_nat (f [Fld ''system'']),
      load_idle = of_nat (f [Fld ''idle'']), load_nice = of_nat (f [Fld ''nice''])\<rparr>"

interpretation cpu_load: flat_struct host_cpu_load_info_t "flds [''user'', ''system'', ''idle'', ''nice'']" cpu_load_view
  by (unfold_locales, code_simp, code_simp) (simp_all add: flds_def cpu_load_view_def mach_layout_defs)

text \<open>The two halves of a \<open>LARGE_INTEGER\<close>.\<close>

definition large_integer :: "nat \<Rightarrow> filetime" where
  "large_integer n = \<lparr>dwLowDateTime = of_nat n, dwHighDateTime = of_nat (n div 2 ^ 32)\<rparr>"

definition processor_performance_view :: "(path_in \<Rightarrow> nat) \<Rightarrow> processor_performance" where
  "processor_performance_view f =
     \<lparr>IdleTime = large_integer (f [Fld ''IdleTime'']), KernelTime = large_integer (f [Fld ''KernelTime'']),
      UserTime = large_integer (f [Fld ''UserTime'']), InterruptCount = of_nat (f [Fld ''InterruptCount''])\<rparr>"

interpretation processor_performance: flat_struct SYSTEM_PROCESSOR_PERFORMANCE_INFORMATION_t
    "flds [''IdleTime'', ''KernelTime'', ''UserTime'', ''InterruptCount'']" processor_performance_view
  by (unfold_locales, code_simp, code_simp) (simp_all add: flds_def processor_performance_view_def win_layout_defs)

definition system_performance_view :: "(path_in \<Rightarrow> nat) \<Rightarrow> system_performance" where
  "system_performance_view f =
     \<lparr>ContextSwitches = of_nat (f [Fld ''ContextSwitches'']), SystemCalls = of_nat (f [Fld ''SystemCalls''])\<rparr>"

interpretation system_performance: flat_struct SYSTEM_PERFORMANCE_INFORMATION_t
    "flds [''ContextSwitches'', ''SystemCalls'']" system_performance_view
  by (unfold_locales, code_simp, code_simp) (simp_all add: flds_def system_performance_view_def win_layout_defs)

definition dpc_view :: "(path_in \<Rightarrow> nat) \<Rightarrow> u32" where
  "dpc_view f = of_nat (f [Fld ''DpcCount''])"

interpretation dpc: flat_struct SYSTEM_INTERRUPT_INFORMATION_t "flds [''DpcCount'']" dpc_view
  by (unfold_locales, code_simp, code_simp) (simp_all add: flds_def dpc_view_def win_layout_defs)

definition power_view :: "(path_in \<Rightarrow> nat) \<Rightarrow> processor_power" where
  "power_view f = \<lparr>MaxMhz = of_nat (f [Fld ''MaxMhz'']), CurrentMhz = of_nat (f [Fld ''CurrentMhz''])\<rparr>"

interpretation power: flat_struct PROCESSOR_POWER_INFORMATION_t "flds [''MaxMhz'', ''CurrentMhz'']" power_view
  by (unfold_locales, code_simp, code_simp) (simp_all add: flds_def power_view_def win_layout_defs)

definition elems :: "string \<Rightarrow> nat \<Rightarrow> path_in list" where
  "elems f n = map (\<lambda>i. [Fld f, Idx i]) [0..<n]"

definition wtsinfow_view :: "(path_in \<Rightarrow> nat) \<Rightarrow> wtsinfow" where
  "wtsinfow_view f =
     \<lparr>WtsDomain = map (\<lambda>p. of_nat (f p)) (elems ''Domain'' 17),
      UserName = map (\<lambda>p. of_nat (f p)) (elems ''UserName'' 21)\<rparr>"

interpretation wtsinfow: flat_struct WTSINFOW_t "elems ''Domain'' 17 @ elems ''UserName'' 21" wtsinfow_view
proof (unfold_locales, goal_cases)
  case 2
  have "map (field_of WTSINFOW_t) [[Fld ''Domain''], [Fld ''UserName'']] =
      [Some (96, Array 17 (Scalar 2)), Some (130, Array 21 (Scalar 2))]" by code_simp
  then show ?case
    using field_of_append [of WTSINFOW_t "[Fld ''Domain'']"] field_of_append [of WTSINFOW_t "[Fld ''UserName'']"]
    by (auto simp: list_all_iff scalar_path_iff elems_def)
next
  case 4
  show ?case by code_simp
qed (code_simp, simp add: wtsinfow_view_def)

definition client_address_view :: "(path_in \<Rightarrow> nat) \<Rightarrow> client_address" where
  "client_address_view f =
     \<lparr>AddressFamily = of_nat (f [Fld ''AddressFamily'']), Address = map (\<lambda>p. of_nat (f p)) (elems ''Address'' 20)\<rparr>"

interpretation client_address: flat_struct WTS_CLIENT_ADDRESS_t "[Fld ''AddressFamily''] # elems ''Address'' 20"
    client_address_view
  by (unfold_locales, code_simp, code_simp) (simp_all add: client_address_view_def win_layout_defs)

end
