(* ===== verification/Layouts_Read.thy ===== *)
theory Layouts_Read
  imports Layouts
begin

text \<open>
  What the layouts give for the code that reads them: the sizes and counts of the source, the offsets of the
  fields that are read, and the records of the model as they were stored in memory.
\<close>

section \<open>Sizes\<close>









section \<open>The routing messages of macOS\<close>

text \<open>
  (C29) Where the routing messages are read: for any memory, the record of a message is made of the numbers at
  these offsets, those of the kernel's own declaration of \<open>if_msghdr2\<close>, also when only as many bytes are there
  as the structure has, and the header that is read first agrees with it on the length and the type.
\<close>

theorem if_msghdr2_at_layout:
  assumes "libc_ok L"
  shows "if_msghdr2_at be b =
      \<lparr>ifm_msglen = field_at be 0 2 b, ifm_type = field_at be 3 1 b, ifm_index = field_at be 12 2 b,
       ifi_ipackets = of_nat (field_at be 56 8 b), ifi_ierrors = of_nat (field_at be 64 8 b),
       ifi_opackets = of_nat (field_at be 72 8 b), ifi_oerrors = of_nat (field_at be 80 8 b),
       ifi_ibytes = of_nat (field_at be 96 8 b), ifi_obytes = of_nat (field_at be 104 8 b),
       ifi_iqdrops = of_nat (field_at be 128 8 b)\<rparr> \<and>
    if_msghdr2_at be b = msghdr_view (get be (if_msghdr2_t L) b) \<and>
    if_msghdr2_at be (take (size_of (if_msghdr2_t L)) b) = if_msghdr2_at be b \<and>
    get be if_msghdr_partial_t b [Fld ''ifm_msglen''] = get be (if_msghdr2_t L) b [Fld ''ifm_msglen''] \<and>
    get be if_msghdr_partial_t b [Fld ''ifm_type''] = get be (if_msghdr2_t L) b [Fld ''ifm_type'']"
proof -
  have L: "L = darwin_libc" using assms by (simp add: libc_ok_iff)
  have "map (field_of (if_msghdr2_t darwin_libc)) [[Fld ''ifm_msglen''], [Fld ''ifm_type'']] =
      [Some (0, Scalar 2), Some (3, Scalar 1)]" by code_simp
  then have "get be (if_msghdr2_t darwin_libc) b [Fld ''ifm_msglen''] = field_at be 0 2 b"
    "get be (if_msghdr2_t darwin_libc) b [Fld ''ifm_type''] = field_at be 3 1 b"
    by (simp_all add: get_def)
  then show ?thesis
    using msghdr_offsets [of be b] msghdr.read_within [of be b]
    by (simp add: L partial_offsets if_msghdr2_at_def)
qed

theorem if_msghdr2_at_layout_witness:
  "ifi_ibytes (if_msghdr2_at False (sample_msg 18 180)) = of_nat (field_at False 96 8 (sample_msg 18 180))"
  using if_msghdr2_at_layout [of darwin_libc False "sample_msg 18 180"] by (simp add: libc_ok_iff)

section \<open>The processes of macOS\<close>

lemma kinfo_items:
  assumes "cvals_ok (kinfo_proc_t darwin_libc) vs"
    "list_all (\<lambda>v. list_all (has_num (kinfo_proc_t darwin_libc) v) kinfo_paths) vs"
  shows "map (\<lambda>i. i\<lparr>p_after_comm := []\<rparr>)
      (items_at (kinfo_proc_t darwin_libc) (kinfo_proc_at darwin_libc be) (length vs)
        (encode_list be z (kinfo_proc_t darwin_libc) vs @ rest)) =
    map (\<lambda>v. kinfo_view (num_at (kinfo_proc_t darwin_libc) v)) vs"
proof -
  have "(kinfo_proc_at darwin_libc be b)\<lparr>p_after_comm := []\<rparr> = kinfo_view (get be (kinfo_proc_t darwin_libc) b)" for b
    by (simp add: kinfo_proc_at_def kinfo_view_def)
  then show ?thesis using kinfo.read_items [OF assms, of be z rest] by (simp add: items_at_def o_def)
qed

lemma kinfo_pids:
  assumes "map (\<lambda>i. i\<lparr>p_after_comm := []\<rparr>) is = map (\<lambda>v. kinfo_view (num_at t v)) vs"
  shows "map p_pid is = map (\<lambda>v. of_nat (num_at t v (kp ''p_pid''))) vs"
proof -
  have "map p_pid is = map p_pid (map (\<lambda>i. i\<lparr>p_after_comm := []\<rparr>) is)" by simp
  then show ?thesis by (simp add: assms kinfo_view_def o_def)
qed

text \<open>
  (C11) The list of processes is read from memory as the kernel stored it: when the kernel fills the buffer
  with process structures and reports their size, the loop returns one entry for each of them, in order,
  with the start time, the state, the id, the name and the parent that were stored, whatever the memory
  behind them holds, and the ids listed are those of the structures.
\<close>

theorem kinfo_list_memory:
  assumes "libc_ok L" "cvals_ok (kinfo_proc_t L) vs" "vs \<noteq> []"
    and "list_all (\<lambda>v. list_all (has_num (kinfo_proc_t L) v) kinfo_paths) vs"
    and "dry_run (answers 0) = (r, e, sz)" "0 \<le> sint r" "sz < 2 ^ 63" "0 \<le> sint r'"
    and "fill (answers 0) sz = kinfo_fill L be (r', e', length vs * size_of (kinfo_proc_t L),
      encode_list be z (kinfo_proc_t L) vs @ rest)"
  shows "\<exists>calls entries. bindings_processes da d answers = Some (calls, Ok entries) \<and>
    map (\<lambda>i. i\<lparr>p_after_comm := []\<rparr>) entries = map (\<lambda>v. kinfo_view (num_at (kinfo_proc_t L) v)) vs \<and>
    macos_pids da d answers = Some (Ok (map (\<lambda>v. Ok (of_nat (num_at (kinfo_proc_t L) v (kp ''p_pid'')))) vs))"
proof -
  have L: "L = darwin_libc" using assms(1) by (simp add: libc_ok_iff)
  let ?is = "items_at (kinfo_proc_t darwin_libc) (kinfo_proc_at darwin_libc be) (length vs)
    (encode_list be z (kinfo_proc_t darwin_libc) vs @ rest)"
  have items: "map (\<lambda>i. i\<lparr>p_after_comm := []\<rparr>) ?is = map (\<lambda>v. kinfo_view (num_at (kinfo_proc_t darwin_libc) v)) vs"
    using assms(2,4) by (intro kinfo_items) (simp_all add: L)
  have size: "size_of (kinfo_proc_t darwin_libc) = 648" using kinfo_sizes(7) [of darwin_libc] by (simp add: libc_ok_iff)
  have fill: "fill (answers 0) sz = (r', e', ?is)" using assms(9) by (simp add: L kinfo_fill_def size)
  have ne: "?is \<noteq> []" using assms(3) by (simp add: items_at_def)
  have room: "\<not> 2 ^ 63 \<le> sz div kinfo_size * kinfo_size"
    using assms(7) div_times_less_eq_dividend [of sz kinfo_size] by linarith
  have "\<exists>calls. bindings_processes da d answers = Some (calls, Ok ?is)"
    using assms(5,6,8) fill ne room unfolding bindings_processes_def
    by (subst processes_loop.simps) (auto simp: processes_round_def reserve_exact_def Let_def)
  then obtain calls where run: "bindings_processes da d answers = Some (calls, Ok ?is)" by blast
  have "map (\<lambda>info. Ok (p_pid info)) ?is =
      (map (\<lambda>v. Ok (of_nat (num_at (kinfo_proc_t darwin_libc) v (kp ''p_pid'')))) vs :: (pid, heim_error) outcome list)"
    using arg_cong [OF kinfo_pids [OF items], of "map Ok"] by (simp add: o_def)
  then show ?thesis using run items by (auto simp: L macos_pids_def)
qed

text \<open>A value with the same number in every scalar and the last variant of every union.\<close>

fun const_val :: "nat \<Rightarrow> ctype \<Rightarrow> cval"
  and const_vals :: "nat \<Rightarrow> (string \<times> ctype) list \<Rightarrow> cval list"
  and const_variant :: "nat \<Rightarrow> (string \<times> ctype) list \<Rightarrow> cval" where
  "const_val x (Scalar n) = Num x"
| "const_val x (Array k t) = Vec (replicate k (const_val x t))"
| "const_val x (Struct fs) = Rec (const_vals x fs)"
| "const_val x (Union fs) = const_variant x fs"
| "const_vals x [] = []"
| "const_vals x ((f, t) # fs) = const_val x t # const_vals x fs"
| "const_variant x [] = Num x"
| "const_variant x ((f, t) # fs) = (if fs = [] then Variant f (const_val x t) else const_variant x fs)"

lemma cvals_ok_replicate: "cvals_ok t (replicate k v) \<longleftrightarrow> k = 0 \<or> cval_ok t v"
  by (induction k) auto

definition two_kinfos :: "cval list" where
  "two_kinfos = map (\<lambda>x. const_val x (kinfo_proc_t darwin_libc)) [42, 43]"

definition two_kinfos_answer :: round_answer where
  "two_kinfos_answer =
     \<lparr>dry_run = (0, 0, 10 * 648),
      fill = (\<lambda>_. kinfo_fill darwin_libc False (0, 0, length two_kinfos * size_of (kinfo_proc_t darwin_libc),
        encode_list False (CHR ''?'') (kinfo_proc_t darwin_libc) two_kinfos @ ''rest''))\<rparr>"

theorem kinfo_list_memory_witness:
  "macos_pids True (sample_darwin 1577 2) (\<lambda>_. two_kinfos_answer) = Some (Ok [Ok 42, Ok 43])"
proof -
  have "cvals_ok (kinfo_proc_t darwin_libc) two_kinfos"
    by (simp add: two_kinfos_def kinfo_layout_defs darwin_libc_simps cvals_ok_replicate)
  moreover have "list_all (\<lambda>v. list_all (has_num (kinfo_proc_t darwin_libc) v) kinfo_paths) two_kinfos" by code_simp
  moreover have "map (\<lambda>v. num_at (kinfo_proc_t darwin_libc) v (kp ''p_pid'')) two_kinfos = [42, 43]" by code_simp
  moreover have "two_kinfos \<noteq> []" by (simp add: two_kinfos_def)
  ultimately show ?thesis
    using kinfo_list_memory [of darwin_libc two_kinfos "\<lambda>_. two_kinfos_answer" 0 0 "10 * 648" 0 False 0 "CHR ''?''"
        "''rest''" True "sample_darwin 1577 2"]
    by (simp add: libc_ok_iff two_kinfos_answer_def) (auto simp: two_kinfos_def)
qed

section \<open>The statistics of Windows\<close>

text \<open>
  The buffer of \<open>query_system_information\<close> after the call: as many structures as there are processors,
  whatever the system stored.
\<close>

definition nt_items :: "bool \<Rightarrow> ctype \<Rightarrow> ((path_in \<Rightarrow> nat) \<Rightarrow> 'a) \<Rightarrow> 'h win_host_scheme \<Rightarrow> i32 \<times> bytes \<Rightarrow> i32 \<times> 'a list" where
  "nt_items be t view w answer =
     (case answer of (result, mem) \<Rightarrow>
        (result, items_at t (\<lambda>b. view (get be t b)) (unat (number_of_processors w)) mem))"

lemma ucast_of_nat: "n < 2 ^ 32 \<Longrightarrow> ucast (of_nat n :: u32) = (of_nat n :: u64)"
  by (simp add: unsigned_of_nat take_bit_nat_eq_self)

lemma foldl_ucast:
  assumes "\<forall>x\<in>set xs. f x < 2 ^ 32"
  shows "foldl (\<lambda>acc x. acc + ucast (of_nat (f x) :: u32)) a xs = a + (of_nat (\<Sum>x\<leftarrow>xs. f x) :: u64)"
  using assms by (induction xs arbitrary: a) (simp_all add: ucast_of_nat)

abbreviation "perf_t \<equiv> SYSTEM_PERFORMANCE_INFORMATION_t"
abbreviation "intr_t \<equiv> SYSTEM_INTERRUPT_INFORMATION_t"
abbreviation "cpu_t \<equiv> SYSTEM_PROCESSOR_PERFORMANCE_INFORMATION_t"

lemma num32: "ctype_ok t \<Longrightarrow> cval_ok t v \<Longrightarrow> field_of t p = Some (off, Scalar 4) \<Longrightarrow> num_at t v p < 2 ^ 32"
  using num_at_less [of t v p off 4] by simp

lemma num32_list:
  assumes "ctype_ok t" "cvals_ok t vs" "field_of t p = Some (off, Scalar 4)"
  shows "\<forall>v\<in>set vs. num_at t v p < 2 ^ 32"
  using assms(2) by (induction vs) (auto simp del: power_numeral intro: num32 assms)

text \<open>
  (C14) The statistics of Windows are those the system stored: when it stores its performance structure at
  the beginning of the buffer, and one interrupt and one processor structure per processor in the
  others, the context switches and system calls are those of the first structure, although only one is
  stored and the code takes as many as there are processors for initialised, and the interrupts and
  deferred calls are the sums over the processors, modulo \<open>2 ^ 64\<close>.
\<close>

theorem windows_stats_memory:
  fixes w :: "'h win_host_scheme"
  assumes "0 < unat (number_of_processors w)"
    and "cval_ok perf_t v" "cvals_ok intr_t ds" "cvals_ok cpu_t ps"
    and "length ds = unat (number_of_processors w)" "length ps = unat (number_of_processors w)"
    and "system_performance_answer w = nt_items be perf_t system_performance_view w (STATUS_SUCCESS w, encode be z perf_t v @ rest)"
    and "dpc_answer w = nt_items be intr_t dpc_view w (STATUS_SUCCESS w, encode_list be z intr_t ds @ rest')"
    and "processor_performance_answer w =
      nt_items be cpu_t processor_performance_view w (STATUS_SUCCESS w, encode_list be z cpu_t ps @ rest'')"
  shows "windows_stats w = Ok
    \<lparr>ws_ctx_switches = of_nat (num_at perf_t v [Fld ''ContextSwitches'']),
     ws_interrupts = of_nat (\<Sum>p\<leftarrow>ps. num_at cpu_t p [Fld ''InterruptCount'']),
     ws_dpc = of_nat (\<Sum>d\<leftarrow>ds. num_at intr_t d [Fld ''DpcCount'']),
     ws_syscalls = of_nat (num_at perf_t v [Fld ''SystemCalls''])\<rparr>"
proof -
  have n: "number_of_processors w \<noteq> 0" using assms(1) by auto
  have f: "map (field_of perf_t) [[Fld ''ContextSwitches''], [Fld ''SystemCalls'']] = [Some (296, Scalar 4), Some (308, Scalar 4)]"
      "field_of intr_t [Fld ''DpcCount''] = Some (4, Scalar 4)" "field_of cpu_t [Fld ''InterruptCount''] = Some (40, Scalar 4)"
    by code_simp+
  have less: "num_at perf_t v [Fld ''ContextSwitches''] < 2 ^ 32" "num_at perf_t v [Fld ''SystemCalls''] < 2 ^ 32"
    using num32 [OF system_performance.type_ok assms(2)] f(1) by auto
  have d: "\<forall>x\<in>set ds. num_at intr_t x [Fld ''DpcCount''] < 2 ^ 32" and p: "\<forall>x\<in>set ps. num_at cpu_t x [Fld ''InterruptCount''] < 2 ^ 32"
    using num32_list [OF dpc.type_ok assms(3) f(2)] num32_list [OF processor_performance.type_ok assms(4) f(3)]
    by simp_all
  obtain xs where xs: "items_at perf_t (\<lambda>b. system_performance_view (get be perf_t b)) (unat (number_of_processors w))
      (encode be z perf_t v @ rest) = system_performance_view (num_at perf_t v) # xs"
    using system_performance.read_flat_first [of v _ be z rest] assms(1,2) by auto
  have ds: "items_at intr_t (\<lambda>b. dpc_view (get be intr_t b)) (unat (number_of_processors w)) (encode_list be z intr_t ds @ rest') =
      map (\<lambda>d. dpc_view (num_at intr_t d)) ds"
    using dpc.read_flat_items [of ds be z rest'] assms(3,5) by simp
  have ps: "items_at cpu_t (\<lambda>b. processor_performance_view (get be cpu_t b)) (unat (number_of_processors w))
      (encode_list be z cpu_t ps @ rest'') = map (\<lambda>p. processor_performance_view (num_at cpu_t p)) ps"
    using processor_performance.read_flat_items [of ps be z rest''] assms(4,6) by simp
  have "system_performance_info w = Ok (of_nat (num_at perf_t v [Fld ''ContextSwitches'']), of_nat (num_at perf_t v [Fld ''SystemCalls'']))"
    using n assms(1,7) xs less
    by (cases "unat (number_of_processors w)")
       (simp_all add: system_performance_info_def query_system_information_def nt_items_def system_performance_view_def ucast_of_nat)
  moreover have "dpc_count w = Ok (of_nat (\<Sum>d\<leftarrow>ds. num_at intr_t d [Fld ''DpcCount'']))"
    using n assms(5,8) ds d
    by (simp add: dpc_count_def query_system_information_def nt_items_def dpc_view_def foldl_map foldl_ucast)
  moreover have "windows_interrupts w = Ok (of_nat (\<Sum>p\<leftarrow>ps. num_at cpu_t p [Fld ''InterruptCount'']))"
    using n assms(6,9) ps p
    by (simp add: windows_interrupts_def query_system_information_def nt_items_def processor_performance_view_def
        foldl_map foldl_ucast)
  ultimately show ?thesis by (simp add: windows_stats_def)
qed

definition stats_host :: win_host where
  "stats_host =
     (let w = sample_win\<lparr>number_of_processors := 2\<rparr>;
          ok = \<lambda>mem. (STATUS_SUCCESS w, mem)
      in w\<lparr>system_performance_answer := nt_items False perf_t system_performance_view w
              (ok (encode False NUL perf_t (const_val 7 perf_t) @ ''?'')),
            dpc_answer := nt_items False intr_t dpc_view w
              (ok (encode_list False NUL intr_t [const_val 3 intr_t, const_val 4 intr_t] @ [])),
            processor_performance_answer := nt_items False cpu_t processor_performance_view w
              (ok (encode_list False NUL cpu_t [const_val 5 cpu_t, const_val 6 cpu_t] @ []))\<rparr>)"

theorem windows_stats_memory_witness:
  "windows_stats stats_host = Ok \<lparr>ws_ctx_switches = 7, ws_interrupts = 11, ws_dpc = 7, ws_syscalls = 7\<rparr>"
proof -
  have two: "unat (number_of_processors stats_host) = 2" by (simp add: stats_host_def Let_def)
  have same: "nt_items be t view (sample_win\<lparr>number_of_processors := 2\<rparr>) a = nt_items be t view stats_host a"
      "STATUS_SUCCESS (sample_win\<lparr>number_of_processors := 2\<rparr>) = STATUS_SUCCESS stats_host"
    for be t a and view :: "(path_in \<Rightarrow> nat) \<Rightarrow> 'a"
    by (simp_all add: nt_items_def stats_host_def Let_def)
  have answers:
    "system_performance_answer stats_host = nt_items False perf_t system_performance_view stats_host
       (STATUS_SUCCESS stats_host, encode False NUL perf_t (const_val 7 perf_t) @ ''?'')"
    "dpc_answer stats_host = nt_items False intr_t dpc_view stats_host
       (STATUS_SUCCESS stats_host, encode_list False NUL intr_t [const_val 3 intr_t, const_val 4 intr_t] @ [])"
    "processor_performance_answer stats_host = nt_items False cpu_t processor_performance_view stats_host
       (STATUS_SUCCESS stats_host, encode_list False NUL cpu_t [const_val 5 cpu_t, const_val 6 cpu_t] @ [])"
    unfolding same [symmetric] by (simp_all add: stats_host_def Let_def)
  have ok: "cval_ok perf_t (const_val 7 perf_t)" "cvals_ok intr_t [const_val 3 intr_t, const_val 4 intr_t]"
      "cvals_ok cpu_t [const_val 5 cpu_t, const_val 6 cpu_t]"
    by (simp_all add: win_layout_defs)
  have vals: "num_at perf_t (const_val 7 perf_t) [Fld ''ContextSwitches''] = 7"
      "num_at perf_t (const_val 7 perf_t) [Fld ''SystemCalls''] = 7"
      "map (\<lambda>d. num_at intr_t d [Fld ''DpcCount'']) [const_val 3 intr_t, const_val 4 intr_t] = [3, 4]"
      "map (\<lambda>p. num_at cpu_t p [Fld ''InterruptCount'']) [const_val 5 cpu_t, const_val 6 cpu_t] = [5, 6]"
    by code_simp+
  show ?thesis
    using windows_stats_memory [OF _ ok _ _ answers] vals by (simp add: two)
qed

end
