(* ===== verification/Process_Api.thy ===== *)
theory Process_Api
  imports Process_Identity Process_Macos
begin

text \<open>
  The public interface of \<open>heim-process\<close>: \<open>src/process/\<close>, for all systems. The module \<open>sys\<close>, which the build
  chooses by the target system, is the record \<open>sys_process\<close>; \<open>linux_sys\<close> and \<open>macos_sys\<close> are its values for
  Linux and macOS. The macro \<open>wrap!\<close> of \<open>heim-common\<close> makes a new type around one of \<open>sys\<close>.

  The locale \<open>process_sys\<close> is what the interface relies on; its lemmas hold for both systems. The theorems:
  the listed processes, their handles, their parents and \<open>get\<close> agree with one another; the CPU usage fails
  exactly when one of its parts does; the variables of the environment, read through the public iterator,
  are those of the block the kernel prints.
\<close>

section \<open>The macro wrap\<close>

datatype 'a wrapped = Wrap (as_ref: 'a)

section \<open>The module sys\<close>

text \<open>
  Operations that may not return are optional values. \<open>sys_logical_count\<close> is \<open>heim_cpu::logical_count\<close>, and
  \<open>join_race\<close> says which of two errors \<open>try_join\<close> of the \<open>futures\<close> crate gives.
\<close>

record ('p, 'c, 'e, 't, 'm, 'i) sys_process =
  sys_pid :: "'p \<Rightarrow> pid"
  sys_parent_pid :: "'p \<Rightarrow> (pid, process_error) outcome"
  sys_name :: "'p \<Rightarrow> (string, process_error) outcome"
  sys_exe :: "'p \<Rightarrow> (path, process_error) outcome"
  sys_command :: "'p \<Rightarrow> ('c, process_error) outcome"
  sys_cwd :: "'p \<Rightarrow> (path, process_error) outcome"
  sys_status :: "'p \<Rightarrow> (status, process_error) outcome"
  sys_environment :: "'p \<Rightarrow> ('e, process_error) outcome option"
  sys_create_time :: "'p \<Rightarrow> (fval, process_error) outcome"
  sys_cpu_time :: "'p \<Rightarrow> ('t, process_error) outcome"
  sys_memory :: "'p \<Rightarrow> ('m, process_error) outcome"
  sys_is_running :: "'p \<Rightarrow> (bool, process_error) outcome"
  sys_suspend :: "'p \<Rightarrow> (unit, process_error) outcome"
  sys_resume :: "'p \<Rightarrow> (unit, process_error) outcome"
  sys_terminate :: "'p \<Rightarrow> (unit, process_error) outcome"
  sys_kill :: "'p \<Rightarrow> (unit, process_error) outcome"
  sys_wait :: "'p \<Rightarrow> (unit, process_error) outcome option"
  sys_io_counters :: "'p \<Rightarrow> ('i, process_error) outcome"
  sys_processes :: "(('p, process_error) outcome list, heim_error) outcome option"
  sys_get :: "pid \<Rightarrow> ('p, process_error) outcome"
  sys_current :: "('p, process_error) outcome"
  sys_user_time :: "'t \<Rightarrow> fval"
  sys_system_time :: "'t \<Rightarrow> fval"
  sys_logical_count :: "(u64, heim_error) outcome"
  join_race :: bool

section \<open>Operations\<close>

definition api_pid where "api_pid S p = sys_pid S (as_ref p)"
definition api_parent_pid where "api_parent_pid S p = sys_parent_pid S (as_ref p)"

definition api_get :: "('p, 'c, 'e, 't, 'm, 'i, 'z) sys_process_scheme \<Rightarrow> pid \<Rightarrow> ('p wrapped, process_error) outcome" where
  "api_get S pid = map_ok Wrap (sys_get S pid)"

definition api_current :: "('p, 'c, 'e, 't, 'm, 'i, 'z) sys_process_scheme \<Rightarrow> ('p wrapped, process_error) outcome" where
  "api_current S = map_ok Wrap (sys_current S)"

definition api_parent ::
    "('p, 'c, 'e, 't, 'm, 'i, 'z) sys_process_scheme \<Rightarrow> 'p wrapped \<Rightarrow> ('p wrapped, process_error) outcome" where
  "api_parent S p = and_then (api_parent_pid S p) (api_get S)"

definition api_name where "api_name S p = sys_name S (as_ref p)"
definition api_exe where "api_exe S p = sys_exe S (as_ref p)"
definition api_command where "api_command S p = map_ok Wrap (sys_command S (as_ref p))"
definition api_cwd where "api_cwd S p = sys_cwd S (as_ref p)"
definition api_status where "api_status S p = sys_status S (as_ref p)"
definition api_environment where "api_environment S p = map_option (map_ok Wrap) (sys_environment S (as_ref p))"
definition api_create_time where "api_create_time S p = sys_create_time S (as_ref p)"
definition api_cpu_time where "api_cpu_time S p = map_ok Wrap (sys_cpu_time S (as_ref p))"
definition api_memory where "api_memory S p = map_ok Wrap (sys_memory S (as_ref p))"
definition api_is_running where "api_is_running S p = sys_is_running S (as_ref p)"
definition api_suspend where "api_suspend S p = sys_suspend S (as_ref p)"
definition api_resume where "api_resume S p = sys_resume S (as_ref p)"
definition api_terminate where "api_terminate S p = sys_terminate S (as_ref p)"
definition api_kill where "api_kill S p = sys_kill S (as_ref p)"
definition api_wait where "api_wait S p = sys_wait S (as_ref p)"
definition api_io_counters where "api_io_counters S p = map_ok Wrap (sys_io_counters S (as_ref p))"

text \<open>\<open>map_ok\<close> on a stream changes the items that are no errors.\<close>

definition api_processes ::
    "('p, 'c, 'e, 't, 'm, 'i, 'z) sys_process_scheme
      \<Rightarrow> (('p wrapped, process_error) outcome list, heim_error) outcome option" where
  "api_processes S = map_option (map_ok (map (map_ok Wrap))) (sys_processes S)"

text \<open>\<open>fmt::Debug\<close>: what \<open>debug_struct\<close> of the standard library prints for names and texts of fields.\<close>

fun debug_fields :: "(string \<times> string) list \<Rightarrow> string" where
  "debug_fields [] = []"
| "debug_fields [(n, t)] = n @ '': '' @ t"
| "debug_fields ((n, t) # fs) = n @ '': '' @ t @ '', '' @ debug_fields fs"

definition debug_struct :: "string \<Rightarrow> (string \<times> string) list \<Rightarrow> string" where
  "debug_struct name fs = (if fs = [] then name else name @ '' { '' @ debug_fields fs @ '' }'')"

definition api_debug where
  "api_debug S p = debug_struct ''Process'' [(''pid'', show_i32 (api_pid S p))]"

section \<open>CPU usage\<close>

record 't api_usage =
  pu_count :: u64
  pu_time :: "'t wrapped"

definition api_CpuTime_user where "api_CpuTime_user S t = sys_user_time S (as_ref t)"
definition api_CpuTime_system where "api_CpuTime_system S t = sys_system_time S (as_ref t)"

definition api_cpu_usage ::
    "('p, 'c, 'e, 't, 'm, 'i, 'z) sys_process_scheme \<Rightarrow> 'p wrapped \<Rightarrow> ('t api_usage, process_error) outcome" where
  "api_cpu_usage S p =
     map_ok (\<lambda>(cpu_time, cpu_count). \<lparr>pu_count = cpu_count, pu_time = cpu_time\<rparr>)
       (try_join (join_race S) (api_cpu_time S p) (load (sys_logical_count S)))"

text \<open>The difference of two usages; \<open>secs\<close> is the time between their instants, in seconds.\<close>

definition api_CpuUsage_sub ::
    "'h host_scheme \<Rightarrow> ('p, 'c, 'e, 't, 'm, 'i, 'z) sys_process_scheme \<Rightarrow> fval \<Rightarrow> 't api_usage \<Rightarrow> 't api_usage \<Rightarrow> fval" where
  "api_CpuUsage_sub h S secs self rhs =
     (let delta_proc =
            f_add rnd64 (f_sub rnd64 (api_CpuTime_user S (pu_time self)) (api_CpuTime_user S (pu_time rhs)))
              (f_sub rnd64 (api_CpuTime_system S (pu_time self)) (api_CpuTime_system S (pu_time rhs)));
          delta_time_secs = f_mul rnd64 secs (f64_of_u64 (pu_count self))
      in if \<not> f_eq delta_time_secs (Fin 0) then
           let overall_cpus_ratio = f_div rnd64 (Time_get h delta_proc) delta_time_secs;
               single_cpu_ratio = f_mul rnd64 overall_cpus_ratio (f64_of_u64 (pu_count self))
           in Ratio_new h (f64_to_f32 single_cpu_ratio)
         else Ratio_new h (Fin 0))"

section \<open>Environment and command line\<close>

text \<open>The iterators of the public types forward to those of \<open>sys\<close>.\<close>

definition api_Environment_iter :: "environment wrapped \<Rightarrow> environment wrapped" where
  "api_Environment_iter e = Wrap (as_ref e)"

definition api_EnvironmentIter_next :: "environment wrapped \<Rightarrow> (bytes \<times> bytes) option \<times> environment wrapped" where
  "api_EnvironmentIter_next it = map_prod id Wrap (EnvironmentIter_next (as_ref it))"

definition api_EnvironmentIter_size_hint :: "environment wrapped \<Rightarrow> nat \<times> nat option" where
  "api_EnvironmentIter_size_hint it = EnvironmentIter_size_hint (as_ref it)"

definition api_Command_to_os_string :: "command wrapped \<Rightarrow> bytes" where
  "api_Command_to_os_string c = to_os_string (as_ref c)"

definition api_Command_into_os_string :: "command wrapped \<Rightarrow> bytes" where
  "api_Command_into_os_string c = into_os_string (as_ref c)"

definition api_Command_into_iter :: "command wrapped \<Rightarrow> command_iter wrapped" where
  "api_Command_into_iter c = Wrap (Command_into_iter (as_ref c))"

definition api_CommandIter_next ::
    "command_iter wrapped \<Rightarrow> (bytes option \<times> command_iter wrapped, heim_error) outcome" where
  "api_CommandIter_next it = map_ok (map_prod id Wrap) (CommandIter_next (as_ref it))"

text \<open>What a \<open>for\<close> loop over the environment sees; \<open>None\<close> is a loop without end.\<close>

partial_function (option) api_env_loop :: "environment wrapped \<Rightarrow> (bytes \<times> bytes) list \<Rightarrow> (bytes \<times> bytes) list option" where
  "api_env_loop it seen =
     (case api_EnvironmentIter_next it of
        (None, _) \<Rightarrow> Some seen
      | (Some kv, it') \<Rightarrow> api_env_loop it' (seen @ [kv]))"

declare api_env_loop.simps [code]

section \<open>The systems\<close>

definition linux_sys ::
    "bool \<Rightarrow> (nat \<Rightarrow> bool) \<Rightarrow> (nat \<Rightarrow> 'h unix_host_scheme) \<Rightarrow> 'h unix_host_scheme
      \<Rightarrow> (process, command, environment, proc_cpu_time, proc_memory, proc_io) sys_process" where
  "linux_sys race ticks us u =
     \<lparr>sys_pid = proc_pid, sys_parent_pid = Process_parent_pid u, sys_name = Process_name u,
      sys_exe = Process_exe u, sys_command = Process_command u, sys_cwd = Process_cwd u,
      sys_status = Process_status u, sys_environment = Process_environment u,
      sys_create_time = Process_create_time u, sys_cpu_time = Process_cpu_time u,
      sys_memory = Process_memory u, sys_is_running = Process_is_running u,
      sys_suspend = Process_suspend u u, sys_resume = Process_resume u u,
      sys_terminate = Process_terminate u u, sys_kill = Process_kill u u,
      sys_wait = Process_wait ticks u us, sys_io_counters = Process_io_counters u,
      sys_processes = Some (processes u), sys_get = Process_get u, sys_current = Process_current u,
      sys_user_time = pct_utime, sys_system_time = pct_stime,
      sys_logical_count = logical_count u, join_race = race\<rparr>"

definition macos_sys ::
    "bool \<Rightarrow> bool \<Rightarrow> bool \<Rightarrow> bool \<Rightarrow> (nat \<Rightarrow> bool) \<Rightarrow> (nat \<Rightarrow> 'h darwin_host_scheme) \<Rightarrow> (nat \<Rightarrow> round_answer)
      \<Rightarrow> 'h darwin_host_scheme
      \<Rightarrow> (macos_process, bytes, environment, macos_cpu_times, macos_proc_memory, macos_io_counters) sys_process" where
  "macos_sys race da oc be ticks us answers d =
     \<lparr>sys_pid = mp_pid, sys_parent_pid = macos_parent_pid d, sys_name = macos_name d,
      sys_exe = macos_exe d, sys_command = macos_command d, sys_cwd = macos_cwd d,
      sys_status = macos_status d, sys_environment = macos_environment oc be d,
      sys_create_time = macos_create_time d, sys_cpu_time = macos_process_cpu_time d,
      sys_memory = macos_process_memory d, sys_is_running = macos_is_running d,
      sys_suspend = macos_suspend d d, sys_resume = macos_resume d d,
      sys_terminate = macos_terminate d d, sys_kill = macos_kill d d,
      sys_wait = macos_wait ticks d us, sys_io_counters = macos_io_counters d,
      sys_processes = macos_processes da d answers, sys_get = macos_process_get d,
      sys_current = macos_process_current d, sys_user_time = mct_utime, sys_system_time = mct_stime,
      sys_logical_count = macos_logical_count d, join_race = race\<rparr>"

lemma map_ok_member:
  assumes "Ok p \<in> set (map (map_ok f) ys)"
  shows "\<exists>y. Ok y \<in> set ys \<and> p = f y"
proof -
  obtain r where "r \<in> set ys" "Ok p = map_ok f r" using assms by auto
  moreover from this(2) have "map_ok f r = Ok p" by (rule sym)
  ultimately show ?thesis by auto
qed

text \<open>
  What the interface relies on: a handle from \<open>get\<close> has the id asked for and is running, and the processes
  listed are those \<open>get\<close> gives.
\<close>

locale process_sys =
  fixes S :: "('p, 'c, 'e, 't, 'm, 'i, 'z) sys_process_scheme"
  assumes get_pid: "sys_get S pid = Ok p \<Longrightarrow> sys_pid S p = pid"
    and get_running: "sys_get S pid = Ok p \<Longrightarrow> sys_is_running S p = Ok True"
    and listed: "sys_processes S = Some (Ok xs) \<Longrightarrow> Ok p \<in> set xs \<Longrightarrow> sys_get S (sys_pid S p) = Ok p"
begin

lemma api_get_handle:
  assumes "api_get S pid = Ok p"
  shows "api_pid S p = pid" "api_is_running S p = Ok True"
  using assms get_pid get_running by (auto simp: api_get_def api_pid_def api_is_running_def)

lemma api_parent_handle:
  assumes "api_parent S p = Ok q"
  shows "api_parent_pid S p = Ok (api_pid S q) \<and> api_get S (api_pid S q) = Ok q \<and> api_is_running S q = Ok True"
proof -
  obtain pp where "api_parent_pid S p = Ok pp" "api_get S pp = Ok q"
    using assms by (auto simp: api_parent_def)
  with api_get_handle [of pp q] show ?thesis by simp
qed

lemma api_listed_handle:
  assumes "api_processes S = Some (Ok xs)" "Ok p \<in> set xs"
  shows "api_get S (api_pid S p) = Ok p \<and> api_is_running S p = Ok True"
proof -
  obtain ys where ys: "sys_processes S = Some (Ok ys)" "xs = map (map_ok Wrap) ys"
    using assms(1) by (auto simp: api_processes_def)
  then obtain y where "Ok y \<in> set ys" "p = Wrap y" using assms(2) map_ok_member by metis
  then have "api_get S (api_pid S p) = Ok p" using listed [OF ys(1)] by (simp add: api_get_def api_pid_def)
  then show ?thesis using api_get_handle(2) by blast
qed

end

lemma and_then_member: "Ok p \<in> set (map (\<lambda>x. and_then (f x) g) ys) \<Longrightarrow> \<exists>y. g y = Ok p"
proof -
  assume "Ok p \<in> set (map (\<lambda>x. and_then (f x) g) ys)"
  then obtain x where "Ok p = and_then (f x) g" by auto
  then have "and_then (f x) g = Ok p" by (rule sym)
  then show ?thesis by auto
qed

lemma linux_processes_get:
  fixes h :: "'h unix_host_scheme"
  shows "processes h = Ok xs \<Longrightarrow> Ok p \<in> set xs \<Longrightarrow> Process_get h (proc_pid p) = Ok p"
proof -
  assume "processes h = Ok xs" "Ok p \<in> set xs"
  then obtain pid where "Process_get h pid = Ok p"
    by (auto simp: processes_def simp del: set_map dest!: and_then_member)
  then show "Process_get h (proc_pid p) = Ok p" using linux_handle.get_id by fastforce
qed

interpretation linux_api: process_sys "linux_sys race ticks us u" for race ticks us u
  by unfold_locales
     (auto simp: linux_sys_def linux_handle.running_fresh linux_processes_get dest: linux_handle.get_id)

lemma macos_processes_get:
  "macos_processes da d answers = Some (Ok xs) \<Longrightarrow> Ok p \<in> set xs \<Longrightarrow> macos_process_get d (mp_pid p) = Ok p"
proof -
  assume "macos_processes da d answers = Some (Ok xs)" "Ok p \<in> set xs"
  then obtain pid where "macos_process_get d pid = Ok p"
    by (auto simp: macos_processes_def simp del: set_map dest!: and_then_member)
  then show "macos_process_get d (mp_pid p) = Ok p" using macos_handle.get_id by fastforce
qed

interpretation macos_api: process_sys "macos_sys race da oc be ticks us answers d" for race da oc be ticks us answers d
  by unfold_locales
     (auto simp: macos_sys_def macos_handle.running_fresh macos_processes_get dest: macos_handle.get_id)

text \<open>
  On macOS as on Linux: every process the public interface lists is running, \<open>get\<close> with its id gives the
  same handle, and its parent, if it has one, is the handle \<open>get\<close> gives for the id of the parent.
\<close>

theorem macos_api_handles_agree:
  assumes "api_processes (macos_sys race da oc be ticks us answers d) = Some (Ok xs)" "Ok p \<in> set xs"
  shows "let S = macos_sys race da oc be ticks us answers d in
    api_get S (api_pid S p) = Ok p \<and> api_is_running S p = Ok True \<and>
    (\<forall>q. api_parent S p = Ok q \<longrightarrow> api_parent_pid S p = Ok (api_pid S q) \<and> api_get S (api_pid S q) = Ok q)"
  using macos_api.api_listed_handle [OF assms] unfolding Let_def by (blast dest: macos_api.api_parent_handle)

section \<open>The interface and the process table of Linux\<close>

text \<open>
  The process table the kernel shows: a stat line for every process there is, and no file for any other
  id; the clock and the boot time can be read.
\<close>

definition proc_table :: "'h unix_host_scheme \<Rightarrow> (pid \<Rightarrow> stat_line option) \<Rightarrow> u64 \<Rightarrow> nat \<Rightarrow> bool" where
  "proc_table u T clk b \<longleftrightarrow>
     CLOCK_TICKS u = Ok clk \<and> seconds_base u \<and> boot_time u = Ok (Fin (of_nat b)) \<and>
     (\<forall>pid. case T pid of
        Some l \<Rightarrow> stat_line_ok l \<and> read_to_string u (process_file_path u pid ''stat'') = Inr (render_stat l)
      | None \<Rightarrow> \<exists>e. read_to_string u (process_file_path u pid ''stat'') = Inl e \<and> io_kind e = NotFound)"

lemma proc_table_clock:
  assumes "proc_table u T clk b"
  shows "CLOCK_TICKS u = Ok clk" "seconds_base u" "boot_time u = Ok (Fin (of_nat b))"
  using assms by (simp_all add: proc_table_def)

lemma proc_table_None:
  assumes "proc_table u T clk b" "T pid = None"
  shows "\<exists>e. read_to_string u (process_file_path u pid ''stat'') = Inl e \<and> io_kind e = NotFound"
proof -
  have "case T pid of
      Some l \<Rightarrow> stat_line_ok l \<and> read_to_string u (process_file_path u pid ''stat'') = Inr (render_stat l)
    | None \<Rightarrow> \<exists>e. read_to_string u (process_file_path u pid ''stat'') = Inl e \<and> io_kind e = NotFound"
    using assms(1) unfolding proc_table_def by blast
  then show ?thesis using assms(2) by simp
qed

lemma proc_table_Some:
  assumes "proc_table u T clk b" "T pid = Some l"
  shows "stat_line_ok l" "read_to_string u (process_file_path u pid ''stat'') = Inr (render_stat l)"
proof -
  have "case T pid of
      Some l \<Rightarrow> stat_line_ok l \<and> read_to_string u (process_file_path u pid ''stat'') = Inr (render_stat l)
    | None \<Rightarrow> \<exists>e. read_to_string u (process_file_path u pid ''stat'') = Inl e \<and> io_kind e = NotFound"
    using assms(1) unfolding proc_table_def by blast
  then show "stat_line_ok l" "read_to_string u (process_file_path u pid ''stat'') = Inr (render_stat l)"
    using assms(2) by simp_all
qed

text \<open>The handle of an entry, and the abstract operations on a table.\<close>

definition table_handle :: "u64 \<Rightarrow> nat \<Rightarrow> pid \<Rightarrow> stat_line \<Rightarrow> process" where
  "table_handle clk b pid l =
     \<lparr>proc_pid = pid, proc_unique_id = \<lparr>uid_pid = pid, uid_create_time = created (sl_start l) clk b\<rparr>\<rparr>"

definition table_get :: "(pid \<Rightarrow> stat_line option) \<Rightarrow> u64 \<Rightarrow> nat \<Rightarrow> pid \<Rightarrow> (process wrapped, process_error) outcome" where
  "table_get T clk b pid =
     (case T pid of None \<Rightarrow> Err (NoSuchProcess pid) | Some l \<Rightarrow> Ok (Wrap (table_handle clk b pid l)))"

lemma table_stat_read:
  assumes "proc_table u T clk b"
  shows "case T pid of
      None \<Rightarrow> stat_read u pid = Err (NoSuchProcess pid)
    | Some l \<Rightarrow> \<exists>st. stat_read u pid = Ok st \<and> stat_ppid st = sl_ppid l \<and>
        Status_try_from_char [sl_state l] = Ok (stat_state st) \<and> stat_name st = sl_comm l"
proof (cases "T pid")
  case None
  then obtain e where "read_to_string u (process_file_path u pid ''stat'') = Inl e" "io_kind e = NotFound"
    using proc_table_None [OF assms] by blast
  then show ?thesis by (simp add: None stat_read_def)
next
  case (Some l)
  note l = proc_table_Some [OF assms Some] and u = proc_table_clock [OF assms]
  from Stat_line_lemma [OF l(1) u(1)] l(2) u(3) show ?thesis
    by (auto simp: Some stat_read_def Let_def)
qed

lemma table_Process_get:
  assumes "proc_table u T clk b"
  shows "Process_get u pid =
    (case T pid of None \<Rightarrow> Err (NoSuchProcess pid) | Some l \<Rightarrow> Ok (table_handle clk b pid l))"
proof (cases "T pid")
  case None
  then show ?thesis using table_stat_read [OF assms, of pid] by (simp add: Process_get_def)
next
  case (Some l)
  note l = proc_table_Some [OF assms Some]
  show ?thesis
    using Process_get_line [OF l(2,1) proc_table_clock [OF assms]] by (simp add: Some table_handle_def)
qed

text \<open>
  (C3) The public interface on Linux refines the process table: \<open>get\<close> gives a handle exactly for the ids of
  the table; the parent of a process is the entry its line names, and an error when that entry is gone;
  \<open>is_running\<close> compares the start with that of the entry, but for an id that is not in the table it is
  an error and not false; and the processes listed are the entries named in the process directory, in its
  order.
\<close>

theorem api_refines_table:
  fixes u :: "'h unix_host_scheme"
  assumes "proc_table u T clk b" "dir_entries u (procfs u) = Inr (map dir_entry xs)"
    and "\<forall>n. OtherName n \<in> set xs \<longrightarrow> \<not> is_ok (parse_i32 n)"
  shows "let S = linux_sys race ticks us u in
    (\<forall>pid. api_get S pid = table_get T clk b pid) \<and>
    (\<forall>p. api_parent S p = (case T (api_pid S p) of
        None \<Rightarrow> Err (NoSuchProcess (api_pid S p))
      | Some l \<Rightarrow> table_get T clk b (sl_ppid l))) \<and>
    (\<forall>p. uid_create_time (proc_unique_id (as_ref p)) \<noteq> NaN \<longrightarrow> uid_pid (proc_unique_id (as_ref p)) = api_pid S p \<longrightarrow>
      api_is_running S p = (case T (api_pid S p) of
        None \<Rightarrow> Err (NoSuchProcess (api_pid S p))
      | Some l \<Rightarrow> Ok (created (sl_start l) clk b = uid_create_time (proc_unique_id (as_ref p))))) \<and>
    api_processes S = Some (Ok (concat (map (\<lambda>x. case x of
        PidName pid \<Rightarrow> [table_get T clk b pid]
      | OtherName n \<Rightarrow> []
      | Unreadable e \<Rightarrow> [Err (Load (Error_from_io e))]) xs)))"
proof -
  let ?S = "linux_sys race ticks us u"
  have get: "api_get ?S pid = table_get T clk b pid" for pid
    using table_Process_get [OF assms(1), of pid]
    by (simp add: api_get_def linux_sys_def table_get_def split: option.splits)
  have parent: "api_parent ?S p = (case T (api_pid ?S p) of
      None \<Rightarrow> Err (NoSuchProcess (api_pid ?S p)) | Some l \<Rightarrow> table_get T clk b (sl_ppid l))" for p
    using table_stat_read [OF assms(1), of "api_pid ?S p"] get
    by (auto simp: api_parent_def api_parent_pid_def api_pid_def linux_sys_def Process_parent_pid_def split: option.splits)
  have running: "api_is_running ?S p = (case T (api_pid ?S p) of
        None \<Rightarrow> Err (NoSuchProcess (api_pid ?S p))
      | Some l \<Rightarrow> Ok (created (sl_start l) clk b = uid_create_time (proc_unique_id (as_ref p))))"
    if "uid_create_time (proc_unique_id (as_ref p)) \<noteq> NaN" "uid_pid (proc_unique_id (as_ref p)) = api_pid ?S p" for p
  proof (cases "T (api_pid ?S p)")
    case None
    then show ?thesis using table_Process_get [OF assms(1), of "api_pid ?S p"]
      by (simp add: api_is_running_def api_pid_def linux_sys_def Process_is_running_def)
  next
    case (Some l)
    then have g: "Process_get u (api_pid ?S p) = Ok (table_handle clk b (api_pid ?S p) l)"
      using table_Process_get [OF assms(1), of "api_pid ?S p"] by simp
    have "uid_create_time (proc_unique_id (table_handle clk b (api_pid ?S p) l)) \<noteq> NaN"
      using linux_handle.get_id [OF g] by simp
    then show ?thesis using g that Some
      by (simp add: api_is_running_def api_pid_def linux_sys_def Process_is_running_def Process_eq_def UniqueId_eq_def
          table_handle_def f_eq_iff)
  qed
  have "map_ok Wrap (and_then (load x) (Process_get u)) =
      (case x of Ok pid \<Rightarrow> table_get T clk b pid | Err e \<Rightarrow> Err (Load e) | Panic \<Rightarrow> Panic)"
    for x :: "(pid, heim_error) outcome"
    using get by (cases x) (simp_all add: api_get_def linux_sys_def)
  then have "api_processes ?S = Some (Ok (map (\<lambda>x. case x of
      Ok pid \<Rightarrow> table_get T clk b pid | Err e \<Rightarrow> Err (Load e) | Panic \<Rightarrow> Panic) (concat (map pid_item xs))))"
    using pids_listing [OF assms(2,3)] by (simp add: api_processes_def linux_sys_def processes_def o_def)
  moreover have "map (\<lambda>x. case x of Ok pid \<Rightarrow> table_get T clk b pid | Err e \<Rightarrow> Err (Load e) | Panic \<Rightarrow> Panic)
      (concat (map pid_item xs)) = concat (map (\<lambda>x. case x of
        PidName pid \<Rightarrow> [table_get T clk b pid] | OtherName n \<Rightarrow> [] | Unreadable e \<Rightarrow> [Err (Load (Error_from_io e))]) xs)"
    by (induction xs) (auto split: dir_item.splits)
  ultimately show ?thesis using get parent running unfolding Let_def by auto
qed

text \<open>A system of two processes, 42 and its parent 7, whose own parent is gone.\<close>

definition tree_table :: "pid \<Rightarrow> stat_line option" where
  "tree_table pid =
     (if pid = 42 then Some (sample_stat\<lparr>sl_ppid := 7\<rparr>)
      else if pid = 7 then Some (sample_stat\<lparr>sl_ppid := 3, sl_start := 500\<rparr>) else None)"

definition stat_path :: "pid \<Rightarrow> path" where
  "stat_path pid = ''/proc/'' @ show_i32 pid @ ''/stat''"

definition tree_host :: unix_host where
  "tree_host = sample_unix\<lparr>
     file_data := \<lambda>p.
       if p = stat_path 42 then Inr (render_stat (the (tree_table 42)))
       else if p = stat_path 7 then Inr (render_stat (the (tree_table 7)))
       else if p = ''/proc/stat'' then Inr (''btime '' @ show_nat 1570 @ [NL])
       else Inl (Os 2),
     dir_entries := \<lambda>_. Inr (map dir_entry [PidName 7, OtherName ''self'', PidName 42, PidName 9])\<rparr>"

lemma tree_host_simps:
  "CLOCK_TICKS tree_host = Ok 100" "procfs tree_host = ''/proc''" "seconds_base tree_host"
  by (simp_all add: tree_host_def sample_unix_def sample_host_def host.extend_def CLOCK_TICKS_def
      clock_ticks_def Let_def seconds_base_def)

lemma digit_char_neq_slash: "d < 10 \<Longrightarrow> digit_char d \<noteq> CHR ''/''"
  using byte_digit_char [of d] by (auto simp: byte_def)

lemma minus_neq_slash: "CHR ''/'' \<noteq> CHR ''-''"
  by simp

lemma show_i32_slash: "starts_with (show_i32 pid) ''/'' = False" "show_i32 pid \<noteq> []" "last (show_i32 pid) \<noteq> CHR ''/''"
proof -
  have no: "CHR ''/'' \<notin> set (show_i32 pid)" using show_i32_chars [of "CHR ''/''" pid] minus_neq_slash digit_char_neq_slash by metis
  moreover show "show_i32 pid \<noteq> []" using token_show_i32 [of pid] by (auto simp: token_def)
  ultimately show "last (show_i32 pid) \<noteq> CHR ''/''" using last_in_set by metis
  show "starts_with (show_i32 pid) ''/'' = False"
    using no by (cases "show_i32 pid") (auto simp: starts_with_def)
qed

lemma tree_host_path: "process_file_path tree_host pid ''stat'' = stat_path pid"
  using show_i32_slash [of pid]
  by (simp add: process_file_path_def tree_host_simps join_path_def stat_path_def starts_with_def)

lemma stat_path_eq: "stat_path a = stat_path b \<longleftrightarrow> a = b"
proof
  assume "stat_path a = stat_path b"
  then have "parse_i32 (show_i32 a) = parse_i32 (show_i32 b)" by (simp add: stat_path_def)
  then show "a = b" by simp
qed simp

lemma stat_path_ne: "stat_path a \<noteq> ''/proc/stat''"
  using arg_cong [of "stat_path a" "''/proc/stat''" length] by (auto simp: stat_path_def)

lemma tree_file:
  "file_data tree_host (stat_path pid) = (case tree_table pid of Some l \<Rightarrow> Inr (render_stat l) | None \<Rightarrow> Inl (Os 2))"
  using stat_path_ne [of pid] by (simp add: tree_host_def stat_path_eq tree_table_def)

lemma tree_boot_time: "boot_time tree_host = Ok (Fin (of_nat 1570))"
  using stat_path_ne by (intro btime_boot_time tree_host_simps) (simp_all add: tree_host_def stat_path_ne [symmetric])

lemma tree_is_table: "proc_table tree_host tree_table 100 1570"
proof -
  have "stat_line_ok (sample_stat\<lparr>sl_ppid := 7\<rparr>)" "stat_line_ok (sample_stat\<lparr>sl_ppid := 3, sl_start := 500\<rparr>)"
    using sample_stat_ok by (simp_all add: stat_line_ok_def)
  moreover have "utf8_valid (render_stat (sample_stat\<lparr>sl_ppid := 7\<rparr>))"
      "utf8_valid (render_stat (sample_stat\<lparr>sl_ppid := 3, sl_start := 500\<rparr>))"
    by (simp_all add: render_stat_def stat_tokens_def sample_stat_def utf8_valid_numbers utf8_valid_ascii_Cons byte_def)
  ultimately show ?thesis
    unfolding proc_table_def tree_host_path
    by (auto simp: tree_host_simps tree_boot_time read_to_string_def tree_file tree_table_def utf8_checked_ok
        decode_error_kind_def)
qed

theorem api_refines_table_witness:
  "let S = linux_sys True (\<lambda>_. True) (\<lambda>_. tree_host) tree_host; p = Wrap (table_handle 100 1570 42 (the (tree_table 42))) in
    api_get S 42 = Ok p \<and> api_is_running S p = Ok True \<and>
    api_parent S p = Ok (Wrap (table_handle 100 1570 7 (the (tree_table 7)))) \<and>
    api_parent S (Wrap (table_handle 100 1570 7 (the (tree_table 7)))) = Err (NoSuchProcess 3) \<and>
    api_processes S = Some (Ok [Ok (Wrap (table_handle 100 1570 7 (the (tree_table 7)))), Ok p, Err (NoSuchProcess 9)])"
proof -
  have dirs: "dir_entries tree_host (procfs tree_host) =
      Inr (map dir_entry [PidName 7, OtherName ''self'', PidName 42, PidName 9])"
    by (simp add: tree_host_def)
  have self: "\<not> is_ok (parse_i32 ''self'')" by code_simp
  have g: "Process_get tree_host 42 = Ok (table_handle 100 1570 42 (the (tree_table 42)))"
    using table_Process_get [OF tree_is_table, of 42] by (simp add: tree_table_def)
  have id: "uid_create_time (proc_unique_id (table_handle 100 1570 42 (the (tree_table 42)))) \<noteq> NaN"
    using linux_handle.get_id [OF g] by simp
  have names: "\<forall>n. OtherName n \<in> set [PidName 7, OtherName ''self'', PidName 42, PidName 9] \<longrightarrow> \<not> is_ok (parse_i32 n)"
    using self by auto
  define S where "S = linux_sys True (\<lambda>_. True) (\<lambda>_. tree_host) tree_host"
  have pid: "api_pid S (Wrap (table_handle 100 1570 q l)) = q" for q l
    by (simp add: S_def api_pid_def linux_sys_def table_handle_def)
  have own: "uid_pid (proc_unique_id (table_handle 100 1570 q l)) = q"
    "uid_create_time (proc_unique_id (table_handle 100 1570 q l)) = created (sl_start l) 100 1570" for q l
    by (simp_all add: table_handle_def)
  have T: "tree_table 42 = Some (sample_stat\<lparr>sl_ppid := 7\<rparr>)" "tree_table 7 = Some (sample_stat\<lparr>sl_ppid := 3, sl_start := 500\<rparr>)"
      "tree_table 3 = None" "tree_table 9 = None"
    by (simp_all add: tree_table_def)
  note R = api_refines_table [OF tree_is_table dirs names, of True "\<lambda>_. True" "\<lambda>_. tree_host", unfolded Let_def, folded S_def]
  from R have get: "\<And>q. api_get S q = table_get tree_table 100 1570 q"
    and parent: "\<And>p. api_parent S p = (case tree_table (api_pid S p) of
        None \<Rightarrow> Err (NoSuchProcess (api_pid S p)) | Some l \<Rightarrow> table_get tree_table 100 1570 (sl_ppid l))"
    and listed: "api_processes S = Some (Ok (concat (map (\<lambda>x. case x of
        PidName pid \<Rightarrow> [table_get tree_table 100 1570 pid] | OtherName n \<Rightarrow> [] | Unreadable e \<Rightarrow> [Err (Load (Error_from_io e))])
        [PidName 7, OtherName ''self'', PidName 42, PidName 9])))"
    by blast+
  have "api_is_running S (Wrap (table_handle 100 1570 42 (the (tree_table 42)))) = Ok True"
    using R id by (simp add: pid own T)
  then show ?thesis
    unfolding Let_def S_def [symmetric] by (simp add: get parent listed pid table_get_def T)
qed

section \<open>The environment through the public iterators\<close>

lemma api_env_loop_all: "api_env_loop (Wrap kvs) seen = Some (seen @ kvs)"
proof (induction kvs arbitrary: seen)
  case Nil
  show ?case by (subst api_env_loop.simps) (simp add: api_EnvironmentIter_next_def EnvironmentIter_next_def)
next
  case (Cons kv kvs)
  then show ?case
    by (subst api_env_loop.simps) (simp add: api_EnvironmentIter_next_def EnvironmentIter_next_def)
qed

text \<open>
  (C15) From the file to the loop over the public iterator: the environment of a process on Linux is the list of
  variables the kernel prints, in order, with keys and values as they are, up to an empty piece where
  parsing stops; the iterator ends after them and announces their exact number. A process without the
  file is reported as gone, one whose file may not be read as denied.
\<close>

theorem api_environment_variables:
  fixes u :: "'h unix_host_scheme"
  assumes "file_data u (process_file_path u (proc_pid p) ''environ'') = answer"
  shows "let S = linux_sys race ticks us u in
    (\<forall>env tail. answer = Inr (render_env env @ tail) \<and> list_all env_ok env \<and> (tail = [] \<or> hd tail = NUL) \<longrightarrow>
      (\<exists>e. api_environment S (Wrap p) = Some (Ok e) \<and> api_env_loop (api_Environment_iter e) [] = Some env \<and>
        api_EnvironmentIter_size_hint (api_Environment_iter e) = (length env, Some (length env)))) \<and>
    (\<forall>err. answer = Inl err \<and> io_kind err = NotFound \<longrightarrow>
      api_environment S (Wrap p) = Some (Err (NoSuchProcess (proc_pid p)))) \<and>
    (\<forall>err. answer = Inl err \<and> io_kind err = PermissionDenied \<longrightarrow>
      api_environment S (Wrap p) = Some (Err (AccessDenied (proc_pid p))))"
proof -
  have parse: "Environment_from_bytes (render_env env @ tail) = Some (Ok env)"
    if "list_all env_ok env" "tail = [] \<or> hd tail = NUL" for env tail
    using env_spec_render [OF that] by (simp add: Environment_from_bytes_def from_bytes_loop_spec)
  have parse_all: "Environment_from_bytes (render_env env) = Some (Ok env)" if "list_all env_ok env" for env
    using parse [OF that, of "[]"] by simp
  show ?thesis
    using assms
    by (auto simp: parse parse_all api_env_loop_all Let_def api_environment_def linux_sys_def Process_environment_def environment_read_def
        api_Environment_iter_def api_EnvironmentIter_size_hint_def EnvironmentIter_size_hint_def)
qed

theorem api_environment_variables_witness:
  "\<exists>e. api_environment (linux_sys True (\<lambda>_. True) (\<lambda>_. sample_unix)
      (sample_unix\<lparr>file_data := \<lambda>_. Inr (render_env [(''A'', ''1=2''), (''B'', [])])\<rparr>)) (Wrap (table_handle 100 0 42 sample_stat)) =
      Some (Ok e) \<and>
    api_env_loop (api_Environment_iter e) [] = Some [(''A'', ''1=2''), (''B'', [])]"
proof -
  let ?env = "[(''A'', ''1=2''), (''B'', [])]"
  let ?u = "sample_unix\<lparr>file_data := \<lambda>_. Inr (render_env ?env)\<rparr>" and ?p = "table_handle 100 0 42 sample_stat"
  have data: "file_data ?u (process_file_path ?u (proc_pid ?p) ''environ'') = Inr (render_env ?env @ [])" by simp
  have "list_all env_ok ?env" by (simp add: env_ok_def)
  with api_environment_variables [OF data, of True "\<lambda>_. True" "\<lambda>_. sample_unix"] show ?thesis
    unfolding Let_def by blast
qed

section \<open>CPU usage\<close>

text \<open>
  The CPU usage has the time of the process and the number of processors when both can be had; otherwise it fails with the error of one of them, and it panics only when one of
  them does. Two usages taken at the same instant have the ratio 0, not a quotient by zero.
\<close>

theorem api_cpu_usage_cases:
  "(api_cpu_usage S p = Ok c \<longleftrightarrow> api_cpu_time S p = Ok (pu_time c) \<and> sys_logical_count S = Ok (pu_count c)) \<and>
   (\<forall>e. api_cpu_usage S p = Err e \<longrightarrow> api_cpu_time S p = Err e \<or> load (sys_logical_count S) = Err e) \<and>
   (api_cpu_usage S p = Panic \<longrightarrow> api_cpu_time S p = Panic \<or> sys_logical_count S = Panic) \<and>
   api_CpuUsage_sub h S (Fin 0) self rhs = Ratio_new h (Fin 0)"
proof -
  have "(\<exists>x. sys_logical_count S = Ok x \<and> c = \<lparr>pu_count = x, pu_time = t\<rparr>) \<longleftrightarrow> sys_logical_count S = Ok (pu_count c) \<and> t = pu_time c"
    for t by (cases c) auto
  moreover have "f_mul rnd64 (Fin 0) (f64_of_u64 n) = Fin 0" for n
    using f64_of_u64_Fin [of n] rnd64_of_nat_exact [of 0] by auto
  ultimately show ?thesis
    by (cases "api_cpu_time S p"; cases "sys_logical_count S")
       (auto simp: api_cpu_usage_def api_CpuUsage_sub_def Let_def split: if_splits)
qed

end
