(* ===== verification/Net_Windows.thy ===== *)
theory Net_Windows
  imports Process_Windows Net_Linux
begin

text \<open>
  \<open>heim-net\<close> on Windows: the network interfaces of \<open>sys/windows/nic.rs\<close>, read from the linked lists that
  \<open>GetAdaptersAddresses\<close> builds in a buffer, and the stub of the counters, \<open>sys/windows/counters.rs\<close>.

  The memory is a partial map from addresses to cells; address zero is null. Reading an address that
  holds no cell is the outcome \<open>Fault\<close>: the process dies of an access violation, which is no panic.

  The theorems: from well-formed lists, every address of every adapter becomes an interface, in order,
  with the mask of its prefix length; an adapter without an address is a fault; a mask of length \<open>n\<close> has
  exactly its \<open>n\<close> leading bits set; a port comes out with its two bytes swapped, or panics.
\<close>

unbundle bit_operations_syntax

section \<open>Memory\<close>

datatype ('a, 'e) run = Done "('a, 'e) outcome" | Fault

record sockaddr =
  sa_family :: u16
  sa_data :: "u8 list"

record unicast_address =
  lpSockaddr :: u64
  iSockaddrLength :: i32
  OnLinkPrefixLength :: u8
  ua_Next :: u64

record adapter =
  IfIndex :: u32
  AdapterName :: bytes
  FriendlyName :: wide
  FirstUnicastAddress :: u64
  OperStatus :: i32
  ad_Next :: u64

record net_memory =
  adapter_at :: "u64 \<Rightarrow> adapter option"
  unicast_at :: "u64 \<Rightarrow> unicast_address option"
  sockaddr_at :: "u64 \<Rightarrow> sockaddr option"

text \<open>
  The constants of \<open>winapi\<close> and the two calls: their result and, for the first, the size it asks for;
  for the second, the address of the buffer and the memory after the call.
\<close>

record win_net_api =
  net_AF_INET :: i32
  net_AF_INET6 :: i32
  IfOperStatusUp :: i32
  ERROR_BUFFER_OVERFLOW :: u32
  NO_ERROR :: u32
  adapters_dry :: "u32 \<times> u32"
  adapters_fill :: "u32 \<Rightarrow> u32 \<times> u64 \<times> net_memory"

section \<open>Addresses and masks\<close>

type_synonym socket_v4 = "u8 list \<times> u16"
type_synonym socket_v6 = "u8 list \<times> u16 \<times> u32 \<times> u32"
type_synonym win_address = "(socket_v4, socket_v6, unit) address"

text \<open>
  The bytes behind the family are signed characters, so that their conversion to \<open>u16\<close> extends the sign.
\<close>

definition sockaddr_to_ipv4 :: "bool \<Rightarrow> unicast_address \<Rightarrow> sockaddr \<Rightarrow> (win_address option, 'e) outcome" where
  "sockaddr_to_ipv4 oc ua sa =
     (if unat (scast (iSockaddrLength ua) :: u64) < 16 then Ok None
      else if lpSockaddr ua = 0 then Ok None
      else
        let arr = sa_data sa; low = scast (arr ! 0) :: u16; high = scast (arr ! 1) :: u16 in
        if oc \<and> (2 ^ 16 \<le> unat high * 0x100 \<or> 2 ^ 16 \<le> unat low + unat (high * 0x100)) then Panic
        else Ok (Some (Inet ([arr ! 2, arr ! 3, arr ! 4, arr ! 5], low + high * 0x100))))"

text \<open>A little-endian number in memory; Windows runs on no other machines.\<close>

fun le_value :: "u8 list \<Rightarrow> nat" where
  "le_value [] = 0"
| "le_value (b # bs) = unat b + 256 * le_value bs"

definition sockaddr_to_ipv6 :: "unicast_address \<Rightarrow> sockaddr \<Rightarrow> win_address option" where
  "sockaddr_to_ipv6 ua sa =
     (if unat (scast (iSockaddrLength ua) :: u64) < 28 then None
      else if lpSockaddr ua = 0 then None
      else
        let arr = sa_data sa;
            port = of_nat (le_value (take 2 arr));
            flow_info = of_nat (le_value (take 4 (drop 2 arr)));
            ip6 = take 16 (drop 6 arr);
            scope_id = of_nat (le_value (take 4 (drop 22 arr)))
        in Some (Inet6 (ip6, port, flow_info, scope_id)))"

text \<open>\<open>checked_shl\<close>: no value when the distance is the width or more.\<close>

definition checked_shl :: "'a::len word \<Rightarrow> nat \<Rightarrow> 'a word option" where
  "checked_shl w n = (if n < LENGTH('a) then Some (push_bit n w) else None)"

definition ipv4_mask :: "u8 \<Rightarrow> u32" where
  "ipv4_mask len =
     (if unat len \<le> 32 then (case checked_shl (- 1) (32 - unat len) of Some m \<Rightarrow> m | None \<Rightarrow> 0) else - 1)"

definition ipv4_netmask_from :: "u8 \<Rightarrow> u8 list" where
  "ipv4_netmask_from len = be_octets 4 (unat (ipv4_mask len))"

definition ipv6_mask :: "u8 \<Rightarrow> 128 word" where
  "ipv6_mask len =
     (if unat len \<le> 128 then (case checked_shl (- 1) (128 - unat len) of Some m \<Rightarrow> m | None \<Rightarrow> 0) else - 1)"

definition ipv6_netmask_from :: "u8 \<Rightarrow> u8 list" where
  "ipv6_netmask_from len = be_octets 16 (unat (ipv6_mask len))"

definition ipv4_netmask_address_from :: "u8 \<Rightarrow> win_address" where
  "ipv4_netmask_address_from len = Inet (ipv4_netmask_from len, 0)"

definition ipv6_netmask_address_from :: "u8 \<Rightarrow> win_address" where
  "ipv6_netmask_address_from len = Inet6 (ipv6_netmask_from len, 0, 0, 0)"

section \<open>Interfaces\<close>

record win_nic =
  wn_index :: u32
  wn_guid :: string
  wn_friendly_name :: string
  wn_is_up :: bool
  wn_address :: "win_address option"
  wn_netmask :: "win_address option"

definition WinNic_address :: "win_nic \<Rightarrow> win_address" where
  "WinNic_address n = (case wn_address n of Some a \<Rightarrow> a | None \<Rightarrow> Inet ([0, 0, 0, 0], 0))"

definition WinNic_index :: "win_nic \<Rightarrow> u32 option" where
  "WinNic_index n = Some (wn_index n)"

definition WinNic_destination :: "win_nic \<Rightarrow> win_address option" where
  "WinNic_destination n = None"

definition WinNic_is_running :: "win_nic \<Rightarrow> bool" where
  "WinNic_is_running n = True"

text \<open>The predicates of \<open>std::net\<close> on octets.\<close>

definition ipv6_loopback :: "u8 list" where
  "ipv6_loopback = replicate 15 0 @ [1]"

definition WinNic_is_loopback :: "win_nic \<Rightarrow> bool" where
  "WinNic_is_loopback n =
     (case wn_address n of
        Some (Inet (ip, _)) \<Rightarrow> ip ! 0 = 127
      | Some (Inet6 (ip, _)) \<Rightarrow> ip = ipv6_loopback
      | _ \<Rightarrow> False)"

definition WinNic_is_multicast :: "win_nic \<Rightarrow> bool" where
  "WinNic_is_multicast n =
     (case wn_address n of
        Some (Inet (ip, _)) \<Rightarrow> 224 \<le> ip ! 0 \<and> ip ! 0 \<le> 239
      | Some (Inet6 (ip, _)) \<Rightarrow> ip ! 0 = 255
      | _ \<Rightarrow> False)"

definition base_nic :: "win_net_api \<Rightarrow> adapter \<Rightarrow> win_nic" where
  "base_nic c iface =
     (let guid = CStr_from_ptr (AdapterName iface)
      in \<lparr>wn_index = IfIndex iface, wn_guid = (if utf8_valid guid then guid else []),
          wn_friendly_name = utf16_lossy (takeWhile (\<lambda>u. u \<noteq> 0) (FriendlyName iface)),
          wn_is_up = (OperStatus iface = IfOperStatusUp c), wn_address = None, wn_netmask = None\<rparr>)"

text \<open>The address and the mask of one entry, by its family.\<close>

definition this_nic ::
    "bool \<Rightarrow> win_net_api \<Rightarrow> win_nic \<Rightarrow> unicast_address \<Rightarrow> sockaddr \<Rightarrow> (win_nic, heim_error) outcome" where
  "this_nic oc c base ua sa =
     (let family = ucast (sa_family sa) :: i32 in
      if family = net_AF_INET c then
        map_ok (\<lambda>a. base\<lparr>wn_address := a, wn_netmask := Some (ipv4_netmask_address_from (OnLinkPrefixLength ua))\<rparr>)
          (sockaddr_to_ipv4 oc ua sa)
      else if family = net_AF_INET6 c then
        Ok (base\<lparr>wn_address := sockaddr_to_ipv6 ua sa,
                 wn_netmask := Some (ipv6_netmask_address_from (OnLinkPrefixLength ua))\<rparr>)
      else Ok (base\<lparr>wn_address := None, wn_netmask := None\<rparr>))"

text \<open>The loop over the addresses of one adapter; \<open>None\<close> is a list that never ends.\<close>

partial_function (option) addresses_loop ::
    "bool \<Rightarrow> win_net_api \<Rightarrow> net_memory \<Rightarrow> win_nic \<Rightarrow> unicast_address \<Rightarrow> win_nic list
      \<Rightarrow> (win_nic list, heim_error) run option" where
  "addresses_loop oc c m base cur results =
     (case sockaddr_at m (lpSockaddr cur) of
        None \<Rightarrow> Some Fault
      | Some sa \<Rightarrow>
          (case this_nic oc c base cur sa of
             Ok n \<Rightarrow>
               (if ua_Next cur = 0 then Some (Done (Ok (results @ [n])))
                else
                  (case unicast_at m (ua_Next cur) of
                     None \<Rightarrow> Some Fault
                   | Some cur' \<Rightarrow> addresses_loop oc c m base cur' (results @ [n])))
           | Err e \<Rightarrow> Some (Done (Err e))
           | Panic \<Rightarrow> Some (Done Panic)))"

declare addresses_loop.simps [code]

text \<open>The loop over the adapters. The first address of an adapter is read without a check.\<close>

partial_function (option) adapters_loop ::
    "bool \<Rightarrow> win_net_api \<Rightarrow> net_memory \<Rightarrow> adapter \<Rightarrow> win_nic list \<Rightarrow> (win_nic list, heim_error) run option" where
  "adapters_loop oc c m iface results =
     (case unicast_at m (FirstUnicastAddress iface) of
        None \<Rightarrow> Some Fault
      | Some cur \<Rightarrow>
          (case addresses_loop oc c m (base_nic c iface) cur results of
             Some (Done (Ok results')) \<Rightarrow>
               (if ad_Next iface = 0 then Some (Done (Ok results'))
                else
                  (case adapter_at m (ad_Next iface) of
                     None \<Rightarrow> Some Fault
                   | Some iface' \<Rightarrow> adapters_loop oc c m iface' results'))
           | r \<Rightarrow> r))"

declare adapters_loop.simps [code]

definition adapters_error :: "u32 \<Rightarrow> heim_error" where
  "adapters_error res = with_ffi (Error_from_io (Os res)) ''GetAdaptersAddresses''"

definition windows_nic ::
    "bool \<Rightarrow> win_net_api \<Rightarrow> ((win_nic, heim_error) outcome list, heim_error) run option" where
  "windows_nic oc c =
     (case adapters_dry c of (res, data_size) \<Rightarrow>
        if res \<noteq> ERROR_BUFFER_OVERFLOW c then Some (Done (Err (adapters_error res)))
        else
          (case adapters_fill c data_size of (res', p, m) \<Rightarrow>
             if res' \<noteq> NO_ERROR c then Some (Done (Err (adapters_error res')))
             else if p = 0 then Some (Done (Err (adapters_error res')))
             else
               (case adapter_at m p of
                  None \<Rightarrow> Some Fault
                | Some iface \<Rightarrow>
                    (case adapters_loop oc c m iface [] of
                       None \<Rightarrow> None
                     | Some Fault \<Rightarrow> Some Fault
                     | Some (Done (Ok ns)) \<Rightarrow> Some (Done (Ok (map Ok ns)))
                     | Some (Done (Err e)) \<Rightarrow> Some (Done (Err e))
                     | Some (Done Panic) \<Rightarrow> Some (Done Panic)))))"

section \<open>Counters\<close>

text \<open>The counters are a stub: the stream is empty, and every getter is unimplemented.\<close>

definition windows_net_io_counters :: "(('a, heim_error) outcome list, heim_error) outcome" where
  "windows_net_io_counters = Ok []"

definition windows_net_counter :: "unit \<Rightarrow> ('a, 'e) outcome" where
  "windows_net_counter self = Panic"

section \<open>Masks\<close>

lemma shifted_ones:
  "n \<le> LENGTH('a) \<Longrightarrow> (case checked_shl (- 1 :: 'a::len word) n of Some m \<Rightarrow> m | None \<Rightarrow> 0) = push_bit n (- 1)"
  by (auto simp: checked_shl_def)

lemma be_octets_ones: "be_octets k (256 ^ k - 1) = replicate k 255"
proof (induction k)
  case (Suc k)
  define n :: nat where "n = 256 ^ k"
  have "256 ^ Suc k - 1 = (n - 1) * 256 + 255" by (simp add: n_def algebra_simps)
  then have "(256 ^ Suc k - 1) div 256 = n - 1" "(256 ^ Suc k - 1) mod 256 = (255 :: nat)" by simp_all
  with Suc show ?case by (simp add: n_def replicate_append_same del: power_Suc)
qed simp

lemma nth_be_octets:
  "i < k \<Longrightarrow> be_octets k n ! i = (of_nat (n div 256 ^ (k - 1 - i)) :: u8)"
proof (induction k arbitrary: n)
  case (Suc k)
  show ?case
  proof (cases "i = k")
    case True
    then show ?thesis by (simp add: nth_append word_of_nat_eq_iff take_bit_eq_mod)
  next
    case False
    with Suc.prems have i: "i < k" by simp
    then have "k - i = Suc (k - 1 - i)" by simp
    with i Suc.IH [OF i, of "n div 256"] show ?thesis
      by (simp add: nth_append div_mult2_eq)
  qed
qed simp

text \<open>An octet of a word holds eight of its bits, the first octet the highest ones.\<close>

lemma bit_octet:
  fixes m :: "'a::len word"
  assumes "LENGTH('a) = 8 * k" "i < LENGTH('a)"
  shows "bit (be_octets k (unat m) ! (i div 8)) (7 - i mod 8) \<longleftrightarrow> bit m (LENGTH('a) - 1 - i)"
proof -
  have i: "i div 8 < k" using assms by auto
  have pos: "8 * (k - 1 - i div 8) + (7 - i mod 8) = LENGTH('a) - 1 - i"
    using assms i by (simp add: diff_mult_distrib2)
  have "be_octets k (unat m) ! (i div 8) = (of_nat (drop_bit (8 * (k - 1 - i div 8)) (unat m)) :: u8)"
    by (simp add: nth_be_octets [OF i] drop_bit_eq_div power_mult)
  moreover have "7 - i mod 8 < LENGTH(8)" by simp
  ultimately show ?thesis
    by (simp only: bit_of_nat_iff bit_drop_bit_eq comp_def bit_unsigned_iff pos possible_bit_word) (use assms in simp)
qed

text \<open>
  (C39) The masks of Windows: for a valid prefix length the octets are the mask in network order: of the bits of
  the address, read from the first octet on and in each octet from the highest bit on, exactly that many leading ones
  are set. For an invalid length all of them are.
\<close>

theorem netmask_bits:
  "length (ipv4_netmask_from len) = 4 \<and> length (ipv6_netmask_from len) = 16 \<and>
   (\<forall>i<32. bit (ipv4_netmask_from len ! (i div 8)) (7 - i mod 8) \<longleftrightarrow> i < unat len \<or> 32 < unat len) \<and>
   (\<forall>i<128. bit (ipv6_netmask_from len ! (i div 8)) (7 - i mod 8) \<longleftrightarrow> i < unat len \<or> 128 < unat len) \<and>
   (unat len \<le> 32 \<longrightarrow> (\<forall>i. bit (ipv4_mask len) i \<longleftrightarrow> 32 - unat len \<le> i \<and> i < 32)) \<and>
   (unat len \<le> 128 \<longrightarrow> (\<forall>i. bit (ipv6_mask len) i \<longleftrightarrow> 128 - unat len \<le> i \<and> i < 128)) \<and>
   (32 < unat len \<longrightarrow> ipv4_netmask_from len = replicate 4 255) \<and>
   (128 < unat len \<longrightarrow> ipv6_netmask_from len = replicate 16 255)"
proof -
  have v4: "bit (ipv4_mask len) i \<longleftrightarrow> (if 32 < unat len then i < 32 else 32 - unat len \<le> i \<and> i < 32)" for i
    by (auto simp: ipv4_mask_def shifted_ones bit_not_iff bit_mask_iff)
  have v6: "bit (ipv6_mask len) i \<longleftrightarrow> (if 128 < unat len then i < 128 else 128 - unat len \<le> i \<and> i < 128)" for i
    by (auto simp: ipv6_mask_def shifted_ones bit_not_iff bit_mask_iff)
  have o4: "bit (ipv4_netmask_from len ! (i div 8)) (7 - i mod 8) \<longleftrightarrow> i < unat len \<or> 32 < unat len" if "i < 32" for i
    using bit_octet [of 4 i "ipv4_mask len"] that v4 [of "31 - i"] by (auto simp: ipv4_netmask_from_def)
  have o6: "bit (ipv6_netmask_from len ! (i div 8)) (7 - i mod 8) \<longleftrightarrow> i < unat len \<or> 128 < unat len" if "i < 128" for i
    using bit_octet [of 16 i "ipv6_mask len"] that v6 [of "127 - i"] by (auto simp: ipv6_netmask_from_def)
  have "ipv4_netmask_from len = replicate 4 255" if "32 < unat len"
    using that be_octets_ones [of 4] by (simp add: ipv4_netmask_from_def ipv4_mask_def unsigned_minus_1_eq_mask mask_eq_exp_minus_1)
  moreover have "ipv6_netmask_from len = replicate 16 255" if "128 < unat len"
    using that be_octets_ones [of 16] by (simp add: ipv6_netmask_from_def ipv6_mask_def unsigned_minus_1_eq_mask mask_eq_exp_minus_1)
  moreover have "length (ipv4_netmask_from len) = 4" "length (ipv6_netmask_from len) = 16"
    by (simp_all add: ipv4_netmask_from_def ipv6_netmask_from_def)
  ultimately show ?thesis using v4 v6 o4 o6 by (simp add: not_le)
qed

theorem netmask_bits_witness:
  "bit (ipv4_netmask_from 9 ! 0) 7 \<and> bit (ipv4_netmask_from 9 ! 1) 7 \<and> \<not> bit (ipv4_netmask_from 9 ! 1) 6 \<and>
   ipv4_netmask_from 200 = replicate 4 255"
proof -
  have bits: "bit (ipv4_netmask_from 9 ! (i div 8)) (7 - i mod 8) \<longleftrightarrow> i < 9" if "i < 32" for i
    using netmask_bits [of 9] that by simp
  show ?thesis using bits [of 0] bits [of 8] bits [of 9] netmask_bits [of 200] by simp
qed

section \<open>Linked lists\<close>

text \<open>
  \<open>linked cells next p xs\<close>: from the address \<open>p\<close> the cells \<open>xs\<close> follow each other, up to a null pointer.
\<close>

primrec linked :: "(u64 \<Rightarrow> 'c option) \<Rightarrow> ('c \<Rightarrow> u64) \<Rightarrow> u64 \<Rightarrow> 'c list \<Rightarrow> bool" where
  "linked cells nxt p [] \<longleftrightarrow> p = 0"
| "linked cells nxt p (x # xs) \<longleftrightarrow> p \<noteq> 0 \<and> cells p = Some x \<and> linked cells nxt (nxt x) xs"

lemma linked_Cons_iff: "p \<noteq> 0 \<Longrightarrow> linked cells nxt p xs \<longleftrightarrow>
    (\<exists>x ys. xs = x # ys \<and> cells p = Some x \<and> linked cells nxt (nxt x) ys)"
  by (cases xs) auto

lemma linked_null [simp]: "linked cells nxt 0 xs \<longleftrightarrow> xs = []"
  by (cases xs) auto

text \<open>The interface that an entry of an adapter stands for, when reading it does not panic.\<close>

definition entry_nic ::
    "bool \<Rightarrow> win_net_api \<Rightarrow> net_memory \<Rightarrow> adapter \<Rightarrow> unicast_address \<Rightarrow> win_nic option" where
  "entry_nic oc c m iface ua =
     (case sockaddr_at m (lpSockaddr ua) of
        None \<Rightarrow> None
      | Some sa \<Rightarrow> (case this_nic oc c (base_nic c iface) ua sa of Ok n \<Rightarrow> Some n | _ \<Rightarrow> None))"

lemma entry_nicD:
  assumes "entry_nic oc c m iface ua = Some n"
  obtains sa where "sockaddr_at m (lpSockaddr ua) = Some sa" "this_nic oc c (base_nic c iface) ua sa = Ok n"
  using assms by (auto simp: entry_nic_def split: option.splits outcome.splits)

lemma addresses_loop_linked:
  assumes "linked (unicast_at m) ua_Next (ua_Next ua) uas"
    and "map (entry_nic oc c m iface) (ua # uas) = map Some ns"
  shows "addresses_loop oc c m (base_nic c iface) ua results = Some (Done (Ok (results @ ns)))"
  using assms
proof (induction uas arbitrary: ua ns results)
  case Nil
  then obtain n where "ns = [n]" "entry_nic oc c m iface ua = Some n" by auto
  with Nil show ?case by (subst addresses_loop.simps) (auto elim: entry_nicD)
next
  case (Cons ub uas)
  then obtain n ns' where ns: "ns = n # ns'" "entry_nic oc c m iface ua = Some n" by auto
  from ns(2) obtain sa where "sockaddr_at m (lpSockaddr ua) = Some sa"
    "this_nic oc c (base_nic c iface) ua sa = Ok n" by (rule entry_nicD)
  with Cons.prems ns Cons.IH [of ub ns' "results @ [n]"] show ?case
    by (subst addresses_loop.simps) simp
qed

text \<open>An adapter with the entries of its list and the interfaces they stand for.\<close>

definition adapter_nics ::
    "bool \<Rightarrow> win_net_api \<Rightarrow> net_memory \<Rightarrow> adapter \<Rightarrow> unicast_address list \<Rightarrow> win_nic list \<Rightarrow> bool" where
  "adapter_nics oc c m iface uas ns \<longleftrightarrow>
     uas \<noteq> [] \<and> linked (unicast_at m) ua_Next (FirstUnicastAddress iface) uas \<and>
     map (entry_nic oc c m iface) uas = map Some ns"

lemma adapter_nics_loop:
  assumes "adapter_nics oc c m iface uas ns"
  shows "\<exists>ua. unicast_at m (FirstUnicastAddress iface) = Some ua \<and>
    addresses_loop oc c m (base_nic c iface) ua results = Some (Done (Ok (results @ ns)))"
  using assms addresses_loop_linked unfolding adapter_nics_def
  by (cases uas) auto

text \<open>Past adapters in order, the loop is where the rest of the list begins.\<close>

lemma adapters_loop_past:
  assumes "linked (adapter_at m) ad_Next p (map fst xs @ iface # rest)" "adapter_at m p = Some a"
    and "\<forall>(b, uas, ns)\<in>set xs. adapter_nics oc c m b uas ns"
  shows "adapters_loop oc c m a results = adapters_loop oc c m iface (results @ concat (map (snd \<circ> snd) xs))"
  using assms
proof (induction xs arbitrary: p a results)
  case (Cons x xs)
  obtain b uas ns where x: "x = (b, uas, ns)" by (cases x)
  with Cons.prems have a: "a = b" "adapter_nics oc c m b uas ns" by auto
  obtain q a' where q: "ad_Next b = q" "q \<noteq> 0" "adapter_at m q = Some a'"
    "linked (adapter_at m) ad_Next q (map fst xs @ iface # rest)"
    using Cons.prems(1) x by (cases xs) auto
  from adapter_nics_loop [OF a(2), of results] q have
    "adapters_loop oc c m a results = adapters_loop oc c m a' (results @ ns)"
    by (subst adapters_loop.simps) (auto simp: a)
  with Cons.IH [OF q(4,3), of "results @ ns"] Cons.prems(3) x show ?case by simp
qed auto

section \<open>Properties\<close>

text \<open>
  (C20) The interfaces of Windows, from well-formed lists of adapters and addresses: one interface for every
  address of every adapter, in the order of the lists. When an adapter behind them has no address at all,
  its null pointer is followed and the process dies.
\<close>

theorem windows_nic_lists:
  assumes "adapters_dry c = (ERROR_BUFFER_OVERFLOW c, sz)" "adapters_fill c sz = (NO_ERROR c, p, m)"
    and "xs \<noteq> [] \<or> rest \<noteq> []" "linked (adapter_at m) ad_Next p (map fst xs @ rest)"
    and "\<forall>(b, uas, ns)\<in>set xs. adapter_nics oc c m b uas ns"
  shows "(rest = [] \<longrightarrow> windows_nic oc c = Some (Done (Ok (map Ok (concat (map (snd \<circ> snd) xs)))))) \<and>
    (rest \<noteq> [] \<and> FirstUnicastAddress (hd rest) = 0 \<and> unicast_at m 0 = None \<longrightarrow> windows_nic oc c = Some Fault)"
proof -
  obtain a where a: "p \<noteq> 0" "adapter_at m p = Some a"
    using assms(3,4) by (cases "map fst xs @ rest") auto
  have "windows_nic oc c = Some Fault" if "rest \<noteq> []" "FirstUnicastAddress (hd rest) = 0" "unicast_at m 0 = None"
  proof -
    from that obtain b bs where rest: "rest = b # bs" by (cases rest) auto
    have "adapters_loop oc c m a [] = Some Fault"
      using adapters_loop_past [of m p xs b bs a oc c "[]"] assms(4,5) a that rest
      by (simp add: adapters_loop.simps [of _ _ _ b])
    with assms(1,2) a show ?thesis by (simp add: windows_nic_def)
  qed
  moreover have "windows_nic oc c = Some (Done (Ok (map Ok (concat (map (snd \<circ> snd) xs)))))" if "rest = []"
  proof -
    from that assms(3) obtain ys b uas ns where xs: "xs = ys @ [(b, uas, ns)]" by (cases xs rule: rev_cases) auto
    have "linked (adapter_at m) ad_Next q (us @ [b]) \<Longrightarrow> ad_Next b = 0" for q us
      by (induction us arbitrary: q) auto
    then have "ad_Next b = 0" using assms(4) that xs by simp
    moreover from xs assms(5) have "adapter_nics oc c m b uas ns" by simp
    ultimately have "adapters_loop oc c m b rs = Some (Done (Ok (rs @ ns)))" for rs
      using adapter_nics_loop [of oc c m b uas ns rs] by (subst adapters_loop.simps) auto
    then have "adapters_loop oc c m a [] = Some (Done (Ok (concat (map (snd \<circ> snd) xs))))"
      using adapters_loop_past [of m p ys b "[]" a oc c "[]"] assms(4,5) a that xs by simp
    with assms(1,2) a show ?thesis by (simp add: windows_nic_def)
  qed
  ultimately show ?thesis by blast
qed

text \<open>One adapter with an address, and one behind it without.\<close>

definition sample_adapter :: "u64 \<Rightarrow> u64 \<Rightarrow> adapter" where
  "sample_adapter ua nxt =
     \<lparr>IfIndex = 3, AdapterName = ''{1}'' @ [NUL], FriendlyName = [101, 0], FirstUnicastAddress = ua,
      OperStatus = 1, ad_Next = nxt\<rparr>"

definition sample_unicast :: unicast_address where
  "sample_unicast = \<lparr>lpSockaddr = 48, iSockaddrLength = 16, OnLinkPrefixLength = 24, ua_Next = 0\<rparr>"

definition sample_memory :: "u64 \<Rightarrow> net_memory" where
  "sample_memory nxt =
     \<lparr>adapter_at = [16 \<mapsto> sample_adapter 32 nxt, 64 \<mapsto> sample_adapter 0 0],
      unicast_at = [32 \<mapsto> sample_unicast],
      sockaddr_at = [48 \<mapsto> \<lparr>sa_family = 2, sa_data = [0, 0, 10, 0, 0, 7] @ replicate 8 0\<rparr>]\<rparr>"

definition sample_net_api :: "u64 \<Rightarrow> win_net_api" where
  "sample_net_api nxt =
     \<lparr>net_AF_INET = 2, net_AF_INET6 = 23, IfOperStatusUp = 1, ERROR_BUFFER_OVERFLOW = 111, NO_ERROR = 0,
      adapters_dry = (111, 15000), adapters_fill = (\<lambda>_. (0, 16, sample_memory nxt))\<rparr>"

lemma sample_adapter_nics:
  "\<exists>n. adapter_nics True (sample_net_api nxt) (sample_memory nxt) (sample_adapter 32 nxt) [sample_unicast] [n] \<and>
     wn_address n = Some (Inet ([10, 0, 0, 7], 0))"
  by (simp add: adapter_nics_def entry_nic_def this_nic_def sockaddr_to_ipv4_def sample_memory_def
      sample_net_api_def sample_unicast_def sample_adapter_def Let_def)

theorem windows_nic_lists_witness:
  "(\<exists>n. windows_nic True (sample_net_api 0) = Some (Done (Ok [Ok n])) \<and> wn_address n = Some (Inet ([10, 0, 0, 7], 0))) \<and>
   windows_nic True (sample_net_api 64) = Some Fault"
proof
  let ?a = "sample_adapter 32"
  have api: "adapters_dry (sample_net_api nxt) = (ERROR_BUFFER_OVERFLOW (sample_net_api nxt), 15000)"
    "adapters_fill (sample_net_api nxt) 15000 = (NO_ERROR (sample_net_api nxt), 16, sample_memory nxt)" for nxt
    by (simp_all add: sample_net_api_def)
  have "linked (adapter_at (sample_memory 0)) ad_Next 16 [?a 0]"
    "linked (adapter_at (sample_memory 64)) ad_Next 16 [?a 64, sample_adapter 0 0]"
    by (simp_all add: sample_memory_def sample_adapter_def)
  note links = this
  obtain n where n: "adapter_nics True (sample_net_api 0) (sample_memory 0) (?a 0) [sample_unicast] [n]"
    "wn_address n = Some (Inet ([10, 0, 0, 7], 0))" using sample_adapter_nics by blast
  with windows_nic_lists [OF api, of "[(?a 0, [sample_unicast], [n])]" "[]"] links(1)
  show "\<exists>n. windows_nic True (sample_net_api 0) = Some (Done (Ok [Ok n])) \<and>
      wn_address n = Some (Inet ([10, 0, 0, 7], 0))" by simp
  obtain n' where "adapter_nics True (sample_net_api 64) (sample_memory 64) (?a 64) [sample_unicast] [n']"
    using sample_adapter_nics by blast
  moreover have "FirstUnicastAddress (sample_adapter 0 0) = 0" "unicast_at (sample_memory 64) 0 = None"
    by (simp_all add: sample_adapter_def sample_memory_def)
  ultimately show "windows_nic True (sample_net_api 64) = Some Fault"
    using windows_nic_lists [OF api, of "[(?a 64, [sample_unicast], [n'])]" "[sample_adapter 0 0]"] links(2)
    by simp
qed

lemma sint_u8: "sint (w :: u8) = (if uint w < 128 then uint w else uint w - 256)"
proof (cases "uint w < 128")
  case True
  then show ?thesis using uint_bounded [of w]
    by (simp add: sint_uint signed_take_bit_eq_take_bit_shift take_bit_eq_mod)
next
  case False
  have "uint w < 256" using uint_bounded [of w] by simp
  then have "(uint w + 128) mod 256 = uint w - 128"
    using False minus_mod_self2 [of "uint w + 128" 256] by (simp del: minus_mod_self2)
  with False show ?thesis by (simp add: sint_uint signed_take_bit_eq_take_bit_shift take_bit_eq_mod)
qed

lemma u16_of_negative: "0 \<le> x \<Longrightarrow> x < 256 \<Longrightarrow> (x - 256) mod 65536 = x + (0xFF00 :: int)"
proof -
  assume "0 \<le> x" "x < 256"
  then have "(x + 0xFF00) mod 65536 = x + 0xFF00" by (intro mod_pos_pos_trivial) simp_all
  moreover have "x - 256 = (x + 0xFF00) - 65536" by simp
  ultimately show ?thesis by (simp only: minus_mod_self2)
qed

lemma scast_u8_u16:
  "unat (scast (w :: u8) :: u16) = (if unat w < 128 then unat w else unat w + 0xFF00)"
proof -
  have u: "0 \<le> uint w" "uint w < 256" using uint_bounded [of w] by simp_all
  have "uint (scast w :: u16) = sint w mod 65536"
    unfolding scast_eq uint_word_of_int by simp
  moreover have "sint w mod 65536 = (if uint w < 128 then uint w else uint w + 0xFF00)"
    unfolding sint_u8 using u u16_of_negative [OF u] mod_pos_pos_trivial [OF u(1), of 65536] by (simp only: split: if_split) simp
  moreover have "int (unat w) = uint w" "int (unat (scast w :: u16)) = uint (scast w :: u16)" by simp_all
  ultimately have "int (unat (scast w :: u16)) = (if int (unat w) < 128 then int (unat w) else int (unat w) + 0xFF00)"
    by (simp only:)
  then show ?thesis by presburger
qed

text \<open>
  The port of an IPv4 address of Windows: its two bytes, most significant first, come out the other way
  round; a port whose second byte is 128 or more is a panic in builds with overflow checks.
\<close>

theorem sockaddr_to_ipv4_port:
  assumes "16 \<le> unat (scast (iSockaddrLength ua) :: u64)" "lpSockaddr ua \<noteq> 0"
    and "sa_data sa = high # low # a # b # c # d # rest"
  shows "(unat high < 128 \<and> unat low < 128 \<longrightarrow>
      sockaddr_to_ipv4 oc ua sa = Ok (Some (Inet ([a, b, c, d], of_nat (unat high + 256 * unat low))))) \<and>
    (128 \<le> unat low \<longrightarrow> sockaddr_to_ipv4 True ua sa = Panic)"
proof -
  have "scast w = (of_nat (unat w) :: u16)" if "unat w < 128" for w :: u8
    using that scast_u8_u16 [of w] by (auto simp: word_unat_eq_iff unat_of_nat simp del: of_nat_unat)
  with assms show ?thesis
    by (auto simp: sockaddr_to_ipv4_def Let_def scast_u8_u16 unat_word_ariths unat_of_nat)
qed

theorem sockaddr_to_ipv4_port_witness:
  "sockaddr_to_ipv4 True sample_unicast \<lparr>sa_family = 2, sa_data = [1, 2, 10, 0, 0, 7]\<rparr> =
     Ok (Some (Inet ([10, 0, 0, 7], 513)))"
  using sockaddr_to_ipv4_port [of sample_unicast "\<lparr>sa_family = 2, sa_data = [1, 2, 10, 0, 0, 7]\<rparr>" 1 2 10 0 0 7 "[]"]
  by (simp add: sample_unicast_def)

end
