(* ===== verification/Public_Api.thy ===== *)
theory Public_Api
  imports Process_Api Memory_Linux Disk_Linux Sensors_Linux Disk_Macos Disk_Windows Process_Windows
    Host_Windows Net_Windows
begin

text \<open>
  The public interfaces of the other crates: the types at the top of \<open>heim-cpu\<close>, \<open>heim-memory\<close>, \<open>heim-host\<close>,
  \<open>heim-net\<close>, \<open>heim-disk\<close> and of the information about a process, with the extension traits under \<open>os\<close>. The
  functions wrap what \<open>sys\<close> gives, the methods forward to it; \<open>sys\<close> is that of Linux except where a
  trait belongs to macOS or Windows. The texts the types print of themselves follow.

  The flags of mounted file systems are sets of bits of the \<open>bitflags\<close> crate, whose \<open>from_bits_truncate\<close> is
  a parameter: it keeps the bits that are some declared flag. The theorem shows that the flags declared for macOS
  are different single bits, so a set of flags is told from its bits and put together again from its members.
\<close>

text \<open>\<open>map_ok(Into::into)\<close> on a stream.\<close>

definition wrap_items :: "(('a, 'e) outcome list, 'f) outcome \<Rightarrow> (('a wrapped, 'e) outcome list, 'f) outcome" where
  "wrap_items r = map_ok (map (map_ok Wrap)) r"

section \<open>heim-cpu\<close>

definition pub_CpuTime_user where "pub_CpuTime_user v = ct_user (as_ref v)"
definition pub_CpuTime_system where "pub_CpuTime_system v = ct_system (as_ref v)"
definition pub_CpuTime_idle where "pub_CpuTime_idle v = ct_idle (as_ref v)"
definition pub_CpuTime_nice where "pub_CpuTime_nice v = ct_nice (as_ref v)"
definition pub_CpuTime_io_wait where "pub_CpuTime_io_wait v = ct_io_wait (as_ref v)"
definition pub_CpuTime_irq where "pub_CpuTime_irq v = ct_irq (as_ref v)"
definition pub_CpuTime_soft_irq where "pub_CpuTime_soft_irq v = ct_soft_irq (as_ref v)"
definition pub_CpuTime_steal where "pub_CpuTime_steal v = ct_steal (as_ref v)"
definition pub_CpuTime_guest where "pub_CpuTime_guest v = ct_guest (as_ref v)"
definition pub_CpuTime_guest_nice where "pub_CpuTime_guest_nice v = ct_guest_nice (as_ref v)"
definition pub_CpuFrequency_current where "pub_CpuFrequency_current v = freq_current (as_ref v)"
definition pub_CpuFrequency_min where "pub_CpuFrequency_min v = freq_min (as_ref v)"
definition pub_CpuFrequency_max where "pub_CpuFrequency_max v = freq_max (as_ref v)"
definition pub_CpuStats_ctx_switches where "pub_CpuStats_ctx_switches v = ctx_switches (as_ref v)"
definition pub_CpuStats_interrupts where "pub_CpuStats_interrupts v = interrupts (as_ref v)"
definition pub_CpuStats_soft_interrupts where "pub_CpuStats_soft_interrupts v = soft_interrupts (as_ref v)"
definition pub_MacCpuStats_soft_interrupts where "pub_MacCpuStats_soft_interrupts v = mc_soft_interrupts (as_ref v)"
definition pub_MacCpuStats_syscalls where "pub_MacCpuStats_syscalls v = mc_syscalls (as_ref v)"
definition pub_WinCpuStats_dpc where "pub_WinCpuStats_dpc v = ws_dpc (as_ref v)"
definition pub_WinCpuStats_syscalls where "pub_WinCpuStats_syscalls v = ws_syscalls (as_ref v)"

definition pub_time where "pub_time h = map_ok Wrap (cpu_time_get h)"
definition pub_times where "pub_times h = wrap_items (cpu_times h)"
definition pub_frequency where "pub_frequency h = map_ok Wrap (frequency h)"
definition pub_frequencies where "pub_frequencies h = wrap_items (frequencies h)"
definition pub_stats where "pub_stats h = map_ok Wrap (cpu_stats_get h)"

section \<open>heim-memory\<close>

definition pub_Memory_total where "pub_Memory_total v = mem_total (as_ref v)"
definition pub_Memory_available where "pub_Memory_available v = mem_available (as_ref v)"
definition pub_Memory_free where "pub_Memory_free v = mem_free (as_ref v)"
definition pub_Memory_buffers where "pub_Memory_buffers v = mem_buffers (as_ref v)"
definition pub_Memory_cached where "pub_Memory_cached v = mem_cached (as_ref v)"
definition pub_Memory_shared where "pub_Memory_shared v = mem_shared (as_ref v)"
definition pub_Memory_active where "pub_Memory_active v = mem_active (as_ref v)"
definition pub_Memory_inactive where "pub_Memory_inactive v = mem_inactive (as_ref v)"
definition pub_Swap_total where "pub_Swap_total v = swap_total (as_ref v)"
definition pub_Swap_used where "pub_Swap_used h v = Swap_used h (as_ref v)"
definition pub_Swap_free where "pub_Swap_free v = swap_free (as_ref v)"
definition pub_Swap_sin where "pub_Swap_sin v = Swap_sin (as_ref v)"
definition pub_Swap_sout where "pub_Swap_sout v = Swap_sout (as_ref v)"
definition pub_MacMemory_active where "pub_MacMemory_active v = mm_active (as_ref v)"
definition pub_MacMemory_inactive where "pub_MacMemory_inactive v = mm_inactive (as_ref v)"
definition pub_MacMemory_wire where "pub_MacMemory_wire v = mm_wire (as_ref v)"

definition pub_memory where "pub_memory h = map_ok Wrap (memory_get h)"
definition pub_swap where "pub_swap h = map_ok Wrap (swap_get h)"

section \<open>heim-host\<close>

definition pub_Platform_system where "pub_Platform_system v = platform_system (as_ref v)"
definition pub_Platform_release where "pub_Platform_release v = platform_release (as_ref v)"
definition pub_Platform_version where "pub_Platform_version v = platform_version (as_ref v)"
definition pub_Platform_hostname where "pub_Platform_hostname v = platform_hostname (as_ref v)"
definition pub_Platform_architecture where "pub_Platform_architecture v = platform_arch (as_ref v)"
definition pub_User_username where "pub_User_username v = username (as_ref v)"
definition pub_User_pid where "pub_User_pid v = user_pid (as_ref v)"
definition pub_User_terminal where "pub_User_terminal v = terminal (as_ref v)"
definition pub_User_id where "pub_User_id v = user_id (as_ref v)"
definition pub_User_hostname where "pub_User_hostname v = user_hostname (as_ref v)"
definition pub_User_address where "pub_User_address v = user_addr (as_ref v)"
definition pub_User_session_id where "pub_User_session_id v = session_id (as_ref v)"
definition pub_MacUser_pid where "pub_MacUser_pid v = mu_pid (as_ref v)"
definition pub_MacUser_terminal where "pub_MacUser_terminal v = mu_terminal (as_ref v)"
definition pub_MacUser_id where "pub_MacUser_id v = mu_id (as_ref v)"
definition pub_MacUser_hostname where "pub_MacUser_hostname v = mu_hostname (as_ref v)"
definition pub_WinUser_domain where "pub_WinUser_domain v = wu_domain (as_ref v)"
definition pub_WinUser_address where "pub_WinUser_address v = wu_address (as_ref v)"
definition pub_WinPlatform_domain where "pub_WinPlatform_domain v = wpl_domain (as_ref v)"

definition pub_platform where "pub_platform h api uname = map_ok Wrap (platform h api uname)"
definition pub_users where "pub_users USER_PROCESS big_endian entries = map (map_ok Wrap) (users USER_PROCESS big_endian entries)"

section \<open>heim-net\<close>

definition pub_NetCounters_interface where "pub_NetCounters_interface v = nc_interface (as_ref v)"
definition pub_NetCounters_bytes_sent where "pub_NetCounters_bytes_sent v = nc_tx_bytes (as_ref v)"
definition pub_NetCounters_bytes_recv where "pub_NetCounters_bytes_recv v = nc_rx_bytes (as_ref v)"
definition pub_NetCounters_packets_sent where "pub_NetCounters_packets_sent v = nc_tx_packets (as_ref v)"
definition pub_NetCounters_packets_recv where "pub_NetCounters_packets_recv v = nc_rx_packets (as_ref v)"
definition pub_NetCounters_errors_sent where "pub_NetCounters_errors_sent v = nc_tx_errs (as_ref v)"
definition pub_NetCounters_errors_recv where "pub_NetCounters_errors_recv v = nc_rx_errs (as_ref v)"
definition pub_NetCounters_drop_recv where "pub_NetCounters_drop_recv v = nc_rx_drop (as_ref v)"
definition pub_NetCounters_drop_sent where "pub_NetCounters_drop_sent v = nc_tx_drop (as_ref v)"
definition pub_Nic_name where "pub_Nic_name v = nic_name (as_ref v)"
definition pub_Nic_index where "pub_Nic_index c v = Nic_index c (as_ref v)"
definition pub_Nic_address where "pub_Nic_address v = Nic_address (as_ref v)"
definition pub_Nic_netmask where "pub_Nic_netmask v = Nic_netmask (as_ref v)"
definition pub_Nic_destination where "pub_Nic_destination v = Nic_destination (as_ref v)"
definition pub_Nic_is_up where "pub_Nic_is_up c v = Nic_is_up c (as_ref v)"
definition pub_Nic_is_running where "pub_Nic_is_running c v = Nic_is_running c (as_ref v)"
definition pub_Nic_is_loopback where "pub_Nic_is_loopback c v = Nic_is_loopback c (as_ref v)"
definition pub_Nic_is_multicast where "pub_Nic_is_multicast c v = Nic_is_multicast c (as_ref v)"
definition pub_Nic_broadcast where "pub_Nic_broadcast v = Nic_broadcast (as_ref v)"
definition pub_Nic_is_broadcast where "pub_Nic_is_broadcast c v = Nic_is_broadcast c (as_ref v)"
definition pub_Nic_is_point_to_point where "pub_Nic_is_point_to_point c v = Nic_is_point_to_point c (as_ref v)"
definition pub_MacNic_broadcast where "pub_MacNic_broadcast v = Nic_broadcast (as_ref v)"
definition pub_MacNic_is_broadcast where "pub_MacNic_is_broadcast c v = Nic_is_broadcast c (as_ref v)"
definition pub_MacNic_is_point_to_point where "pub_MacNic_is_point_to_point c v = Nic_is_point_to_point c (as_ref v)"
definition pub_WinNic_guid where "pub_WinNic_guid v = wn_guid (as_ref v)"

definition pub_net_io_counters where "pub_net_io_counters h = wrap_items (net_io_counters h)"
definition pub_io_counters_for_pid where "pub_io_counters_for_pid h pid = wrap_items (net_io_counters_for_pid h pid)"
definition pub_nic where "pub_nic getifaddrs = wrap_items (nic_list getifaddrs)"

section \<open>heim-disk\<close>

definition pub_DiskCounters_read_count where "pub_DiskCounters_read_count v = dc_read_count (as_ref v)"
definition pub_DiskCounters_write_count where "pub_DiskCounters_write_count v = dc_write_count (as_ref v)"
definition pub_DiskCounters_read_bytes where "pub_DiskCounters_read_bytes v = dc_read_bytes (as_ref v)"
definition pub_DiskCounters_write_bytes where "pub_DiskCounters_write_bytes v = dc_write_bytes (as_ref v)"
definition pub_DiskCounters_device_name where "pub_DiskCounters_device_name v = dc_name (as_ref v)"
definition pub_Partition_device where "pub_Partition_device v = part_device (as_ref v)"
definition pub_Partition_mount_point where "pub_Partition_mount_point v = part_mount_point (as_ref v)"
definition pub_Partition_file_system where "pub_Partition_file_system v = part_fs_type (as_ref v)"
definition pub_Usage_total where "pub_Usage_total h v = Usage_total h (as_ref v)"
definition pub_Usage_used where "pub_Usage_used h v = Usage_used h (as_ref v)"
definition pub_Usage_free where "pub_Usage_free h v = Usage_free h (as_ref v)"
definition pub_Usage_ratio where "pub_Usage_ratio h v = Usage_ratio h (as_ref v)"

definition pub_disk_io_counters where "pub_disk_io_counters h = wrap_items (disk_io_counters h)"
definition pub_disk_io_counters_physical where "pub_disk_io_counters_physical h = wrap_items (disk_io_counters_physical h)"
definition pub_partitions where "pub_partitions h = wrap_items (Disk_Linux.partitions h)"
definition pub_partitions_physical where "pub_partitions_physical h = wrap_items (Disk_Linux.partitions_physical h)"
definition pub_usage where "pub_usage h statvfs_call path = map_ok Wrap (disk_usage h statvfs_call path)"
definition pub_Partition_usage where
  "pub_Partition_usage h statvfs_call p = pub_usage h statvfs_call (pub_Partition_mount_point p)"

section \<open>heim-process\<close>

definition pub_ProcMemory_rss where "pub_ProcMemory_rss v = pm_resident (as_ref v)"
definition pub_ProcMemory_vms where "pub_ProcMemory_vms v = pm_size (as_ref v)"
definition pub_ProcMemory_shared where "pub_ProcMemory_shared v = pm_shared (as_ref v)"
definition pub_ProcMemory_text where "pub_ProcMemory_text v = pm_text (as_ref v)"
definition pub_ProcMemory_data where "pub_ProcMemory_data v = pm_data (as_ref v)"
definition pub_ProcIo_bytes_read where "pub_ProcIo_bytes_read h v = bytes_read h (as_ref v)"
definition pub_ProcIo_bytes_written where "pub_ProcIo_bytes_written h v = bytes_written h (as_ref v)"
definition pub_ProcIo_chars_read where "pub_ProcIo_chars_read h v = chars_read h (as_ref v)"
definition pub_ProcIo_chars_written where "pub_ProcIo_chars_written h v = chars_written h (as_ref v)"
definition pub_ProcIo_read_syscalls where "pub_ProcIo_read_syscalls v = io_syscr (as_ref v)"
definition pub_ProcIo_write_syscalls where "pub_ProcIo_write_syscalls v = io_syscw (as_ref v)"
definition pub_ProcIo_cancelled_write_bytes where "pub_ProcIo_cancelled_write_bytes h v = cancelled_write_bytes h (as_ref v)"
definition pub_MacProcMemory_faults where "pub_MacProcMemory_faults v = mpm_faults (as_ref v)"
definition pub_MacProcMemory_pageins where "pub_MacProcMemory_pageins v = mpm_pageins (as_ref v)"
definition pub_WinProcMemory_page_faults where "pub_WinProcMemory_page_faults v = PageFaultCount (as_ref v)"
definition pub_WinProcMemory_peak_working_set_size where "pub_WinProcMemory_peak_working_set_size v = PeakWorkingSetSize (as_ref v)"
definition pub_WinProcMemory_working_set_size where "pub_WinProcMemory_working_set_size v = WorkingSetSize (as_ref v)"
definition pub_WinProcMemory_quota_peak_paged_pool_usage where "pub_WinProcMemory_quota_peak_paged_pool_usage v = QuotaPeakPagedPoolUsage (as_ref v)"
definition pub_WinProcMemory_quota_paged_pool_usage where "pub_WinProcMemory_quota_paged_pool_usage v = QuotaPagedPoolUsage (as_ref v)"
definition pub_WinProcMemory_quota_peak_non_paged_pool_usage where "pub_WinProcMemory_quota_peak_non_paged_pool_usage v = QuotaPeakNonPagedPoolUsage (as_ref v)"
definition pub_WinProcMemory_quota_non_paged_pool_usage where "pub_WinProcMemory_quota_non_paged_pool_usage v = QuotaNonPagedPoolUsage (as_ref v)"
definition pub_WinProcMemory_pagefile_usage where "pub_WinProcMemory_pagefile_usage v = PagefileUsage (as_ref v)"
definition pub_WinProcMemory_peak_pagefile_usage where "pub_WinProcMemory_peak_pagefile_usage v = PeakPagefileUsage (as_ref v)"
definition pub_WinProcMemory_private_usage where "pub_WinProcMemory_private_usage v = PrivateUsage (as_ref v)"

definition pub_net_counters_of where "pub_net_counters_of h p = Process_net_io_counters h (as_ref p)"
definition pub_signal where "pub_signal h u p sig = Process_signal h u (as_ref p) sig"
definition pub_niceness where "pub_niceness u p = Process_niceness u (as_ref p)"
definition pub_set_niceness where "pub_set_niceness u p value = Process_set_niceness u (as_ref p) value"
definition pub_priority where "pub_priority w api p = windows_priority w api (as_ref p)"
definition pub_set_priority where "pub_set_priority w api p value = windows_set_priority w api (as_ref p) value"

section \<open>Debug\<close>

text \<open>
  What the types print of themselves. The texts of quantities, strings and file systems are those of the
  \<open>uom\<close> crate and of the standard library; amounts that are only computed when they are asked for may panic.
\<close>

record debug_texts =
  dbg_time :: "fval \<Rightarrow> string"
  dbg_frequency :: "u64 \<Rightarrow> string"
  dbg_information :: "u64 \<Rightarrow> string"
  dbg_ratio :: "fval \<Rightarrow> string"
  dbg_temperature :: "fval \<Rightarrow> string"
  dbg_str :: "string \<Rightarrow> string"
  dbg_fs :: "file_system \<Rightarrow> string"

definition dbg_option :: "('a \<Rightarrow> string) \<Rightarrow> 'a option \<Rightarrow> string" where
  "dbg_option f x = (case x of None \<Rightarrow> ''None'' | Some y \<Rightarrow> ''Some('' @ f y @ '')'')"

definition debug_CpuStats where
  "debug_CpuStats v =
     debug_struct ''CpuStats''
       [(''ctx_switches'', show_u64 (pub_CpuStats_ctx_switches v)),
        (''interrupts'', show_u64 (pub_CpuStats_interrupts v))]"

definition debug_CpuTime where
  "debug_CpuTime F v =
     debug_struct ''CpuTime''
       [(''user'', dbg_time F (pub_CpuTime_user v)),
        (''system'', dbg_time F (pub_CpuTime_system v)),
        (''idle'', dbg_time F (pub_CpuTime_idle v))]"

definition debug_CpuFrequency where
  "debug_CpuFrequency F v =
     debug_struct ''CpuFrequency''
       [(''current'', dbg_frequency F (pub_CpuFrequency_current v)),
        (''min'', dbg_option (dbg_frequency F) (pub_CpuFrequency_min v)),
        (''max'', dbg_option (dbg_frequency F) (pub_CpuFrequency_max v))]"

definition debug_Memory where
  "debug_Memory F v =
     debug_struct ''Memory''
       [(''total'', dbg_information F (pub_Memory_total v)),
        (''available'', dbg_information F (pub_Memory_available v)),
        (''free'', dbg_information F (pub_Memory_free v))]"

definition debug_Swap where
  "debug_Swap F h v =
     map_ok (\<lambda>used_v. debug_struct ''Swap''
       [(''total'', dbg_information F (pub_Swap_total v)),
        (''used'', dbg_information F used_v),
        (''free'', dbg_information F (pub_Swap_free v))]) (pub_Swap_used h v)"

definition debug_Platform where
  "debug_Platform F dbg_arch v =
     debug_struct ''Platform''
       [(''system'', dbg_str F (pub_Platform_system v)),
        (''release'', dbg_str F (pub_Platform_release v)),
        (''version'', dbg_str F (pub_Platform_version v)),
        (''hostname'', dbg_str F (pub_Platform_hostname v)),
        (''architecture'', dbg_arch (pub_Platform_architecture v))]"

definition debug_User where
  "debug_User F v =
     debug_struct ''User''
       [(''username'', dbg_str F (pub_User_username v))]"

definition debug_NetCounters where
  "debug_NetCounters F v =
     debug_struct ''IoCounters''
       [(''interface'', dbg_str F (pub_NetCounters_interface v)),
        (''bytes_sent'', dbg_information F (pub_NetCounters_bytes_sent v)),
        (''bytes_recv'', dbg_information F (pub_NetCounters_bytes_recv v)),
        (''packets_sent'', show_u64 (pub_NetCounters_packets_sent v)),
        (''packets_recv'', show_u64 (pub_NetCounters_packets_recv v)),
        (''errors_sent'', show_u64 (pub_NetCounters_errors_sent v)),
        (''errors_recv'', show_u64 (pub_NetCounters_errors_recv v)),
        (''drop_recv'', show_u64 (pub_NetCounters_drop_recv v))]"

definition debug_DiskCounters where
  "debug_DiskCounters F v =
     debug_struct ''IoCounters''
       [(''device_name'', dbg_str F (pub_DiskCounters_device_name v)),
        (''read_count'', show_u64 (pub_DiskCounters_read_count v)),
        (''write_count'', show_u64 (pub_DiskCounters_write_count v)),
        (''read_bytes'', dbg_information F (pub_DiskCounters_read_bytes v)),
        (''write_bytes'', dbg_information F (pub_DiskCounters_write_bytes v))]"

definition debug_Partition where
  "debug_Partition F v =
     debug_struct ''Partition''
       [(''device'', dbg_option (dbg_str F) (pub_Partition_device v)),
        (''mount_point'', dbg_str F (pub_Partition_mount_point v)),
        (''file_system'', dbg_fs F (pub_Partition_file_system v))]"

definition debug_Usage where
  "debug_Usage F h v =
     and_then (pub_Usage_total h v) (\<lambda>total_v. and_then (pub_Usage_used h v) (\<lambda>used_v. and_then (pub_Usage_free h v) (\<lambda>free_v. map_ok (\<lambda>ratio_v. debug_struct ''Usage''
       [(''total'', dbg_information F total_v),
        (''used'', dbg_information F used_v),
        (''free'', dbg_information F free_v),
        (''ratio'', dbg_ratio F ratio_v)]) (pub_Usage_ratio h v))))"

definition debug_ProcMemory where
  "debug_ProcMemory F v =
     debug_struct ''Memory''
       [(''rss'', dbg_information F (pub_ProcMemory_rss v)),
        (''vms'', dbg_information F (pub_ProcMemory_vms v))]"

definition debug_ProcIo where
  "debug_ProcIo F h v =
     debug_struct ''IoCounters''
       [(''bytes_read'', dbg_information F (pub_ProcIo_bytes_read h v)),
        (''bytes_written'', dbg_information F (pub_ProcIo_bytes_written h v))]"

definition debug_ProcCpuTime where
  "debug_ProcCpuTime F S v =
     debug_struct ''CpuTime''
       [(''user'', dbg_time F (api_CpuTime_user S v)),
        (''system'', dbg_time F (api_CpuTime_system S v))]"

definition debug_TemperatureSensor where
  "debug_TemperatureSensor F v =
     debug_struct ''TemperatureSensor''
       [(''unit'', dbg_str F (ts_unit v)),
        (''label'', dbg_option (dbg_str F) (ts_label v)),
        (''current'', dbg_temperature F (ts_current v)),
        (''high'', dbg_option (dbg_temperature F) (ts_high v)),
        (''critical'', dbg_option (dbg_temperature F) (ts_critical v))]"

definition debug_Command where
  "debug_Command F c = ''Command('' @ dbg_str F (api_Command_to_os_string c) @ '')''"

section \<open>Flags\<close>

unbundle bit_operations_syntax

text \<open>The names and bits of a type of flags, and what \<open>from_bits_truncate\<close> of the \<open>bitflags\<close> crate promises.\<close>

type_synonym 'l flags = "(string \<times> 'l word) list"

definition all_bits :: "'l::len flags \<Rightarrow> 'l word" where
  "all_bits fs = foldr (\<lambda>(n, b) acc. b OR acc) fs 0"

definition truncates :: "'l::len flags \<Rightarrow> ('l word \<Rightarrow> 'l word) \<Rightarrow> bool" where
  "truncates fs trunc \<longleftrightarrow> (\<forall>raw. trunc raw = raw AND all_bits fs)"

definition contains_flag :: "'l::len word \<Rightarrow> 'l word \<Rightarrow> bool" where
  "contains_flag bits b \<longleftrightarrow> bits AND b = b"

definition mnt_flags :: "32 flags" where
  "mnt_flags =
    [(''MNT_RDONLY'', 0x1), (''MNT_SYNCHRONOUS'', 0x2), (''MNT_NOEXEC'', 0x4), (''MNT_NOSUID'', 0x8),
     (''MNT_NODEV'', 0x10), (''MNT_UNION'', 0x20), (''MNT_ASYNC'', 0x40), (''MNT_CPROTECT'', 0x80),
     (''MNT_EXPORTED'', 0x100), (''MNT_QUARANTINE'', 0x400), (''MNT_LOCAL'', 0x1000),
     (''MNT_QUOTA'', 0x2000), (''MNT_ROOTFS'', 0x4000), (''MNT_DOVOLFS'', 0x8000),
     (''MNT_DONTBROWSE'', 0x100000), (''MNT_IGNORE_OWNERSHIP'', 0x200000), (''MNT_AUTOMOUNTED'', 0x400000),
     (''MNT_JOURNALED'', 0x800000), (''MNT_NOUSERXATTR'', 0x1000000), (''MNT_DEFWRITE'', 0x2000000),
     (''MNT_MULTILABEL'', 0x4000000), (''MNT_NOATIME'', 0x10000000), (''MNT_UPDATE'', 0x10000),
     (''MNT_NOBLOCK'', 0x20000), (''MNT_RELOAD'', 0x40000), (''MNT_FORCE'', 0x80000)]"

definition macos_flags :: "(u32 \<Rightarrow> u32) \<Rightarrow> unix_partition wrapped \<Rightarrow> u32" where
  "macos_flags from_bits_truncate p = from_bits_truncate (up_flags (as_ref p))"

text \<open>
  The flags of a mounted file system on Linux and of a volume on Windows, whose bits are constants of
  the C library and of \<open>winapi\<close>.
\<close>

definition st_names :: "string list" where
  "st_names = [''MANDLOCK'', ''NOATIME'', ''NODEV'', ''NODIRATIME'', ''NOEXEC'', ''NOSUID'', ''RDONLY'',
     ''RELATIME'', ''SYNCHRONOUS'']"

definition volume_names :: "string list" where
  "volume_names =
    [''FILE_CASE_PRESERVED_NAMES'', ''FILE_CASE_SENSITIVE_SEARCH'', ''FILE_DAX_VOLUME'',
     ''FILE_FILE_COMPRESSION'', ''FILE_NAMED_STREAMS'', ''FILE_PERSISTENT_ACLS'',
     ''FILE_READ_ONLY_VOLUME'', ''FILE_SEQUENTIAL_WRITE_ONCE'', ''FILE_SUPPORTS_ENCRYPTION'',
     ''FILE_SUPPORTS_EXTENDED_ATTRIBUTES'', ''FILE_SUPPORTS_HARD_LINKS'', ''FILE_SUPPORTS_OBJECT_IDS'',
     ''FILE_SUPPORTS_OPEN_BY_FILE_ID'', ''FILE_SUPPORTS_REPARSE_POINTS'', ''FILE_SUPPORTS_SPARSE_FILES'',
     ''FILE_SUPPORTS_TRANSACTIONS'', ''FILE_SUPPORTS_USN_JOURNAL'', ''FILE_UNICODE_ON_DISK'',
     ''FILE_VOLUME_IS_COMPRESSED'', ''FILE_VOLUME_QUOTAS'']"

definition unix_usage_flags :: "(u64 \<Rightarrow> u64) \<Rightarrow> statvfs wrapped \<Rightarrow> u64" where
  "unix_usage_flags from_bits_truncate v = from_bits_truncate (f_flag (as_ref v))"

definition windows_flags where "windows_flags p = wpt_flags (as_ref p)"
definition windows_drive_type where "windows_drive_type p = wpt_drive_type (as_ref p)"

section \<open>The flags of macOS\<close>

text \<open>The names of the declared flags that a set of flags contains.\<close>

definition contained :: "'l::len flags \<Rightarrow> 'l word \<Rightarrow> string list" where
  "contained fs bits = map fst (filter (\<lambda>(n, b). contains_flag bits b) fs)"

definition bit_numbers :: "nat list" where
  "bit_numbers = [0, 1, 2, 3, 4, 5, 6, 7, 8, 10, 12, 13, 14, 15, 20, 21, 22, 23, 24, 25, 26, 28, 16, 17, 18, 19]"

lemma mnt_flags_bits: "map snd mnt_flags = map (\<lambda>i. 2 ^ i) bit_numbers"
  by (simp add: mnt_flags_def bit_numbers_def)

lemma mnt_flags_names: "distinct (map fst mnt_flags)"
  by (simp add: mnt_flags_def)

lemma bit_numbers_distinct: "distinct bit_numbers" "\<forall>i\<in>set bit_numbers. i < 32"
  by (simp_all add: bit_numbers_def)

lemma bit_single: "bit (2 ^ i :: 'l::len word) j \<longleftrightarrow> i = j \<and> i < LENGTH('l)"
  by (auto simp: bit_exp_iff)

lemma contains_single: "i < LENGTH('l) \<Longrightarrow> contains_flag raw (2 ^ i :: 'l::len word) \<longleftrightarrow> bit raw i"
proof -
  assume small: "i < LENGTH('l)"
  have "bit raw i" if "raw AND (2 ^ i :: 'l word) = 2 ^ i"
    using arg_cong [OF that, of "\<lambda>w. bit w i"] small by (simp add: bit_and_iff bit_single)
  moreover have "raw AND (2 ^ i :: 'l word) = 2 ^ i" if "bit raw i"
    using that by (intro bit_word_eqI) (auto simp: bit_and_iff bit_single)
  ultimately show ?thesis unfolding contains_flag_def by blast
qed

lemma all_bits_snd: "all_bits fs = foldr (OR) (map snd fs) 0"
  by (induction fs) (auto simp: all_bits_def)

lemma bit_foldr_singles:
  "bit (foldr (OR) (map (\<lambda>i. (2 ^ i :: 'l::len word)) ns) 0) j \<longleftrightarrow> j \<in> set ns \<and> j < LENGTH('l)"
  by (induction ns) (auto simp: bit_or_iff bit_single)

lemma all_bits_filter:
  assumes "map snd fs = map (\<lambda>i. (2 ^ i :: 'l::len word)) ns"
  shows "all_bits (filter (\<lambda>(n, b). P b) fs)
    = foldr (OR) (map (\<lambda>i. 2 ^ i) (filter (\<lambda>i. P (2 ^ i)) ns)) 0"
proof -
  have "map snd (filter (\<lambda>(n, b). P b) fs) = filter P (map snd fs)"
    by (induction fs) auto
  then show ?thesis
    by (simp add: all_bits_snd assms filter_map comp_def)
qed

lemma all_bits_contained:
  assumes singles: "map snd fs = map (\<lambda>i. (2 ^ i :: 'l::len word)) ns"
    and small: "\<forall>i\<in>set ns. i < LENGTH('l)"
  shows "all_bits (filter (\<lambda>(n, b). contains_flag raw b) fs) = raw AND all_bits fs"
proof (rule bit_word_eqI)
  fix j assume "j < LENGTH('l)"
  then show "bit (all_bits (filter (\<lambda>(n, b). contains_flag raw b) fs)) j = bit (raw AND all_bits fs) j"
    using small
    unfolding all_bits_filter [OF singles] all_bits_snd [of fs] singles bit_foldr_singles bit_and_iff
    by (auto simp: contains_single)
qed

lemma contained_truncated:
  assumes "truncates fs trunc"
  shows "(n, b) \<in> set fs \<Longrightarrow> map snd fs = map (\<lambda>i. (2 ^ i :: 'l::len word)) ns \<Longrightarrow>
    \<forall>i\<in>set ns. i < LENGTH('l) \<Longrightarrow> contains_flag (trunc raw) b \<longleftrightarrow> contains_flag raw b"
proof -
  assume mem: "(n, b) \<in> set fs" and singles: "map snd fs = map (\<lambda>i. (2 ^ i :: 'l word)) ns"
    and small: "\<forall>i\<in>set ns. i < LENGTH('l)"
  have "b \<in> set (map snd fs)" using mem by force
  then obtain i where "i \<in> set ns" "b = 2 ^ i" unfolding singles by auto
  moreover have "bit (all_bits fs) i" if "i \<in> set ns"
    using that small by (simp add: all_bits_snd singles bit_foldr_singles)
  ultimately show ?thesis
    using assms small by (simp add: truncates_def contains_single bit_and_iff)
qed

text \<open>
  (C31) The flags of a partition on macOS tell exactly what the kernel's \<open>f_flags\<close> says of the 26 declared flags: the
  declared names are different, each flag is one bit and no two the same bit, a flag is contained when its
  bit is set in the raw word, whatever undeclared bits are set beside it, and the contained flags put together are
  the value itself.
\<close>

theorem macos_flags_decode:
  assumes "truncates mnt_flags from_bits_truncate"
  shows "distinct (map fst mnt_flags) \<and> distinct (map snd mnt_flags) \<and>
    (\<forall>(n, b)\<in>set mnt_flags. \<exists>i<32. b = 2 ^ i \<and>
       (n \<in> set (contained mnt_flags (macos_flags from_bits_truncate p)) \<longleftrightarrow> bit (up_flags (as_ref p)) i)) \<and>
    all_bits (filter (\<lambda>(n, b). contains_flag (macos_flags from_bits_truncate p) b) mnt_flags)
      = macos_flags from_bits_truncate p"
proof -
  let ?v = "macos_flags from_bits_truncate p" and ?raw = "up_flags (as_ref p)"
  note facts = mnt_flags_bits bit_numbers_distinct
  have small: "\<forall>i\<in>set bit_numbers. i < LENGTH(32)" using bit_numbers_distinct(2) by simp
  have snds: "distinct (map snd mnt_flags)"
  proof -
    have "inj_on (\<lambda>i. (2 ^ i :: 32 word)) (set bit_numbers)"
      using small by (intro inj_onI) (metis bit_single)
    then show ?thesis unfolding mnt_flags_bits using bit_numbers_distinct(1) by (simp add: distinct_map)
  qed
  have v: "?v = ?raw AND all_bits mnt_flags"
    using assms by (simp add: macos_flags_def truncates_def)
  have each: "\<exists>i<32. b = 2 ^ i \<and> (n \<in> set (contained mnt_flags ?v) \<longleftrightarrow> bit ?raw i)"
    if mem: "(n, b) \<in> set mnt_flags" for n b
  proof -
    have "b \<in> set (map snd mnt_flags)" using mem by force
    then obtain i where i: "i \<in> set bit_numbers" "b = 2 ^ i" unfolding mnt_flags_bits by auto
    have "n \<in> set (contained mnt_flags ?v) \<longleftrightarrow> contains_flag ?v b"
      using mem mnt_flags_names by (auto simp: contained_def distinct_map inj_on_def image_iff) force+
    also have "\<dots> \<longleftrightarrow> bit ?raw i"
      using contained_truncated [OF assms mem mnt_flags_bits small, of ?raw] i small
      by (simp add: macos_flags_def contains_single)
    finally show ?thesis using i small by auto
  qed
  have "all_bits (filter (\<lambda>(n, b). contains_flag ?v b) mnt_flags) = ?v AND all_bits mnt_flags"
    by (rule all_bits_contained [OF mnt_flags_bits small])
  also have "\<dots> = ?v" unfolding v by (simp add: and.assoc)
  finally show ?thesis using mnt_flags_names snds each by blast
qed

text \<open>A file system mounted read-only without set-user-ID programs, with the undeclared bits 9 and 27 set.\<close>

theorem macos_flags_decode_witness:
  "distinct (map snd mnt_flags) \<and>
   contained mnt_flags (macos_flags (\<lambda>raw. raw AND all_bits mnt_flags)
     (Wrap \<lparr>up_device = ''map auto_home'', up_fs = Apfs, up_mount_point = ''/'', up_flags = 0x8000209\<rparr>))
   = [''MNT_RDONLY'', ''MNT_NOSUID'']"
proof
  let ?T = "\<lambda>raw. raw AND all_bits mnt_flags"
  have T: "truncates mnt_flags ?T" by (simp add: truncates_def)
  show "distinct (map snd mnt_flags)" using macos_flags_decode [OF T] by blast
  show "contained mnt_flags (macos_flags ?T
     (Wrap \<lparr>up_device = ''map auto_home'', up_fs = Apfs, up_mount_point = ''/'', up_flags = 0x8000209\<rparr>))
   = [''MNT_RDONLY'', ''MNT_NOSUID'']"
    by (simp add: contained_def macos_flags_def contains_flag_def all_bits_def mnt_flags_def)
qed

end
