(* ===== verification/Derive.thy ===== *)
theory Derive
  imports Heim_Prelude
begin

text \<open>
  The attribute macros of \<open>heim-derive\<close>: \<open>src/dev.rs\<close> and \<open>src/ci.rs\<close>. A function is a record of its parts, and
  the code a macro puts around a body is a tree over the body's source text. \<open>runs\<close> says what such code does:
  which bodies run, and which tests are skipped. The theorem shows what the two macros do together.
\<close>

section \<open>Functions\<close>

datatype code =
    Source string
  | Block_on string code
  | Iter code
  | Cfg_if string code string code code
  | Unless_ci string string code
  | With_main "string list" string code

record item_fn =
  fn_attrs :: "string list"
  fn_vis :: string
  fn_const :: bool
  fn_unsafe :: bool
  fn_async :: bool
  fn_abi :: "string option"
  fn_ident :: string
  fn_inputs :: string
  fn_output :: string
  fn_body :: code

datatype expansion = Compile_error string | Item item_fn

fun expand_next :: "(item_fn \<Rightarrow> expansion) \<Rightarrow> expansion \<Rightarrow> expansion" where
  "expand_next m (Item f) = m f"
| "expand_next m (Compile_error e) = Compile_error e"

text \<open>A function that is nothing but its name, its result and its body.\<close>

definition plain_fn :: "string list \<Rightarrow> string \<Rightarrow> string \<Rightarrow> string \<Rightarrow> code \<Rightarrow> item_fn" where
  "plain_fn attrs ident inputs output body =
     \<lparr>fn_attrs = attrs, fn_vis = '''', fn_const = False, fn_unsafe = False, fn_async = False, fn_abi = None,
      fn_ident = ident, fn_inputs = inputs, fn_output = output, fn_body = body\<rparr>"

definition missing_async :: expansion where
  "missing_async = Compile_error ''the async keyword is missing from the function declaration''"

section \<open>The macros\<close>

definition dev_main :: "item_fn \<Rightarrow> expansion" where
  "dev_main input =
     (if fn_ident input \<noteq> ''main'' then
        Compile_error ''only the main function can be tagged with #[heim_derive::main]''
      else if \<not> fn_async input then missing_async
      else Item (plain_fn [] ''main'' '''' (fn_output input)
             (With_main (fn_attrs input) (fn_output input) (fn_body input))))"

definition dev_test :: "item_fn \<Rightarrow> expansion" where
  "dev_test input =
     (if \<not> fn_async input then missing_async
      else Item (plain_fn (''test'' # fn_attrs input) (fn_ident input) '''' (fn_output input)
             (Block_on ''smol'' (fn_body input))))"

definition dev_bench :: "item_fn \<Rightarrow> expansion" where
  "dev_bench input =
     (if \<not> fn_async input then missing_async
      else Item (plain_fn (''bench'' # fn_attrs input) (fn_ident input) ''b: &mut test::Bencher'' (fn_output input)
             (Cfg_if ''runtime-tokio'' (Iter (Block_on ''tokio'' (fn_body input)))
                     ''runtime-async-std'' (Iter (Block_on ''async_std'' (fn_body input)))
                     (Iter (Block_on ''smol'' (fn_body input))))))"

definition skip_ci :: "string \<Rightarrow> item_fn \<Rightarrow> expansion" where
  "skip_ci cfg func =
     Item (func\<lparr>fn_inputs := '''', fn_output := '''', fn_body := Unless_ci cfg (fn_ident func) (fn_body func)\<rparr>)"

section \<open>What the code does\<close>

text \<open>
  Iterating over \<open>env::vars\<close> panics at a variable that is no valid Unicode, which is \<open>None\<close> here; \<open>any\<close> stops
  at the first hit.
\<close>

fun in_ci :: "string option list \<Rightarrow> (bool, 'e) outcome" where
  "in_ci [] = Ok False"
| "in_ci (None # vs) = Panic"
| "in_ci (Some k # vs) = (if k = ''TF_BUILD'' then Ok True else if k = ''GITHUB_ACTIONS'' then Ok True else in_ci vs)"

datatype event = Ran string | Skipped string

fun repeated :: "nat \<Rightarrow> (event list, 'e) outcome \<Rightarrow> (event list, 'e) outcome" where
  "repeated 0 r = Ok []"
| "repeated (Suc n) r = and_then r (\<lambda>es. map_ok ((@) es) (repeated n r))"

text \<open>\<open>holds\<close> are the configuration options of the build, \<open>iters\<close> is how often the bencher repeats its closure.\<close>

fun runs :: "(string \<Rightarrow> bool) \<Rightarrow> string option list \<Rightarrow> nat \<Rightarrow> code \<Rightarrow> (event list, 'e) outcome" where
  "runs holds vars iters (Source s) = Ok [Ran s]"
| "runs holds vars iters (Block_on rt c) = runs holds vars iters c"
| "runs holds vars iters (Iter c) = repeated iters (runs holds vars iters c)"
| "runs holds vars iters (Cfg_if p a q b c) =
     (if holds p then runs holds vars iters a else if holds q then runs holds vars iters b else runs holds vars iters c)"
| "runs holds vars iters (Unless_ci cfg name c) =
     and_then (in_ci vars) (\<lambda>ci. if holds cfg \<and> ci then Ok [Skipped name] else runs holds vars iters c)"
| "runs holds vars iters (With_main attrs ret c) = runs holds vars iters c"

lemma in_ci_valid: "in_ci (map Some vs) = Ok (''TF_BUILD'' \<in> set vs \<or> ''GITHUB_ACTIONS'' \<in> set vs)"
  by (induction vs) auto

lemma in_ci_invalid: "in_ci (map Some vs @ None # ws) =
    (if ''TF_BUILD'' \<in> set vs \<or> ''GITHUB_ACTIONS'' \<in> set vs then Ok True else Panic)"
  by (induction vs) auto

text \<open>
  A test below both macros, in either order of them, is the same test: on a machine whose variables
  are valid, it is skipped exactly when the option of the attribute holds and one of the two
  variables of the supported services is set, and its body runs once otherwise; the arguments and the result
  type of the function are lost, so a test that returns a result no longer has its type. A variable that is no
  valid Unicode makes the test panic, unless one of the two comes before it, also when it is not to be skipped.
\<close>

theorem skip_ci_test:
  assumes "fn_async f" "fn_body f = Source s"
  shows "\<exists>g h. expand_next dev_test (skip_ci cfg f) = Item g \<and> expand_next (skip_ci cfg) (dev_test f) = Item h \<and>
    fn_attrs g = ''test'' # fn_attrs f \<and> fn_attrs h = fn_attrs g \<and> fn_output g = '''' \<and> fn_output h = '''' \<and>
    (\<forall>vars. runs holds vars iters (fn_body g) = runs holds vars iters (fn_body h)) \<and>
    (\<forall>vs. runs holds (map Some vs) iters (fn_body g) =
      Ok [if holds cfg \<and> (''TF_BUILD'' \<in> set vs \<or> ''GITHUB_ACTIONS'' \<in> set vs) then Skipped (fn_ident f) else Ran s]) \<and>
    (\<forall>vs ws. ''TF_BUILD'' \<notin> set vs \<and> ''GITHUB_ACTIONS'' \<notin> set vs \<longrightarrow>
      runs holds (map Some vs @ None # ws) iters (fn_body g) = Panic)"
  using assms by (auto simp: skip_ci_def dev_test_def plain_fn_def in_ci_valid in_ci_invalid cong: if_cong)

theorem skip_ci_test_witness:
  "\<exists>g. expand_next dev_test (skip_ci ''windows''
      \<lparr>fn_attrs = [''cfg(unix)''], fn_vis = '''', fn_const = False, fn_unsafe = False, fn_async = True,
       fn_abi = None, fn_ident = ''smoke'', fn_inputs = '''', fn_output = ''Result<()>'', fn_body = Source ''body''\<rparr>) = Item g \<and>
    fn_output g = '''' \<and>
    runs (\<lambda>_. True) [Some ''HOME'', Some ''TF_BUILD''] 1 (fn_body g) = (Ok [Skipped ''smoke''] :: (event list, unit) outcome)"
  using skip_ci_test [of "\<lparr>fn_attrs = [''cfg(unix)''], fn_vis = '''', fn_const = False, fn_unsafe = False, fn_async = True,
       fn_abi = None, fn_ident = ''smoke'', fn_inputs = '''', fn_output = ''Result<()>'', fn_body = Source ''body''\<rparr>"
       "''body''" "''windows''" "\<lambda>_. True" 1]
  by (auto dest: spec [of _ "[''HOME'', ''TF_BUILD'']"])

end
