(* ===== verification/Elsewhere.thy ===== *)
theory Elsewhere
  imports Virt_Linux Sensors_Linux Process_Windows
begin

text \<open>
  What the library offers where it is not implemented: the command line and the environment of a process
  on Windows, users with musl, temperatures and virtualization outside Linux. \<open>unimplemented!\<close> is a panic.
\<close>

section \<open>Command lines on Windows\<close>

datatype win_command = WinCommand
datatype win_command_iter = WinCommandIter

definition win_command_of :: "u32 \<Rightarrow> (win_command, process_error) outcome" where
  "win_command_of pid = Ok WinCommand"

definition WinCommand_to_os_string :: "win_command \<Rightarrow> (wide, 'e) outcome" where
  "WinCommand_to_os_string c = Panic"

definition WinCommand_into_os_string :: "win_command \<Rightarrow> (wide, 'e) outcome" where
  "WinCommand_into_os_string c = Panic"

definition WinCommand_into_iter :: "win_command \<Rightarrow> win_command_iter" where
  "WinCommand_into_iter c = WinCommandIter"

definition WinCommandIter_next :: "win_command_iter \<Rightarrow> wide option \<times> win_command_iter" where
  "WinCommandIter_next it = (None, it)"

section \<open>Environments on Windows\<close>

datatype win_environment = WinEnvironment
datatype win_environment_iter = WinEnvironmentIter

definition WinEnvironment_iter :: "win_environment \<Rightarrow> (win_environment_iter, 'e) outcome" where
  "WinEnvironment_iter e = Panic"

definition WinEnvironment_into_iter :: "win_environment \<Rightarrow> (win_environment_iter, 'e) outcome" where
  "WinEnvironment_into_iter e = Panic"

definition WinEnvironmentIter_next ::
    "win_environment_iter \<Rightarrow> ((wide \<times> wide) option \<times> win_environment_iter, 'e) outcome" where
  "WinEnvironmentIter_next it = Panic"

definition WinEnvironmentIter_size_hint :: "win_environment_iter \<Rightarrow> (nat \<times> nat option, 'e) outcome" where
  "WinEnvironmentIter_size_hint it = Panic"

section \<open>Users with musl\<close>

datatype musl_user = MuslUser

definition musl_users :: "((musl_user, heim_error) outcome list, heim_error) outcome" where
  "musl_users = Ok []"

definition MuslUser_username :: "musl_user \<Rightarrow> (string, 'e) outcome" where "MuslUser_username u = Panic"
definition MuslUser_terminal :: "musl_user \<Rightarrow> (string, 'e) outcome" where "MuslUser_terminal u = Panic"
definition MuslUser_id :: "musl_user \<Rightarrow> (string, 'e) outcome" where "MuslUser_id u = Panic"
definition MuslUser_pid :: "musl_user \<Rightarrow> (pid, 'e) outcome" where "MuslUser_pid u = Panic"
definition MuslUser_hostname :: "musl_user \<Rightarrow> (string, 'e) outcome" where "MuslUser_hostname u = Panic"
definition MuslUser_address :: "musl_user \<Rightarrow> ('ip option, 'e) outcome" where "MuslUser_address u = Panic"
definition MuslUser_session_id :: "musl_user \<Rightarrow> (i32, 'e) outcome" where "MuslUser_session_id u = Panic"

section \<open>Temperatures and virtualization\<close>

definition macos_temperatures :: "(temperature_sensor, heim_error) outcome list" where
  "macos_temperatures = []"

definition windows_temperatures :: "(temperature_sensor, heim_error) outcome list" where
  "windows_temperatures = []"

definition macos_detect :: "virtualization option" where "macos_detect = None"
definition windows_detect :: "virtualization option" where "windows_detect = None"

end
