(* ===== verification/Spec2Isabelle.thy ===== *)
theory Spec2Isabelle
  imports Memory_Linux Process_Identity Disk_Linux Virt_Linux Sensors_Linux Net_Macos Disk_Macos
    Process_Windows_Correct Disk_Windows_Correct Layouts_Read Public_Api Derive Elsewhere
begin

text \<open>
  A verification of \<open>heim\<close>, a library that reads information about a system: processors, memory,
  disks, networks, processes, sensors, logged in users and the hypervisor. Every crate has a public
  type per kind of information and one implementation per system, under \<open>sys/linux\<close>, \<open>sys/macos\<close>,
  \<open>sys/unix\<close> and \<open>sys/windows\<close>. The implementations read kernel files or call the C library, check
  what they get and build a record from it; most of their work is parsing, retry loops around buffers
  of unknown size, the translation of errors, and the release of what was opened.

  \<^bold>\<open>The model.\<close> Functions of the sources are HOL functions of the same name, with the type or the system
  in front where a name occurs more than once. Structures are records, enumerations datatypes, integers
  words of their width, strings lists of bytes. A fallible function returns an \<open>outcome\<close>: \<open>Ok\<close>, \<open>Err\<close>
  with the source's error, or \<open>Panic\<close>. The world a function runs in (files, results of system calls,
  build options, conversions of the unit library) is the record \<open>host\<close> and its extensions, a parameter
  of the definitions; where the order of calls matters the system is a state that is passed on, with its
  laws as named hypotheses (\<open>handles_ok\<close>, \<open>iokit_ok\<close>, \<open>win_api_ok\<close>, \<open>wts_ok\<close>,
  \<open>volumes_ok\<close>, \<open>searches_end\<close>, \<open>mode_ok\<close>). An asynchronous function is the function
  it computes once its futures are ready, except for the streams and for \<open>_signal\<close>, whose waits are the
  steps of a transition system.

  \<^bold>\<open>The theories.\<close>
  \<^item> \<open>Heim_Prelude\<close>, \<open>Rust_Str\<close>, \<open>Rust_Float\<close>: overflow checks, outcomes, the routines of \<open>str\<close>, number
    parsing and IEEE arithmetic with its rounding.
  \<^item> \<open>Common_Errors\<close>, \<open>Common_Iter\<close>, \<open>Common_Stream\<close>: \<open>heim-common/src/errors.rs\<close>, \<open>utils/iter.rs\<close> and
    \<open>utils/stream.rs\<close>; the locale \<open>from_str_type\<close> is interpreted on the integer types, \<open>poll_stream\<close> and
    \<open>chained_streams\<close> on the streams and on \<open>ChooseChain\<close>.
  \<^item> \<open>Runtime\<close>: \<open>heim-runtime\<close>; \<open>Keyed_Table\<close>: the locale \<open>keyed_scan\<close> of the parsers of key-value files,
    interpreted on the memory, swap, vmstat, stat and io tables.
  \<^item> \<open>Memory_Linux\<close>, \<open>Host_Linux\<close>, \<open>Cpu_Linux\<close>, \<open>Net_Linux\<close>, \<open>Disk_Linux\<close>, \<open>Virt_Linux\<close>, \<open>Sensors_Linux\<close>:
    the crates of these names on Linux, with what they share with the other Unix systems.
  \<^item> \<open>Process_Types\<close>, \<open>Process_Env\<close>, \<open>Process_Command\<close>, \<open>Process_Procfs\<close>, \<open>Process_Unix\<close>, \<open>Process_Linux\<close>:
    \<open>heim-process\<close> on Linux; \<open>Process_Handle\<close>: the locale \<open>process_handle\<close>, the contract of a handle
    that outlives its process, interpreted on Linux and on macOS; \<open>Process_Identity\<close>: the rounding of
    creation times.
  \<^item> \<open>Retry_Buffer\<close>: \<open>Vec::reserve\<close> and the locale \<open>retry_buffer\<close> of loops that enlarge a buffer,
    interpreted on the process list of macOS and the processor list of Windows.
  \<^item> \<open>Macos_Sys\<close>: \<open>heim-common\<close>, \<open>heim-host\<close>, \<open>heim-memory\<close> and \<open>heim-cpu\<close> on macOS; \<open>Macos_Proc_Args\<close>: the
    argument block \<open>KERN_PROCARGS2\<close>; \<open>Process_Macos\<close>, \<open>Net_Macos\<close>, \<open>Disk_Macos\<close>: processes, the routing
    messages, and mounts and block devices through IOKit.
  \<^item> \<open>Windows_Sys\<close>: handles, file times, \<open>heim-memory\<close>, \<open>heim-cpu\<close> and the times of \<open>heim-host\<close> on Windows;
    \<open>Process_Windows\<close> and \<open>Process_Windows_Correct\<close>: \<open>heim-process\<close> on Windows and its properties;
    \<open>Host_Windows\<close>: the users and the platform information of \<open>heim-host\<close> on Windows; \<open>Net_Windows\<close>: the
    network interfaces, read from linked lists in memory; \<open>Disk_Windows\<close> and \<open>Disk_Windows_Correct\<close>:
    drives, volumes, partitions and usage, and their properties.
  \<^item> \<open>Repr_C\<close>: the layout of \<open>repr(C)\<close> structures and unions, with sizes, alignments, fields in memory and
    the memory of a value; the locales \<open>c_struct\<close> and \<open>flat_struct\<close> are interpreted on the structures of
    \<open>Net_Macos\<close> and \<open>Layouts\<close>, which are those that the kernels of macOS and Windows fill; \<open>Layouts_Read\<close>: the records of
    the model as they are read from memory.
  \<^item> \<open>Process_Api\<close>: the public interface of \<open>heim-process\<close>, \<open>src/process\<close>, over the module \<open>sys\<close>; its locale
    \<open>process_sys\<close>, what the interface relies on, is interpreted on Linux and on macOS. \<open>Public_Api\<close>: the
    public types, functions and extension traits of the other crates, what they print of themselves, and
    the flags of mounted file systems.
  \<^item> \<open>Derive\<close>: the macros of \<open>heim-derive\<close>; \<open>Elsewhere\<close>: what is not implemented on some system.

  \<^bold>\<open>What is shown.\<close>
  \<^item> Parsers: printed tables, lines and blocks are read back field by field, for the environment, the
    command line, the stat, memory, disk, network and mount tables, the routing messages and the macOS
    argument block; the environment parser with its offsets is the split at NUL bytes; which malformed
    inputs are errors, and which panic.
  \<^item> Processes: which processes a handle recognises, down to the rounding of the creation time and to a clock
    that is set; a signal is only sent after that check, as an invariant of all interleavings of its waits
    with a changing system; waiting returns exactly when the process is gone.
  \<^item> Loops: which retry loops end, with which buffers they call the system, and which do not end (the
    lists of processes on Windows, routing messages of length zero, a search for volumes that keeps failing).
  \<^item> Resources: ports, IOKit objects, Windows handles and volume searches are given back on every path, and
    the error mode of a thread is restored; the buffers of the Windows sessions are not given back.
  \<^item> Memory: what the kernel stores in a structure is what the records of the model hold, for the process
    list of macOS, its routing messages, and the statistics of Windows; the fields that are read lie at the
    offsets of the system's own declarations.
  \<^item> The public interface: listing, looking up, parents and liveness of processes are those of a table of
    processes; the environment is the one the kernel prints; the flags of a mount are exactly its declared bits.
  \<^item> Arithmetic: exact results, overflow and wrap-around of the sums and differences of the sources, in
    builds with and without overflow checks.

  \<^bold>\<open>Loops.\<close> Loops over data recurse on it. Loops that ask the system again are \<open>partial_function (option)\<close>
  with the value \<open>None\<close> for a run that does not end, and take the answers of the system as a function of
  the number of the call. Fuel occurs twice: collecting a stream takes a number of polls, and
  \<open>ChooseChain_collect\<close> shows which number is enough; collecting the arguments of a macOS process takes
  one step more than the number of arguments the iterator counts down, which is enough for all of them.

  \<^bold>\<open>Not modelled.\<close> The executor behind \<open>heim-runtime\<close> (smol) with \<open>spawn\<close> and \<open>spawn_blocking\<close>, which only
  call it, and the optional backtraces of errors. The conversions of the \<open>uom\<close> crate, \<open>nix\<close>, \<open>platforms\<close>,
  \<open>raw_cpuid\<close>, \<open>darwin_libproc\<close>, \<open>ntapi\<close> and \<open>bitflags\<close> and the parsers of \<open>syn\<close> are parameters or left out, as are
  the texts that the standard library and \<open>uom\<close> print for the values of a type. The facade \<open>heim\<close> and the units only
  re-export names; the examples and benchmarks are input and output. Declarations of foreign functions
  have no definition beside the parameter that stands for the function.
\<close>

section \<open>The identity of a process across the crates\<close>

text \<open>
  (C2) What a handle on a Linux process recognises, through all the parts that make its identity: the stat
  file, the clock ticks of \<open>heim-runtime\<close>, the boot time of \<open>heim-host\<close> and the rounding of the floating
  point arithmetic, for up to 10000 ticks a second, uptimes below \<open>2 ^ 32\<close> seconds and boot times below
  \<open>2 ^ 33\<close>. The process that now has the id is only accepted, and signalled, when it started at the same
  tick of the wall clock as the one of the handle. While the reported boot time stays the same, these are
  exactly the processes that started at the same tick after boot. But the boot time is part of the number,
  and it changes when the clock is set: then the handle no longer recognises its own process, and a
  different process whose start makes up for the change (always, for starts at whole seconds) is taken for
  it and receives its signals.
\<close>

theorem linux_identity:
  fixes h u :: "'h unix_host_scheme"
  assumes "read_to_string h (process_file_path h pid ''stat'') = Inr (render_stat l)" "stat_line_ok l"
    and "CLOCK_TICKS h = Ok clk" "seconds_base h" "boot_time h = Ok (Fin (of_nat b))"
    and "read_to_string u (process_file_path u pid ''stat'') = Inr (render_stat l')" "stat_line_ok l'"
    and "CLOCK_TICKS u = Ok clk" "seconds_base u" "boot_time u = Ok (Fin (of_nat b'))"
    and "0 < unat clk" "unat clk \<le> 10000" "b < 2 ^ 33" "b' < 2 ^ 33"
    and "unat (sl_start l) < 2 ^ 32 * unat clk" "unat (sl_start l') < 2 ^ 32 * unat clk"
  shows "\<exists>p running. Process_get h pid = Ok p \<and> Process_is_running u p = Ok running \<and>
    Process_signal u u p s = (if running then pid_kill u pid s else Err (NoSuchProcess pid)) \<and>
    (running \<longrightarrow> wall_ticks (sl_start l) clk b = wall_ticks (sl_start l') clk b') \<and>
    (b = b' \<longrightarrow> (running \<longleftrightarrow> sl_start l = sl_start l')) \<and>
    (sl_start l = sl_start l' \<longrightarrow> (running \<longleftrightarrow> b = b')) \<and>
    (unat clk dvd unat (sl_start l) \<and> unat clk dvd unat (sl_start l') \<longrightarrow>
      (running \<longleftrightarrow> wall_ticks (sl_start l) clk b = wall_ticks (sl_start l') clk b'))"
proof -
  let ?p = "\<lambda>l b. \<lparr>proc_pid = pid, proc_unique_id = \<lparr>uid_pid = pid, uid_create_time = created (sl_start l) clk b\<rparr>\<rparr>"
  let ?running = "created (sl_start l) clk b = created (sl_start l') clk b'"
  have p: "Process_get h pid = Ok (?p l b)" and q: "Process_get u pid = Ok (?p l' b')"
    using assms by (simp_all add: Process_get_line)
  have is_running: "Process_is_running u (?p l b) = Ok ?running"
    using linux_handle.running_iff [OF p q] by auto
  then have "Process_signal u u (?p l b) s = (if ?running then pid_kill u pid s else Err (NoSuchProcess pid))"
    using linux_handle.send_checks [of u u "?p l b" s] by simp
  moreover have tick: "wall_ticks (sl_start l) clk b = wall_ticks (sl_start l') clk b'" if ?running
    using created_tick [OF assms(11,12,15,13,16,14) that] .
  moreover have "?running" if "unat clk dvd unat (sl_start l)" "unat clk dvd unat (sl_start l')"
    "wall_ticks (sl_start l) clk b = wall_ticks (sl_start l') clk b'"
    using created_whole [OF assms(11,12,15,13) that(1)] created_whole [OF assms(11,12,16,14) that(2)]
      wall_ticks_whole [OF assms(11) that] by simp
  moreover have "?running \<longleftrightarrow> sl_start l = sl_start l'" if "b = b'"
    using tick that by (auto simp: wall_ticks_def simp flip: word_unat_eq_iff)
  moreover have "?running \<longleftrightarrow> b = b'" if "sl_start l = sl_start l'"
    using tick that assms(11) by (auto simp: wall_ticks_def)
  ultimately show ?thesis using p is_running by blast
qed

theorem linux_identity_witness:
  "(\<exists>p. Process_get (clock_set_host 1570 700) 42 = Ok p \<and> Process_is_running (clock_set_host 1570 701) p = Ok False \<and>
     Process_signal (clock_set_host 1570 701) (clock_set_host 1570 701) p Kill = Err (NoSuchProcess 42)) \<and>
   (\<exists>p. Process_get (clock_set_host 1570 700) 42 = Ok p \<and> Process_is_running (clock_set_host 1569 800) p = Ok True \<and>
     Process_signal (clock_set_host 1569 800) (clock_set_host 1569 800) p Kill =
       pid_kill (clock_set_host 1569 800) 42 Kill)"
proof -
  have ok: "stat_line_ok (sample_stat\<lparr>sl_start := n\<rparr>)" for n
    using sample_stat_ok by (simp add: stat_line_ok_def)
  have boot: "boot_time (clock_set_host b n) = Ok (Fin (of_nat b))" if "b < 2 ^ 33" for b n
    using that by (simp add: clock_set_boot_time)
  note host = clock_set_file ok clock_set_host_simps(1,3) boot
  show ?thesis
    using linux_identity [OF host host, of 1570 1570 700 701 Kill] linux_identity [OF host host, of 1570 1569 700 800 Kill]
    by (auto simp: wall_ticks_def)
qed

end
